theory Spec2Isabelle
  imports Complex_Main "HOL-Library.Word" "HOL-Library.Monad_Syntax"
begin

section \<open>Conventions of the embedding\<close>

text \<open>
  The development embeds the tile stack of \<^verbatim>\<open>turtle_datum.c\<close> and the client of
  \<^verbatim>\<open>client.c\<close> (TURTLE, topographic utilities).

  \<^item> A C \<^verbatim>\<open>double\<close> is read as a real number: rounding, infinities and NaN are left
    out. Where the source divides by a step that can be zero, the quotient is not a
    finite number and the model says so with \<open>None\<close>.
  \<^item> A C \<^verbatim>\<open>int\<close> is an \<open>int\<close> between \<open>INT_MIN\<close> and \<open>INT_MAX\<close>. The two places where
    the source leaves that range (\<^verbatim>\<open>abs(INT_MIN)\<close>, the conversion of a too large
    \<^verbatim>\<open>double\<close>) are undefined in C and are \<open>None\<close> here.
  \<^item> A function whose C execution meets undefined behaviour (a null or dangling
    pointer, a read outside the sample array) returns \<open>None\<close>.
  \<^item> The doubly linked list of tiles (\<^verbatim>\<open>prev\<close>, \<^verbatim>\<open>next\<close>, head pointer
    \<^verbatim>\<open>datum->stack\<close>) is the list of its tiles, head first: following \<^verbatim>\<open>prev\<close> from
    the head walks the list from left to right, and the least recently used tile is
    the last element. A tile carries the address \<^verbatim>\<open>malloc\<close> gave it, so that a
    client's pointer can name it.
\<close>

subsection \<open>Return codes (\<^verbatim>\<open>turtle.h\<close>)\<close>

datatype turtle_return =
    TURTLE_RETURN_SUCCESS
  | TURTLE_RETURN_BAD_ADDRESS
  | TURTLE_RETURN_BAD_EXTENSION
  | TURTLE_RETURN_BAD_FORMAT
  | TURTLE_RETURN_BAD_PROJECTION
  | TURTLE_RETURN_BAD_JSON
  | TURTLE_RETURN_DOMAIN_ERROR
  | TURTLE_RETURN_LIBRARY_ERROR
  | TURTLE_RETURN_LOCK_ERROR
  | TURTLE_RETURN_MEMORY_ERROR
  | TURTLE_RETURN_PATH_ERROR
  | TURTLE_RETURN_UNLOCK_ERROR

subsection \<open>C integers and conversions\<close>

definition INT_MIN :: int where
  "INT_MIN = - (2 ^ 31)"

definition INT_MAX :: int where
  "INT_MAX = 2 ^ 31 - 1"

text \<open>\<^verbatim>\<open>abs\<close> of \<^verbatim>\<open>stdlib.h\<close>: undefined when the result is not representable.\<close>

definition c_abs :: "int \<Rightarrow> int option" where
  "c_abs i = (if i = INT_MIN then None else Some \<bar>i\<bar>)"

text \<open>
  The conversion \<^verbatim>\<open>(int)x\<close> of a \<^verbatim>\<open>double\<close>: the fractional part is discarded
  (truncation toward zero); undefined when the integral part is not an \<^verbatim>\<open>int\<close>.
\<close>

definition trunc_real :: "real \<Rightarrow> int" where
  "trunc_real x = (if 0 \<le> x then \<lfloor>x\<rfloor> else \<lceil>x\<rceil>)"

definition c_int :: "real \<Rightarrow> int option" where
  "c_int x = (let i = trunc_real x in if INT_MIN \<le> i \<and> i \<le> INT_MAX then Some i else None)"

subsection \<open>Data (\<^verbatim>\<open>turtle_datum.h\<close>)\<close>

datatype datum_format = DATUM_FORMAT_NONE | DATUM_FORMAT_ASTER_GDEM2

text \<open>
  \<^verbatim>\<open>struct datum_tile\<close>. The links \<^verbatim>\<open>prev\<close> and \<^verbatim>\<open>next\<close> are the tile's position in
  the list of the stack; \<open>addr\<close> is the address of the block.
\<close>

type_synonym addr = nat

record datum_tile =
  addr :: addr
  clients :: int
  nx :: int
  ny :: int
  x0 :: real
  y0 :: real
  dx :: real
  dy :: real
  z :: "16 word list"

text \<open>
  \<^verbatim>\<open>turtle_datum_cb\<close>, a callback \<^verbatim>\<open>int (void)\<close> of the user: the value it returns at
  its \<open>k\<close>-th call. The number of calls made so far is kept beside the datum.
\<close>

type_synonym turtle_datum_cb = "nat \<Rightarrow> int"

text \<open>
  \<^verbatim>\<open>struct turtle_datum\<close>. \<open>path\<close> is the directory, with its final \<^verbatim>\<open>/\<close>; the C
  buffer that follows it in memory holds the file name of the tile being loaded.
\<close>

record turtle_datum =
  stack :: "datum_tile list"
  stack_size :: int
  max_size :: int
  format :: datum_format
  lock :: "turtle_datum_cb option"
  unlock :: "turtle_datum_cb option"
  path :: string

section \<open>Creating a datum\<close>

text \<open>\<^verbatim>\<open>strrchr\<close> for a character other than NUL: the suffix at its last occurrence.\<close>

fun strrchr :: "string \<Rightarrow> char \<Rightarrow> string option" where
  "strrchr [] c = None"
| "strrchr (x # xs) c =
     (case strrchr xs c of
        Some s \<Rightarrow> Some s
      | None \<Rightarrow> if x = c then Some (x # xs) else None)"

definition basename :: "string \<Rightarrow> string" where
  "basename p = (case strrchr p CHR ''/'' of None \<Rightarrow> p | Some s \<Rightarrow> tl s)"

definition format_str :: "(string \<times> datum_format) list" where
  "format_str = [(''ASTGTM2'', DATUM_FORMAT_ASTER_GDEM2)]"

text \<open>The loop over \<^verbatim>\<open>format_str\<close>: the first entry equal to the base name.\<close>

fun find_format :: "(string \<times> datum_format) list \<Rightarrow> string \<Rightarrow> datum_format" where
  "find_format [] b = DATUM_FORMAT_NONE"
| "find_format ((s, f) # fs) b = (if b = s then f else find_format fs b)"

text \<open>
  \<^verbatim>\<open>turtle_datum_create\<close>. \<open>malloc_ok\<close> tells whether the allocation of the handle
  succeeds. The result is the error code, or the new datum.
\<close>

definition turtle_datum_create ::
  "string \<Rightarrow> int \<Rightarrow> turtle_datum_cb option \<Rightarrow> turtle_datum_cb option \<Rightarrow> bool
     \<Rightarrow> turtle_return + turtle_datum" where
  "turtle_datum_create p ssize lk ulk malloc_ok =
     (if (lk = None \<and> ulk \<noteq> None) \<or> (ulk = None \<and> lk \<noteq> None)
      then Inl TURTLE_RETURN_BAD_ADDRESS
      else let fmt = find_format format_str (basename p) in
        if fmt = DATUM_FORMAT_NONE then Inl TURTLE_RETURN_BAD_FORMAT
        else if \<not> malloc_ok then Inl TURTLE_RETURN_MEMORY_ERROR
        else Inr \<lparr> stack = [], stack_size = 0, max_size = ssize, format = fmt,
                   lock = lk, unlock = ulk,
                   path = (if last p \<noteq> CHR ''/'' then p @ ''/'' else p) \<rparr>)"

section \<open>Geodetic coordinates\<close>

text \<open>\<^verbatim>\<open>get_ellipsoid\<close>: the semi-major axis and the eccentricity of the format.\<close>

definition get_ellipsoid :: "datum_format \<Rightarrow> turtle_return + (real \<times> real)" where
  "get_ellipsoid fmt =
     (case fmt of
        DATUM_FORMAT_NONE \<Rightarrow> Inl TURTLE_RETURN_BAD_FORMAT
      | DATUM_FORMAT_ASTER_GDEM2 \<Rightarrow> Inr (6378137, 0.081819190842622))"

text \<open>\<^verbatim>\<open>atan2\<close> of \<^verbatim>\<open>math.h\<close>, on real numbers.\<close>

definition atan2 :: "real \<Rightarrow> real \<Rightarrow> real" where
  "atan2 y x =
     (if 0 < x then arctan (y / x)
      else if x < 0 then (if 0 \<le> y then arctan (y / x) + pi else arctan (y / x) - pi)
      else if 0 < y then pi / 2
      else if y < 0 then - (pi / 2)
      else 0)"

text \<open>
  The last block of \<^verbatim>\<open>turtle_datum_geodetic\<close>: one iteration of Bowring's method.
  It gives the latitude and the elevation, from \<open>p\<close> and the third coordinate.
\<close>

definition bowring :: "real \<Rightarrow> real \<Rightarrow> real \<Rightarrow> real \<Rightarrow> real \<Rightarrow> real \<Rightarrow> real \<times> real" where
  "bowring a e b eb2 p e2 =
     (let r = sqrt (p * p + e2 * e2);
          tu = b * e2 * (1 + eb2 * b / r) / (a * p);
          tu2 = tu * tu;
          cu = 1 / sqrt (1 + tu2);
          su = cu * tu;
          tp = (e2 + eb2 * b * su * su * su) / (p - e * e * a * cu * cu * cu);
          cp = 1 / sqrt (1 + tp * tp);
          sp = cp * tp
      in (arctan tp * 180 / pi, p * cp + e2 * sp - a * sqrt (1 - e * e * sp * sp)))"

text \<open>
  \<^verbatim>\<open>turtle_datum_geodetic\<close>: from the coordinates \<open>(e0, e1, e2)\<close> to the latitude, the
  longitude and the elevation.
\<close>

definition turtle_datum_geodetic ::
  "turtle_datum \<Rightarrow> real \<times> real \<times> real \<Rightarrow> turtle_return + (real \<times> real \<times> real)" where
  "turtle_datum_geodetic datum ecef =
     (case ecef of (e0, e1, e2) \<Rightarrow>
      case get_ellipsoid (format datum) of
        Inl rc \<Rightarrow> Inl rc
      | Inr (a, e) \<Rightarrow>
          let b2 = a * a * (1 - e * e);
              b = sqrt b2;
              eb2 = e * e * a * a / b2
          in if e0 = 0 \<and> e1 = 0
             then Inr (if 0 \<le> e2 then 90 else - 90, 0, \<bar>e2\<bar> - b)
             else let longitude = atan2 e1 e0 * 180 / pi;
                      p2 = e0 * e0 + e1 * e1;
                      p = sqrt p2
                  in if e2 = 0 then Inr (0, longitude, p - a)
                     else case bowring a e b eb2 p e2 of
                            (latitude, elevation) \<Rightarrow> Inr (latitude, longitude, elevation))"

section \<open>The stack of tiles\<close>

text \<open>The tile at an address, when the list holds it.\<close>

definition tile_at :: "datum_tile list \<Rightarrow> addr \<Rightarrow> datum_tile option" where
  "tile_at ts a = find (\<lambda>t. addr t = a) ts"

text \<open>Taking the tile at an address out of the list, as the relinking of its neighbours does.\<close>

fun unlink :: "datum_tile list \<Rightarrow> addr \<Rightarrow> datum_tile list" where
  "unlink [] a = []"
| "unlink (t # ts) a = (if addr t = a then ts else t # unlink ts a)"

text \<open>
  \<^verbatim>\<open>datum_tile_touch\<close>: nothing when the tile is the head (\<^verbatim>\<open>tile->next == NULL\<close>),
  otherwise the tile is unlinked and becomes the head.
\<close>

definition datum_tile_touch :: "turtle_datum \<Rightarrow> addr \<Rightarrow> turtle_datum" where
  "datum_tile_touch datum a =
     (case stack datum of
        [] \<Rightarrow> datum
      | h # rest \<Rightarrow>
          if addr h = a then datum
          else (case tile_at rest a of
                  None \<Rightarrow> datum
                | Some t \<Rightarrow> datum\<lparr>stack := t # h # unlink rest a\<rparr>))"

text \<open>\<^verbatim>\<open>datum_tile_destroy\<close>: the tile is unlinked and freed, the size goes down by one.\<close>

definition datum_tile_destroy :: "turtle_datum \<Rightarrow> addr \<Rightarrow> turtle_datum" where
  "datum_tile_destroy datum a =
     datum\<lparr>stack := unlink (stack datum) a, stack_size := stack_size datum - 1\<rparr>"

text \<open>
  \<^verbatim>\<open>datum_clear\<close>: the loop walks from the head along \<^verbatim>\<open>prev\<close>; \<open>clear_loop\<close> is the
  loop on the tiles still to visit.
\<close>

fun clear_loop :: "turtle_datum \<Rightarrow> datum_tile list \<Rightarrow> int \<Rightarrow> turtle_datum" where
  "clear_loop datum [] force = datum"
| "clear_loop datum (current # rest) force =
     clear_loop
       (if force \<noteq> 0 \<or> clients current = 0 then datum_tile_destroy datum (addr current)
        else datum)
       rest force"

definition datum_clear :: "turtle_datum \<Rightarrow> int \<Rightarrow> turtle_datum" where
  "datum_clear datum force = clear_loop datum (stack datum) force"

text \<open>
  \<^verbatim>\<open>turtle_datum_destroy\<close> on a handle that is not null: the forced cleaning; the
  result is the datum as it is when its block is freed.
\<close>

definition turtle_datum_destroy :: "turtle_datum \<Rightarrow> turtle_datum" where
  "turtle_datum_destroy datum = datum_clear datum 1"

section \<open>Loading a tile\<close>

text \<open>
  What the GeoTIFF reader finds in a file: the dimensions given by \<^verbatim>\<open>geotiff16_open\<close>
  (\<^verbatim>\<open>uint32_t\<close>) and the samples that \<^verbatim>\<open>geotiff16_readinto\<close> copies, \<open>None\<close> when it
  fails.
\<close>

record geotiff16_reader =
  width :: "32 word"
  height :: "32 word"
  samples :: "16 word list option"

text \<open>
  The surroundings of a load: the files that \<^verbatim>\<open>geotiff16_open\<close> can open, by path, and
  the block that \<^verbatim>\<open>malloc\<close> returns for the tile (\<open>None\<close> when it fails).
\<close>

record loader =
  files :: "string \<Rightarrow> geotiff16_reader option"
  malloc_tile :: "addr option"

text \<open>
  \<^verbatim>\<open>load_gdem2\<close>. The fields that \<^verbatim>\<open>malloc\<close> leaves uninitialised are 0 here;
  \<^verbatim>\<open>datum_tile_load\<close> writes them before any use. An \<^verbatim>\<open>uint32_t\<close> dimension is
  stored into an \<^verbatim>\<open>int\<close> field.
\<close>

definition load_gdem2 :: "loader \<Rightarrow> string \<Rightarrow> turtle_return + datum_tile" where
  "load_gdem2 env p =
     (case files env p of
        None \<Rightarrow> Inl TURTLE_RETURN_PATH_ERROR
      | Some reader \<Rightarrow>
          (case malloc_tile env of
             None \<Rightarrow> Inl TURTLE_RETURN_MEMORY_ERROR
           | Some a \<Rightarrow>
               (case samples reader of
                  None \<Rightarrow> Inl TURTLE_RETURN_BAD_FORMAT
                | Some zs \<Rightarrow>
                    Inr \<lparr> addr = a, clients = 0, nx = sint (width reader),
                          ny = sint (height reader), x0 = 0, y0 = 0, dx = 0, dy = 0,
                          z = zs \<rparr>)))"

text \<open>\<^verbatim>\<open>%02d\<close> and \<^verbatim>\<open>%03d\<close> of \<^verbatim>\<open>sprintf\<close>, for a number that is not negative.\<close>

definition digit :: "nat \<Rightarrow> char" where
  "digit n = ''0123456789'' ! n"

function decimal :: "nat \<Rightarrow> string" where
  "decimal n = (if n < 10 then [digit n] else decimal (n div 10) @ [digit (n mod 10)])"
  by pat_completeness auto
termination
  by (relation "measure id") auto

declare decimal.simps [simp del]

definition printf_0d :: "nat \<Rightarrow> nat \<Rightarrow> string" where
  "printf_0d w n = replicate (w - length (decimal n)) CHR ''0'' @ decimal n"

text \<open>The file name that \<^verbatim>\<open>datum_tile_load\<close> prints into the buffer of the datum.\<close>

definition gdem2_name :: "int \<Rightarrow> int \<Rightarrow> int \<Rightarrow> int \<Rightarrow> string" where
  "gdem2_name latitude longitude absL absl =
     ''ASTGTM2_'' @ [if 0 \<le> latitude then CHR ''N'' else CHR ''S'']
       @ printf_0d 2 (nat absL)
       @ [if 0 \<le> longitude then CHR ''E'' else CHR ''W'']
       @ printf_0d 3 (nat absl) @ ''_dem.tif''"

text \<open>
  The second loop of \<^verbatim>\<open>Make room for the new tile\<close>: from the last tile toward the
  head along \<^verbatim>\<open>next\<close>, while the size is not below the maximum.
\<close>

fun evict_scan :: "turtle_datum \<Rightarrow> datum_tile list \<Rightarrow> turtle_datum" where
  "evict_scan datum [] = datum"
| "evict_scan datum (current # rest) =
     (if stack_size datum \<ge> max_size datum
      then evict_scan
             (if clients current = 0 then datum_tile_destroy datum (addr current)
              else datum)
             rest
      else datum)"

text \<open>
  The first loop reads \<^verbatim>\<open>last->prev\<close> with \<^verbatim>\<open>last = datum->stack\<close>: a null pointer
  when the list is empty.
\<close>

definition make_room :: "turtle_datum \<Rightarrow> turtle_datum option" where
  "make_room datum =
     (if stack datum = [] then None else Some (evict_scan datum (rev (stack datum))))"

definition init_tile :: "datum_tile \<Rightarrow> int \<Rightarrow> int \<Rightarrow> datum_tile" where
  "init_tile t latitude longitude =
     t\<lparr> clients := 0, x0 := real_of_int longitude, y0 := real_of_int latitude,
        dx := (if nx t > 1 then 1 / real_of_int (nx t - 1) else 0),
        dy := (if ny t > 1 then 1 / real_of_int (ny t - 1) else 0) \<rparr>"

text \<open>\<^verbatim>\<open>datum_tile_load\<close>: the return code and the datum afterwards.\<close>

definition datum_tile_load ::
  "loader \<Rightarrow> turtle_datum \<Rightarrow> int \<Rightarrow> int \<Rightarrow> (turtle_return \<times> turtle_datum) option" where
  "datum_tile_load env datum latitude longitude =
     (if format datum = DATUM_FORMAT_ASTER_GDEM2 then
        do {
          absL \<leftarrow> c_abs latitude;
          absl \<leftarrow> c_abs longitude;
          if absl > 180 \<or> absL > 89 then Some (TURTLE_RETURN_DOMAIN_ERROR, datum)
          else
            (case load_gdem2 env (path datum @ gdem2_name latitude longitude absL absl) of
               Inl rc \<Rightarrow> Some (rc, datum)
             | Inr t \<Rightarrow>
                 do {
                   let tile = init_tile t latitude longitude;
                   d \<leftarrow> (if stack_size datum \<ge> max_size datum then make_room datum
                         else Some datum);
                   Some (TURTLE_RETURN_SUCCESS,
                         d\<lparr>stack := tile # stack d, stack_size := stack_size d + 1\<rparr>)
                 })
        }
      else Some (TURTLE_RETURN_BAD_FORMAT, datum))"

section \<open>Interpolation\<close>

text \<open>
  The sample \<^verbatim>\<open>zm[iy*nx+ix]\<close> of a tile, as a \<^verbatim>\<open>double\<close>; \<open>None\<close> when the index is
  outside the array. The client reads its samples through the callback \<^verbatim>\<open>tile->z\<close>,
  which is \<^verbatim>\<open>get_z\<close> of \<^verbatim>\<open>geotiff16.c\<close> for these tiles: the same read.
\<close>

definition zm :: "datum_tile \<Rightarrow> int \<Rightarrow> int \<Rightarrow> real option" where
  "zm t ix iy =
     (let k = iy * nx t + ix
      in if 0 \<le> k \<and> k < int (length (z t)) then Some (real_of_int (sint (z t ! nat k)))
         else None)"

text \<open>
  The block \<^verbatim>\<open>Interpolate the elevation\<close>, the same in \<^verbatim>\<open>turtle_datum_elevation\<close> and
  in \<^verbatim>\<open>turtle_client_elevation\<close>: the fractions are taken before the indices are
  raised to 0.
\<close>

definition interpolate :: "datum_tile \<Rightarrow> real \<Rightarrow> real \<Rightarrow> real option" where
  "interpolate t hx hy =
     do {
       ix \<leftarrow> c_int hx;
       iy \<leftarrow> c_int hy;
       let fx = hx - real_of_int ix;
       let fy = hy - real_of_int iy;
       let ix = (if ix < 0 then 0 else ix);
       let iy = (if iy < 0 then 0 else iy);
       let ix1 = (if ix \<ge> nx t - 1 then nx t - 1 else ix + 1);
       let iy1 = (if iy \<ge> ny t - 1 then ny t - 1 else iy + 1);
       z00 \<leftarrow> zm t ix iy;
       z01 \<leftarrow> zm t ix iy1;
       z10 \<leftarrow> zm t ix1 iy;
       z11 \<leftarrow> zm t ix1 iy1;
       Some (z00 * (1 - fx) * (1 - fy) + z01 * (1 - fx) * fy
             + z10 * fx * (1 - fy) + z11 * fx * fy)
     }"

text \<open>
  The grid coordinate \<^verbatim>\<open>(v - origin) / step\<close>. With a zero step the C quotient is an
  infinity or a NaN: \<open>None\<close>.
\<close>

definition hcoord :: "real \<Rightarrow> real \<Rightarrow> real \<Rightarrow> real option" where
  "hcoord v origin step = (if step = 0 then None else Some ((v - origin) / step))"

text \<open>The pair \<^verbatim>\<open>hx\<close>, \<^verbatim>\<open>hy\<close> of a point in the grid of a tile.\<close>

definition tile_hxy :: "datum_tile \<Rightarrow> real \<Rightarrow> real \<Rightarrow> real option \<times> real option" where
  "tile_hxy t latitude longitude =
     (hcoord longitude (x0 t) (dx t), hcoord latitude (y0 t) (dy t))"

text \<open>
  The test \<^verbatim>\<open>(hx >= 0.) && (hx <= nx) && (hy >= 0.) && (hy <= ny)\<close>; it is false
  for an infinity and for a NaN.
\<close>

definition in_tile :: "datum_tile \<Rightarrow> real \<Rightarrow> real \<Rightarrow> bool" where
  "in_tile t latitude longitude =
     (case tile_hxy t latitude longitude of
        (Some hx, Some hy) \<Rightarrow>
          0 \<le> hx \<and> hx \<le> real_of_int (nx t) \<and> 0 \<le> hy \<and> hy \<le> real_of_int (ny t)
      | _ \<Rightarrow> False)"

text \<open>
  The interpolation at a pair \<^verbatim>\<open>hx\<close>, \<^verbatim>\<open>hy\<close>; the conversion \<^verbatim>\<open>(int)hx\<close> of a
  coordinate that is not finite is undefined.
\<close>

definition interpolate_hxy :: "datum_tile \<Rightarrow> real option \<times> real option \<Rightarrow> real option" where
  "interpolate_hxy t hxy =
     do {
       hx \<leftarrow> fst hxy;
       hy \<leftarrow> snd hxy;
       interpolate t hx hy
     }"

section \<open>Elevation from the stack, without a client\<close>

text \<open>
  One coordinate of the test \<^verbatim>\<open>(hx < 0.) || (hx > nx)\<close> on the top tile. With a
  zero step the quotient is an infinity, which is outside, unless the numerator is 0
  as well: the NaN passes the test.
\<close>

definition coordinate_out :: "real \<Rightarrow> real \<Rightarrow> real \<Rightarrow> int \<Rightarrow> bool" where
  "coordinate_out v origin step n =
     (if step = 0 then v \<noteq> origin
      else (v - origin) / step < 0 \<or> (v - origin) / step > real_of_int n)"

definition outside_top :: "datum_tile \<Rightarrow> real \<Rightarrow> real \<Rightarrow> bool" where
  "outside_top t latitude longitude =
     (coordinate_out longitude (x0 t) (dx t) (nx t)
      \<or> coordinate_out latitude (y0 t) (dy t) (ny t))"

text \<open>
  \<^verbatim>\<open>turtle_datum_elevation\<close>: the return code, the value written to \<^verbatim>\<open>*elevation\<close>
  if any, and the datum afterwards. The arguments of \<^verbatim>\<open>datum_tile_load\<close> are
  converted to \<^verbatim>\<open>int\<close> at the call.
\<close>

definition datum_interpolate ::
  "turtle_datum \<Rightarrow> real option \<times> real option
     \<Rightarrow> (turtle_return \<times> real option \<times> turtle_datum) option" where
  "datum_interpolate datum hxy =
     (case stack datum of
        [] \<Rightarrow> None
      | h # rest \<Rightarrow>
          do {
            e \<leftarrow> interpolate_hxy h hxy;
            Some (TURTLE_RETURN_SUCCESS, Some e, datum)
          })"

definition datum_load_and_interpolate ::
  "loader \<Rightarrow> turtle_datum \<Rightarrow> real \<Rightarrow> real
     \<Rightarrow> (turtle_return \<times> real option \<times> turtle_datum) option" where
  "datum_load_and_interpolate env datum latitude longitude =
     do {
       la \<leftarrow> c_int latitude;
       lo \<leftarrow> c_int longitude;
       (rc, d) \<leftarrow> datum_tile_load env datum la lo;
       if rc \<noteq> TURTLE_RETURN_SUCCESS then Some (rc, None, d)
       else (case stack d of
               [] \<Rightarrow> None
             | h # rest \<Rightarrow> datum_interpolate d (tile_hxy h latitude longitude))
     }"

definition turtle_datum_elevation ::
  "loader \<Rightarrow> turtle_datum \<Rightarrow> real \<Rightarrow> real
     \<Rightarrow> (turtle_return \<times> real option \<times> turtle_datum) option" where
  "turtle_datum_elevation env datum latitude longitude =
     (case stack datum of
        [] \<Rightarrow> datum_load_and_interpolate env datum latitude longitude
      | h # rest \<Rightarrow>
          if outside_top h latitude longitude then
            (case find (\<lambda>t. in_tile t latitude longitude) rest of
               Some t \<Rightarrow>
                 datum_interpolate (datum_tile_touch datum (addr t))
                   (tile_hxy t latitude longitude)
             | None \<Rightarrow> datum_load_and_interpolate env datum latitude longitude)
          else datum_interpolate datum (tile_hxy h latitude longitude))"

section \<open>Clients\<close>

text \<open>
  \<^verbatim>\<open>struct turtle_client\<close>: the pinned tile (a pointer, \<open>None\<close> for \<^verbatim>\<open>NULL\<close>) and
  the pair of the last load that failed. All clients are clients of the one stack.
\<close>

record turtle_client =
  tile :: "addr option"
  index_la :: int
  index_lo :: int

text \<open>
  The client reaches the tiles through \<^verbatim>\<open>stack->head\<close>, \<^verbatim>\<open>stack->size\<close>,
  \<^verbatim>\<open>tile_touch\<close>, \<^verbatim>\<open>tile_destroy\<close> and \<^verbatim>\<open>tile_load\<close>: these are the fields
  \<open>stack\<close>, \<open>stack_size\<close> and the functions \<open>datum_tile_touch\<close>,
  \<open>datum_tile_destroy\<close>, \<open>datum_tile_load\<close> above.

  The state of a program: the stack, the handles of its clients (\<open>None\<close> for a handle
  that is \<^verbatim>\<open>NULL\<close>), and how many times each callback was called.
\<close>

record world =
  datum :: turtle_datum
  handles :: "turtle_client option list"
  lock_calls :: nat
  unlock_calls :: nat

text \<open>\<^verbatim>\<open>(stack->lock != NULL) && (stack->lock() != 0)\<close>, and the same for unlock.\<close>

definition lock_fails :: "world \<Rightarrow> bool \<times> world" where
  "lock_fails w =
     (case lock (datum w) of
        None \<Rightarrow> (False, w)
      | Some f \<Rightarrow> (f (lock_calls w) \<noteq> 0, w\<lparr>lock_calls := Suc (lock_calls w)\<rparr>))"

definition unlock_fails :: "world \<Rightarrow> bool \<times> world" where
  "unlock_fails w =
     (case unlock (datum w) of
        None \<Rightarrow> (False, w)
      | Some f \<Rightarrow> (f (unlock_calls w) \<noteq> 0, w\<lparr>unlock_calls := Suc (unlock_calls w)\<rparr>))"

text \<open>\<^verbatim>\<open>turtle_datum_clear\<close>: the soft cleaning, between lock and unlock.\<close>

definition turtle_datum_clear :: "world \<Rightarrow> turtle_return \<times> world" where
  "turtle_datum_clear w =
     (case lock_fails w of (failed, w1) \<Rightarrow>
        if failed then (TURTLE_RETURN_LOCK_ERROR, w1)
        else (case unlock_fails (w1\<lparr>datum := datum_clear (datum w1) 0\<rparr>) of
                (failed, w2) \<Rightarrow>
                  if failed then (TURTLE_RETURN_UNLOCK_ERROR, w2)
                  else (TURTLE_RETURN_SUCCESS, w2)))"

text \<open>The client behind a handle; \<open>None\<close> for a null pointer.\<close>

definition client_at :: "world \<Rightarrow> nat \<Rightarrow> turtle_client option" where
  "client_at w i = (if i < length (handles w) then handles w ! i else None)"

definition set_client :: "world \<Rightarrow> nat \<Rightarrow> turtle_client \<Rightarrow> world" where
  "set_client w i c = w\<lparr>handles := (handles w)[i := Some c]\<rparr>"

text \<open>Writing the field \<^verbatim>\<open>clients\<close> of the tile at an address.\<close>

definition set_clients :: "datum_tile list \<Rightarrow> addr \<Rightarrow> int \<Rightarrow> datum_tile list" where
  "set_clients ts a n = map (\<lambda>t. if addr t = a then t\<lparr>clients := n\<rparr> else t) ts"

definition poke_clients :: "world \<Rightarrow> addr \<Rightarrow> int \<Rightarrow> world" where
  "poke_clients w a n = w\<lparr>datum := (datum w)\<lparr>stack := set_clients (stack (datum w)) a n\<rparr>\<rparr>"

text \<open>\<^verbatim>\<open>turtle_client_create\<close>: the new handle is the last one.\<close>

definition turtle_client_create :: "world \<Rightarrow> bool \<Rightarrow> turtle_return \<times> world" where
  "turtle_client_create w malloc_ok =
     (if lock (datum w) = None then (TURTLE_RETURN_BAD_ADDRESS, w)
      else if \<not> malloc_ok then (TURTLE_RETURN_MEMORY_ERROR, w)
      else (TURTLE_RETURN_SUCCESS,
            w\<lparr>handles := handles w
                 @ [Some \<lparr>tile = None, index_la = INT_MIN, index_lo = INT_MIN\<rparr>]\<rparr>))"

text \<open>The label \<^verbatim>\<open>unlock\<close> of \<^verbatim>\<open>client_release\<close>.\<close>

definition release_unlock :: "world \<Rightarrow> bool \<Rightarrow> turtle_return \<Rightarrow> turtle_return \<times> world" where
  "release_unlock w lk rc =
     (if lk then
        (case unlock_fails w of (failed, w1) \<Rightarrow>
           if failed then (TURTLE_RETURN_UNLOCK_ERROR, w1) else (rc, w1))
      else (rc, w))"

text \<open>
  The block \<^verbatim>\<open>Update the reference count\<close> of \<^verbatim>\<open>client_release\<close>, with the
  removal of the tile that follows it: \<open>t\<close> is the tile at \<open>a\<close> as it was read.
\<close>

definition release_count :: "world \<Rightarrow> addr \<Rightarrow> datum_tile \<Rightarrow> turtle_return \<times> world" where
  "release_count w a t =
     (let n = clients t - 1
      in if n < 0 then (TURTLE_RETURN_LIBRARY_ERROR, poke_clients w a 0)
         else
           (let w1 = poke_clients w a n
            in (TURTLE_RETURN_SUCCESS,
                if n = 0 \<and> stack_size (datum w1) > max_size (datum w1)
                then w1\<lparr>datum := datum_tile_destroy (datum w1) a\<rparr>
                else w1)))"

text \<open>
  \<^verbatim>\<open>client_release\<close>, for the client of handle \<open>i\<close>; \<open>lk\<close> is the flag \<^verbatim>\<open>lock\<close>.
\<close>

definition client_release :: "world \<Rightarrow> nat \<Rightarrow> bool \<Rightarrow> (turtle_return \<times> world) option" where
  "client_release w i lk =
     do {
       client \<leftarrow> client_at w i;
       (case tile client of
          None \<Rightarrow> Some (TURTLE_RETURN_SUCCESS, w)
        | Some a \<Rightarrow>
            (case (if lk then lock_fails w else (False, w)) of (failed, w1) \<Rightarrow>
               if failed then Some (TURTLE_RETURN_LOCK_ERROR, w1)
               else
                 do {
                   t \<leftarrow> tile_at (stack (datum w1)) a;
                   (case release_count (set_client w1 i (client\<lparr>tile := None\<rparr>)) a t of
                      (rc, w2) \<Rightarrow> Some (release_unlock w2 lk rc))
                 }))
     }"

text \<open>\<^verbatim>\<open>turtle_client_destroy\<close> and \<^verbatim>\<open>turtle_client_clear\<close>.\<close>

definition turtle_client_destroy :: "world \<Rightarrow> nat \<Rightarrow> (turtle_return \<times> world) option" where
  "turtle_client_destroy w i =
     (case client_at w i of
        None \<Rightarrow> Some (TURTLE_RETURN_SUCCESS, w)
      | Some client \<Rightarrow>
          do {
            (rc, w1) \<leftarrow> client_release w i True;
            if rc = TURTLE_RETURN_LOCK_ERROR then Some (TURTLE_RETURN_LOCK_ERROR, w1)
            else if rc = TURTLE_RETURN_UNLOCK_ERROR
            then Some (TURTLE_RETURN_UNLOCK_ERROR, w1)
            else Some (TURTLE_RETURN_SUCCESS, w1\<lparr>handles := (handles w1)[i := None]\<rparr>)
          })"

definition turtle_client_clear :: "world \<Rightarrow> nat \<Rightarrow> (turtle_return \<times> world) option" where
  "turtle_client_clear w i =
     do {
       (rc, w1) \<leftarrow> client_release w i True;
       if rc = TURTLE_RETURN_LOCK_ERROR then Some (TURTLE_RETURN_LOCK_ERROR, w1)
       else if rc = TURTLE_RETURN_UNLOCK_ERROR then Some (TURTLE_RETURN_UNLOCK_ERROR, w1)
       else Some (TURTLE_RETURN_SUCCESS, w1)
     }"

section \<open>Elevation through a client\<close>

text \<open>
  Modelled from the spec: the macros of \<^verbatim>\<open>error.h\<close>, which is not among the sources.
  Each one reports an error and returns its code: \<^verbatim>\<open>PathError\<close> for missing data,
  the lock and the unlock error, and the given code for an unexpected error. The
  handler that the user installs is taken to return.
\<close>

definition TURTLE_ERROR_MISSING_DATA :: turtle_return where
  "TURTLE_ERROR_MISSING_DATA = TURTLE_RETURN_PATH_ERROR"

definition TURTLE_ERROR_LOCK :: turtle_return where
  "TURTLE_ERROR_LOCK = TURTLE_RETURN_LOCK_ERROR"

definition TURTLE_ERROR_UNLOCK :: turtle_return where
  "TURTLE_ERROR_UNLOCK = TURTLE_RETURN_UNLOCK_ERROR"

definition TURTLE_ERROR_UNEXPECTED :: "turtle_return \<Rightarrow> turtle_return" where
  "TURTLE_ERROR_UNEXPECTED rc = rc"

text \<open>
  What a call of \<^verbatim>\<open>turtle_client_elevation\<close> leaves: its return code, the value
  written to \<^verbatim>\<open>*elevation\<close> (\<open>None\<close> when nothing is written), the value of
  \<^verbatim>\<open>*inside\<close> (\<open>None\<close> when the pointer is \<^verbatim>\<open>NULL\<close>) and the state.
\<close>

record elevation_result =
  ret :: turtle_return
  elevation_out :: "real option"
  inside_out :: "int option"
  world_out :: world

text \<open>\<^verbatim>\<open>if (inside != NULL) *inside = 0\<close>, with \<open>ins\<close> for \<^verbatim>\<open>inside != NULL\<close>.\<close>

definition inside0 :: "bool \<Rightarrow> int option" where
  "inside0 ins = (if ins then Some 0 else None)"

text \<open>The label \<^verbatim>\<open>interpolate\<close>: the samples are those of \<^verbatim>\<open>client->tile\<close>.\<close>

definition client_interpolate ::
  "world \<Rightarrow> nat \<Rightarrow> real option \<times> real option \<Rightarrow> bool \<Rightarrow> elevation_result option" where
  "client_interpolate w i hxy ins =
     do {
       client \<leftarrow> client_at w i;
       a \<leftarrow> tile client;
       t \<leftarrow> tile_at (stack (datum w)) a;
       e \<leftarrow> interpolate_hxy t hxy;
       Some \<lparr> ret = TURTLE_RETURN_SUCCESS, elevation_out = Some e,
              inside_out = (if ins then Some 1 else None), world_out = w \<rparr>
     }"

text \<open>The label \<^verbatim>\<open>unlock\<close>, entered with the code \<open>rc\<close>.\<close>

definition client_unlock ::
  "world \<Rightarrow> nat \<Rightarrow> turtle_return \<Rightarrow> real option \<times> real option \<Rightarrow> bool
     \<Rightarrow> elevation_result option" where
  "client_unlock w i rc hxy ins =
     (case unlock_fails w of (failed, w1) \<Rightarrow>
        if failed
        then Some \<lparr> ret = TURTLE_ERROR_UNLOCK, elevation_out = None,
                    inside_out = inside0 ins, world_out = w1 \<rparr>
        else if rc \<noteq> TURTLE_RETURN_SUCCESS
        then Some \<lparr> ret =
                      (if rc = TURTLE_RETURN_PATH_ERROR
                       then (if ins then TURTLE_RETURN_SUCCESS
                             else TURTLE_ERROR_MISSING_DATA)
                       else if rc = TURTLE_RETURN_LOCK_ERROR then TURTLE_ERROR_LOCK
                       else if rc = TURTLE_RETURN_UNLOCK_ERROR then TURTLE_ERROR_UNLOCK
                       else TURTLE_ERROR_UNEXPECTED rc),
                    elevation_out = Some 0, inside_out = inside0 ins, world_out = w1 \<rparr>
        else client_interpolate w1 i hxy ins)"

text \<open>The label \<^verbatim>\<open>update\<close>, entered with \<^verbatim>\<open>current\<close> at the address \<open>a\<close>.\<close>

definition client_update ::
  "world \<Rightarrow> nat \<Rightarrow> addr \<Rightarrow> real option \<times> real option \<Rightarrow> bool \<Rightarrow> elevation_result option" where
  "client_update w i a hxy ins =
     do {
       (rc, w1) \<leftarrow> client_release w i False;
       if rc \<noteq> TURTLE_RETURN_SUCCESS then client_unlock w1 i rc hxy ins
       else
         do {
           current \<leftarrow> tile_at (stack (datum w1)) a;
           client \<leftarrow> client_at w1 i;
           let w2 = poke_clients w1 a (clients current + 1);
           let w3 = set_client w2 i
                      (client\<lparr>tile := Some a, index_la := INT_MIN, index_lo := INT_MIN\<rparr>);
           client_unlock w3 i TURTLE_RETURN_SUCCESS hxy ins
         }
     }"

text \<open>
  The loop over the stack, from the head: the first tile that is not the client's
  and holds the point.
\<close>

definition client_search ::
  "datum_tile list \<Rightarrow> addr option \<Rightarrow> real \<Rightarrow> real \<Rightarrow> datum_tile option" where
  "client_search ts pinned latitude longitude =
     find (\<lambda>t. Some (addr t) \<noteq> pinned \<and> in_tile t latitude longitude) ts"

text \<open>
  The branch taken when no tile holds the point: the load, with its arguments
  converted to \<^verbatim>\<open>int\<close> at the call, then the record of a failure or the update.
\<close>

definition client_load ::
  "loader \<Rightarrow> world \<Rightarrow> nat \<Rightarrow> real \<Rightarrow> real \<Rightarrow> bool \<Rightarrow> elevation_result option" where
  "client_load env w i latitude longitude ins =
     do {
       la \<leftarrow> c_int latitude;
       lo \<leftarrow> c_int longitude;
       (rc, d) \<leftarrow> datum_tile_load env (datum w) la lo;
       let w1 = w\<lparr>datum := d\<rparr>;
       if rc \<noteq> TURTLE_RETURN_SUCCESS then
         do {
           (rc_release, w2) \<leftarrow> client_release w1 i False;
           client \<leftarrow> client_at w2 i;
           let w3 = set_client w2 i (client\<lparr>index_la := la, index_lo := lo\<rparr>);
           client_unlock w3 i rc (None, None) ins
         }
       else
         (case stack d of
            [] \<Rightarrow> None
          | current # rest \<Rightarrow>
              client_update w1 i (addr current) (tile_hxy current latitude longitude) ins)
     }"

text \<open>From \<^verbatim>\<open>Lock the stack\<close> on.\<close>

definition client_locked ::
  "loader \<Rightarrow> world \<Rightarrow> nat \<Rightarrow> real \<Rightarrow> real \<Rightarrow> bool \<Rightarrow> elevation_result option" where
  "client_locked env w i latitude longitude ins =
     do {
       client \<leftarrow> client_at w i;
       (case lock_fails w of (failed, w1) \<Rightarrow>
          if failed
          then Some \<lparr> ret = TURTLE_ERROR_LOCK, elevation_out = None,
                      inside_out = inside0 ins, world_out = w1 \<rparr>
          else
            (case client_search (stack (datum w1)) (tile client) latitude longitude of
               Some current \<Rightarrow>
                 client_update (w1\<lparr>datum := datum_tile_touch (datum w1) (addr current)\<rparr>) i
                   (addr current) (tile_hxy current latitude longitude) ins
             | None \<Rightarrow> client_load env w1 i latitude longitude ins))
     }"

text \<open>
  \<^verbatim>\<open>turtle_client_elevation\<close>, for the client of handle \<open>i\<close>. The conversion
  \<^verbatim>\<open>(int)longitude\<close> is made only when the latitudes agree.
\<close>

definition turtle_client_elevation ::
  "loader \<Rightarrow> world \<Rightarrow> nat \<Rightarrow> real \<Rightarrow> real \<Rightarrow> bool \<Rightarrow> elevation_result option" where
  "turtle_client_elevation env w i latitude longitude ins =
     do {
       client \<leftarrow> client_at w i;
       (case tile client of
          Some a \<Rightarrow>
            do {
              current \<leftarrow> tile_at (stack (datum w)) a;
              if in_tile current latitude longitude
              then client_interpolate w i (tile_hxy current latitude longitude) ins
              else client_locked env w i latitude longitude ins
            }
        | None \<Rightarrow>
            do {
              la \<leftarrow> c_int latitude;
              known \<leftarrow> (if la = index_la client
                        then map_option (\<lambda>lo. lo = index_lo client) (c_int longitude)
                        else Some False);
              if known
              then Some \<lparr> ret = (if ins then TURTLE_RETURN_SUCCESS
                                 else TURTLE_ERROR_MISSING_DATA),
                          elevation_out = None, inside_out = inside0 ins, world_out = w \<rparr>
              else client_locked env w i latitude longitude ins
            })
     }"

section \<open>The interpolation in the words of the specification\<close>

text \<open>
  The sample at the node \<open>(ix, iy)\<close> of the grid, for \<open>0 \<le> ix < nx\<close> and
  \<open>0 \<le> iy < ny\<close>, and the bilinear formula of the specification, with its indices
  clamped into the grid.
\<close>

definition node :: "datum_tile \<Rightarrow> int \<Rightarrow> int \<Rightarrow> real" where
  "node t ix iy = real_of_int (sint (z t ! nat (iy * nx t + ix)))"

definition clamp :: "int \<Rightarrow> int \<Rightarrow> int \<Rightarrow> int" where
  "clamp v lo hi = max lo (min hi v)"

definition bilinear_spec :: "datum_tile \<Rightarrow> real \<Rightarrow> real \<Rightarrow> real" where
  "bilinear_spec t hx hy =
     (let ix = clamp \<lfloor>hx\<rfloor> 0 (nx t - 1);
          iy = clamp \<lfloor>hy\<rfloor> 0 (ny t - 1);
          ix1 = min (ix + 1) (nx t - 1);
          iy1 = min (iy + 1) (ny t - 1);
          fx = hx - real_of_int ix;
          fy = hy - real_of_int iy
      in node t ix iy * (1 - fx) * (1 - fy) + node t ix iy1 * (1 - fx) * fy
         + node t ix1 iy * fx * (1 - fy) + node t ix1 iy1 * fx * fy)"

text \<open>A tile whose array holds one sample for each node of its grid.\<close>

definition grid_tile :: "datum_tile \<Rightarrow> bool" where
  "grid_tile t =
     (0 < nx t \<and> nx t \<le> INT_MAX \<and> 0 < ny t \<and> ny t \<le> INT_MAX
      \<and> int (length (z t)) = nx t * ny t)"

section \<open>The eviction in the words of the specification\<close>

text \<open>
  The eviction in the words of the spec: the walk goes from the LRU end toward the head
  and destroys the tiles without a pin, until \<open>n\<close> tiles are gone or the list is at its
  end. The list is given from the LRU end; the result is what stays, in the same
  order.
\<close>

fun lru_evict_spec :: "nat \<Rightarrow> datum_tile list \<Rightarrow> datum_tile list" where
  "lru_evict_spec 0 ts = ts"
| "lru_evict_spec (Suc n) [] = []"
| "lru_evict_spec (Suc n) (t # ts) =
     (if clients t = 0 then lru_evict_spec n ts else t # lru_evict_spec (Suc n) ts)"

section \<open>Invariants of the stack and its clients\<close>

text \<open>The pointers \<^verbatim>\<open>client->tile\<close> of the handles, \<open>None\<close> for a null one.\<close>

definition pinned :: "turtle_client option list \<Rightarrow> addr option list" where
  "pinned hs = map (\<lambda>h. case h of None \<Rightarrow> None | Some c \<Rightarrow> tile c) hs"

text \<open>The number of clients whose pinned tile is the tile at \<open>a\<close>.\<close>

definition pins :: "world \<Rightarrow> addr \<Rightarrow> nat" where
  "pins w a = count_list (pinned (handles w)) (Some a)"

text \<open>Pin accounting: the count of every tile of the stack is the number of its clients.\<close>

definition pin_accounting :: "world \<Rightarrow> bool" where
  "pin_accounting w = (\<forall>t \<in> set (stack (datum w)). clients t = int (pins w (addr t)))"

text \<open>
  The list is well formed: no two tiles at one address, and every pinned tile is a tile
  of the stack.
\<close>

definition well_formed :: "world \<Rightarrow> bool" where
  "well_formed w =
     (distinct (map addr (stack (datum w)))
      \<and> set (pinned (handles w))
          \<subseteq> insert None (set (map (\<lambda>t. Some (addr t)) (stack (datum w)))))"

text \<open>Both together, on the list of the tiles and the list of the pinned pointers.\<close>

definition accounted :: "datum_tile list \<Rightarrow> addr option list \<Rightarrow> bool" where
  "accounted S H =
     (distinct (map addr S)
      \<and> set H \<subseteq> insert None (set (map (\<lambda>t. Some (addr t)) S))
      \<and> (\<forall>t \<in> set S. clients t = int (count_list H (Some (addr t)))))"

text \<open>The block that \<^verbatim>\<open>malloc\<close> returns is not the block of a tile in the stack.\<close>

definition fresh :: "loader \<Rightarrow> turtle_datum \<Rightarrow> bool" where
  "fresh env d =
     (case malloc_tile env of None \<Rightarrow> True | Some a \<Rightarrow> a \<notin> set (map addr (stack d)))"

text \<open>The number of tiles with a pin, and the soft bound on the size.\<close>

definition pinned_tiles :: "turtle_datum \<Rightarrow> nat" where
  "pinned_tiles d = length (filter (\<lambda>t. 0 < clients t) (stack d))"

definition soft_bound :: "turtle_datum \<Rightarrow> bool" where
  "soft_bound d = (stack_size d \<le> max (max_size d) (int (pinned_tiles d)))"

text \<open>The size field is the length of the list, and no count is negative.\<close>

definition sized :: "turtle_datum \<Rightarrow> bool" where
  "sized d =
     (stack_size d = int (length (stack d)) \<and> distinct (map addr (stack d))
      \<and> (\<forall>t \<in> set (stack d). 0 \<le> clients t))"

section \<open>Sample states\<close>

text \<open>Callbacks that always succeed and always fail.\<close>

definition always_ok :: turtle_datum_cb where
  "always_ok k = 0"

definition always_fails :: turtle_datum_cb where
  "always_fails k = 1"

text \<open>An empty stack for one tile, with callbacks that succeed.\<close>

definition empty_datum :: turtle_datum where
  "empty_datum =
     \<lparr> stack = [], stack_size = 0, max_size = 1, format = DATUM_FORMAT_ASTER_GDEM2,
       lock = Some always_ok, unlock = Some always_ok, path = ''/data/ASTGTM2/'' \<rparr>"

text \<open>A directory without any file, and no memory for a tile.\<close>

definition no_files :: loader where
  "no_files = \<lparr> files = (\<lambda>p. None), malloc_tile = None \<rparr>"

text \<open>
  A tile of two columns and three rows at latitude 45 and longitude 3, pinned by one
  client, and the state that holds them.
\<close>

definition tile_A :: datum_tile where
  "tile_A = \<lparr> addr = 1, clients = 1, nx = 2, ny = 3, x0 = 3, y0 = 45, dx = 1, dy = 1 / 2,
              z = [10, 20, 30, 40, 50, 60] \<rparr>"

definition client_A :: turtle_client where
  "client_A = \<lparr> tile = Some 1, index_la = INT_MIN, index_lo = INT_MIN \<rparr>"

definition world_A :: world where
  "world_A = \<lparr> datum = empty_datum\<lparr>stack := [tile_A], stack_size := 1\<rparr>,
               handles = [Some client_A], lock_calls = 0, unlock_calls = 0 \<rparr>"

text \<open>The same state with a count that lost its pin, and a state whose unlock fails.\<close>

definition world_underflow :: world where
  "world_underflow = poke_clients world_A 1 0"

definition unlock_broken :: "world \<Rightarrow> world" where
  "unlock_broken w = w\<lparr>datum := (datum w)\<lparr>unlock := Some always_fails\<rparr>\<rparr>"

text \<open>
  A directory with the files of two tiles, of two columns and three rows each, and
  memory for one tile at the address 2.
\<close>

definition two_files :: loader where
  "two_files =
     \<lparr> files = (\<lambda>p. if p = ''/data/ASTGTM2/ASTGTM2_N45E003_dem.tif''
                      then Some \<lparr> width = 2, height = 3,
                                  samples = Some [10, 20, 30, 40, 50, 60] \<rparr>
                      else if p = ''/data/ASTGTM2/ASTGTM2_N46E003_dem.tif''
                      then Some \<lparr> width = 2, height = 3,
                                  samples = Some [60, 50, 40, 30, 20, 10] \<rparr>
                      else None),
       malloc_tile = Some 2 \<rparr>"

text \<open>The tile that the second file gives.\<close>

definition tile_B :: datum_tile where
  "tile_B = \<lparr> addr = 2, clients = 0, nx = 2, ny = 3, x0 = 3, y0 = 46, dx = 1, dy = 1 / 2,
              z = [60, 50, 40, 30, 20, 10] \<rparr>"

text \<open>A directory whose only file is a raster without columns.\<close>

definition empty_raster_file :: loader where
  "empty_raster_file =
     \<lparr> files = (\<lambda>p. if p = ''/data/ASTGTM2/ASTGTM2_N45E003_dem.tif''
                      then Some \<lparr> width = 0, height = 3, samples = Some [] \<rparr>
                      else None),
       malloc_tile = Some 2 \<rparr>"

text \<open>
  The first tile pinned by the first of two clients, in a stack for one tile; and the
  state after the second client has asked for a point of the second tile.
\<close>

definition client_0 :: turtle_client where
  "client_0 = \<lparr> tile = None, index_la = INT_MIN, index_lo = INT_MIN \<rparr>"

definition world_two :: world where
  "world_two = world_A\<lparr>handles := [Some client_A, Some client_0]\<rparr>"

definition world_three :: world where
  "world_three =
     \<lparr> datum = empty_datum\<lparr>stack := [tile_B\<lparr>clients := 1\<rparr>, tile_A], stack_size := 2\<rparr>,
       handles = [Some client_A, Some (client_0\<lparr>tile := Some 2\<rparr>)],
       lock_calls = 1, unlock_calls = 1 \<rparr>"

text \<open>The first tile pinned by two clients.\<close>

definition world_shared :: world where
  "world_shared =
     \<lparr> datum = empty_datum\<lparr>stack := [tile_A\<lparr>clients := 2\<rparr>], stack_size := 1\<rparr>,
       handles = [Some client_A, Some client_A], lock_calls = 0, unlock_calls = 0 \<rparr>"








section \<open>Creation and the base name of the path\<close>

lemma find_format_ASTGTM2:
  "find_format format_str b =
     (if b = ''ASTGTM2'' then DATUM_FORMAT_ASTER_GDEM2 else DATUM_FORMAT_NONE)"
  by (simp add: format_str_def)

lemma strrchr_append_slash: "strrchr (p @ ''/'') CHR ''/'' = Some ''/''"
  by (induction p) simp_all

lemma basename_trailing_slash: "basename (p @ ''/'') = []"
  by (simp add: basename_def strrchr_append_slash)

text \<open>
  C10, as the code has it. A datum is created only for a path whose last component
  is \<^verbatim>\<open>ASTGTM2\<close>. Any other base name is rejected whatever the allocation would
  do: with \<^verbatim>\<open>BadFormat\<close> when the two callbacks are both given or both absent, and
  with \<^verbatim>\<open>BadAddress\<close> otherwise, since the callbacks are checked first.
\<close>

theorem create_needs_ASTGTM2:
  "(\<not> isl (turtle_datum_create p n lk ulk m) \<longrightarrow> basename p = ''ASTGTM2'')
   \<and> (basename p \<noteq> ''ASTGTM2'' \<longrightarrow>
        turtle_datum_create p n lk ulk m =
          Inl (if (lk = None) = (ulk = None) then TURTLE_RETURN_BAD_FORMAT
               else TURTLE_RETURN_BAD_ADDRESS))"
  by (auto simp: turtle_datum_create_def find_format_ASTGTM2 Let_def split: if_splits)

theorem create_needs_ASTGTM2_witness:
  "\<not> isl (turtle_datum_create ''/data/ASTGTM2'' 4 None None True)
   \<and> basename ''/data/ASTGTM2'' = ''ASTGTM2''
   \<and> basename ''/data/ASTGTM2/'' \<noteq> ''ASTGTM2''
   \<and> turtle_datum_create ''/data/ASTGTM2/'' 4 None None False
       = Inl TURTLE_RETURN_BAD_FORMAT"
  using create_needs_ASTGTM2 [of "''/data/ASTGTM2''" 4 None None True]
    create_needs_ASTGTM2 [of "''/data/ASTGTM2/''" 4 None None False]
  by (simp add: basename_def turtle_datum_create_def format_str_def)

text \<open>
  The claim as written fails when only the unlock callback is given: the base name
  \<^verbatim>\<open>data\<close> is rejected with \<^verbatim>\<open>BadAddress\<close>, not with \<^verbatim>\<open>BadFormat\<close>.
\<close>

theorem create_bad_basename_counterexample:
  "basename ''data'' \<noteq> ''ASTGTM2''
   \<and> turtle_datum_create ''data'' 4 None (Some always_ok) True
       = Inl TURTLE_RETURN_BAD_ADDRESS"
  by (simp add: basename_def turtle_datum_create_def)

section \<open>Special cases of the geodetic coordinates\<close>

text \<open>
  The last steps of \<^verbatim>\<open>turtle_datum_geodetic\<close> are one iteration of Bowring's method:
  \<open>cu\<close> and \<open>su\<close> are the cosine and the sine of the parametric latitude
  \<open>u = arctan tu\<close>, \<open>cp\<close> and \<open>sp\<close> those of the geodetic latitude \<open>arctan tp\<close>.
\<close>

lemma bowring_trigonometric:
  "bowring a e b eb2 p e2 =
     (let r = sqrt (p * p + e2 * e2);
          u = arctan (b * e2 * (1 + eb2 * b / r) / (a * p));
          phi = arctan ((e2 + eb2 * b * sin u ^ 3) / (p - e * e * a * cos u ^ 3))
      in (phi * 180 / pi,
          p * cos phi + e2 * sin phi - a * sqrt (1 - e * e * (sin phi)\<^sup>2)))"
proof -
  define tu where "tu = b * e2 * (1 + eb2 * b / sqrt (p * p + e2 * e2)) / (a * p)"
  define cu where "cu = 1 / sqrt (1 + tu * tu)"
  define tp where "tp = (e2 + eb2 * b * (cu * tu) * (cu * tu) * (cu * tu))
                          / (p - e * e * a * cu * cu * cu)"
  define cp where "cp = 1 / sqrt (1 + tp * tp)"
  have su: "sin (arctan tu) = cu * tu" and cu: "cos (arctan tu) = cu"
    by (simp_all add: sin_arctan cos_arctan cu_def power2_eq_square)
  have sp: "sin (arctan tp) = cp * tp" and cp: "cos (arctan tp) = cp"
    by (simp_all add: sin_arctan cos_arctan cp_def power2_eq_square)
  have code: "bowring a e b eb2 p e2 =
                (arctan tp * 180 / pi,
                 p * cp + e2 * (cp * tp) - a * sqrt (1 - e * e * (cp * tp) * (cp * tp)))"
    unfolding bowring_def Let_def tu_def cu_def tp_def cp_def by (rule refl)
  have tp': "(e2 + eb2 * b * sin (arctan tu) ^ 3) / (p - e * e * a * cos (arctan tu) ^ 3) = tp"
    unfolding su cu tp_def by (simp add: power3_eq_cube mult.assoc)
  show ?thesis
    unfolding code Let_def tu_def [symmetric] tp' sp cp
    by (simp add: power2_eq_square mult.assoc)
qed

text \<open>
  C9. With \<open>a\<close> and \<open>e\<close> the parameters of the ellipsoid of the datum,
  \<open>b = sqrt (a\<^sup>2 (1 - e\<^sup>2))\<close> the polar radius and \<open>e'\<^sup>2 = e\<^sup>2 a\<^sup>2 / b\<^sup>2\<close> the second
  eccentricity squared: on the axis (\<open>x = y = 0\<close>) the latitude is 90 or -90 with
  the sign of \<open>z\<close>, the longitude 0 and the elevation \<open>\<bar>z\<bar> - b\<close>; off the axis with
  \<open>z = 0\<close> the latitude is 0 and the elevation \<open>sqrt (x\<^sup>2 + y\<^sup>2) - a\<close>; everywhere
  else the result is that of one iteration of Bowring's method: with
  \<open>p = sqrt (x\<^sup>2 + y\<^sup>2)\<close>, \<open>r = sqrt (x\<^sup>2 + y\<^sup>2 + z\<^sup>2)\<close> and the parametric latitude
  \<open>u = arctan (b z (1 + e'\<^sup>2 b / r) / (a p))\<close>, the latitude is
  \<open>\<phi> = arctan ((z + e'\<^sup>2 b sin\<^sup>3 u) / (p - e\<^sup>2 a cos\<^sup>3 u))\<close>, in degrees, and the elevation
  \<open>p cos \<phi> + z sin \<phi> - a sqrt (1 - e\<^sup>2 sin\<^sup>2 \<phi>)\<close>; the longitude is \<open>atan2 y x\<close>, in
  degrees.
\<close>

theorem geodetic_special_cases:
  assumes "get_ellipsoid (format d) = Inr (a, e)"
  shows "turtle_datum_geodetic d (0, 0, e2) =
           Inr (if 0 \<le> e2 then 90 else - 90, 0, \<bar>e2\<bar> - sqrt (a * a * (1 - e * e)))
       \<and> (e0 \<noteq> 0 \<or> e1 \<noteq> 0 \<longrightarrow>
            turtle_datum_geodetic d (e0, e1, 0) =
              Inr (0, atan2 e1 e0 * 180 / pi, sqrt (e0 * e0 + e1 * e1) - a))
       \<and> ((e0 \<noteq> 0 \<or> e1 \<noteq> 0) \<and> e2 \<noteq> 0 \<longrightarrow>
            turtle_datum_geodetic d (e0, e1, e2) =
              (let b = sqrt (a * a * (1 - e * e));
                   eb2 = e * e * a * a / (a * a * (1 - e * e));
                   p = sqrt (e0 * e0 + e1 * e1);
                   r = sqrt (e0 * e0 + e1 * e1 + e2 * e2);
                   u = arctan (b * e2 * (1 + eb2 * b / r) / (a * p));
                   phi = arctan ((e2 + eb2 * b * sin u ^ 3) / (p - e * e * a * cos u ^ 3))
               in Inr (phi * 180 / pi,
                       atan2 e1 e0 * 180 / pi,
                       p * cos phi + e2 * sin phi - a * sqrt (1 - e * e * (sin phi)\<^sup>2))))"
proof -
  have p2: "sqrt (e0 * e0 + e1 * e1) * sqrt (e0 * e0 + e1 * e1) = e0 * e0 + e1 * e1"
    by simp
  show ?thesis
    using assms
    by (auto simp: turtle_datum_geodetic_def bowring_trigonometric p2 Let_def
             split: prod.splits)
qed

theorem geodetic_special_cases_witness:
  "get_ellipsoid (format empty_datum) = Inr (6378137, 0.081819190842622)
   \<and> turtle_datum_geodetic empty_datum (0, 0, - 7000000) =
       Inr (- 90, 0, 7000000 - sqrt (6378137 * 6378137
                                       * (1 - 0.081819190842622 * 0.081819190842622)))
   \<and> turtle_datum_geodetic empty_datum (3, 4, 0) =
       Inr (0, atan2 4 3 * 180 / pi, 5 - 6378137)
   \<and> turtle_datum_geodetic empty_datum (3, 4, 1) =
       (let a = 6378137;
            e = 0.081819190842622;
            b = sqrt (a * a * (1 - e * e));
            eb2 = e * e * a * a / (a * a * (1 - e * e));
            u = arctan (b * 1 * (1 + eb2 * b / sqrt 26) / (a * 5));
            phi = arctan ((1 + eb2 * b * sin u ^ 3) / (5 - e * e * a * cos u ^ 3))
        in Inr (phi * 180 / pi,
                atan2 4 3 * 180 / pi,
                5 * cos phi + 1 * sin phi - a * sqrt (1 - e * e * (sin phi)\<^sup>2)))"
  using geodetic_special_cases [of empty_datum 6378137 "0.081819190842622" "- 7000000" 3 4]
    geodetic_special_cases [of empty_datum 6378137 "0.081819190842622" 1 3 4]
  by (simp add: get_ellipsoid_def empty_datum_def Let_def)
section \<open>Unfolding the sample states\<close>

lemmas sample_defs = tile_A_def client_A_def world_A_def world_underflow_def empty_datum_def
  unlock_broken_def always_ok_def always_fails_def no_files_def two_files_def tile_B_def
  empty_raster_file_def client_0_def world_two_def world_three_def world_shared_def

lemmas release_defs = client_release_def client_at_def tile_at_def release_count_def
  release_unlock_def poke_clients_def set_client_def lock_fails_def unlock_fails_def
  datum_tile_destroy_def


section \<open>Facts about the tile list and the callbacks\<close>

lemma tile_at_SomeD: "tile_at ts a = Some t \<Longrightarrow> t \<in> set ts \<and> addr t = a"
  unfolding tile_at_def by (induction ts) (auto split: if_splits)

lemma tile_at_set_clients:
  "tile_at (set_clients ts a n) b =
     map_option (\<lambda>t. if addr t = a then t\<lparr>clients := n\<rparr> else t) (tile_at ts b)"
  by (induction ts) (simp_all add: tile_at_def set_clients_def)

lemma set_unlink_subset: "set (unlink ts a) \<subseteq> set ts"
  by (induction ts) auto

lemma set_clients_simps [simp]:
  "set_clients [] a n = []"
  "set_clients (t # ts) a n =
     (if addr t = a then t\<lparr>clients := n\<rparr> else t) # set_clients ts a n"
  by (simp_all add: set_clients_def)

lemma clients_set_clients:
  assumes "t \<in> set (set_clients ts a n)" and "addr t = a"
  shows "clients t = n"
proof -
  from assms(1) obtain u where u: "t = (if addr u = a then u\<lparr>clients := n\<rparr> else u)"
    unfolding set_clients_def set_map image_def by blast
  show ?thesis
  proof (cases "addr u = a")
    case True
    with u show ?thesis by simp
  next
    case False
    with u assms(2) show ?thesis by simp
  qed
qed

lemma fst_lock_fails:
  "fst (lock_fails w) = (case lock (datum w) of None \<Rightarrow> False | Some f \<Rightarrow> f (lock_calls w) \<noteq> 0)"
  by (simp add: lock_fails_def split: option.splits)

lemma fst_unlock_fails:
  "fst (unlock_fails w) =
     (case unlock (datum w) of None \<Rightarrow> False | Some f \<Rightarrow> f (unlock_calls w) \<noteq> 0)"
  by (simp add: unlock_fails_def split: option.splits)

lemma fst_unlock_fails_cong:
  "unlock (datum w') = unlock (datum w) \<Longrightarrow> unlock_calls w' = unlock_calls w \<Longrightarrow>
     fst (unlock_fails w') = fst (unlock_fails w)"
  by (simp add: unlock_fails_def split: option.splits)

lemma snd_lock_fails [simp]:
  "datum (snd (lock_fails w)) = datum w" "handles (snd (lock_fails w)) = handles w"
  "unlock_calls (snd (lock_fails w)) = unlock_calls w"
  by (simp_all add: lock_fails_def split: option.splits)

lemma snd_unlock_fails [simp]:
  "datum (snd (unlock_fails w)) = datum w" "handles (snd (unlock_fails w)) = handles w"
  "lock_calls (snd (unlock_fails w)) = lock_calls w"
  by (simp_all add: unlock_fails_def split: option.splits)

lemma release_unlock_simps:
  "fst (release_unlock w lk rc) =
     (if lk \<and> fst (unlock_fails w) then TURTLE_RETURN_UNLOCK_ERROR else rc)"
  "datum (snd (release_unlock w lk rc)) = datum w"
  "handles (snd (release_unlock w lk rc)) = handles w"
  by (cases "unlock (datum w)"; simp add: release_unlock_def unlock_fails_def)+



lemma release_count_stack_subset:
  "set (stack (datum (snd (release_count w a t))))
     \<subseteq> set (set_clients (stack (datum w)) a
               (if clients t - 1 < 0 then 0 else clients t - 1))"
proof (cases "clients t - 1 < 0")
  case True
  then show ?thesis by (simp add: release_count_def poke_clients_def)
next
  case False
  have "set (unlink ts a) \<subseteq> set ts" for ts
    by (rule set_unlink_subset)
  with False show ?thesis
    by (simp add: release_count_def poke_clients_def Let_def datum_tile_destroy_def)
qed

lemma release_count_underflow:
  "clients t - 1 < 0 \<Longrightarrow>
     release_count w a t = (TURTLE_RETURN_LIBRARY_ERROR, poke_clients w a 0)"
  by (simp add: release_count_def)

lemma release_count_fields:
  "fst (release_count w a t) =
     (if clients t - 1 < 0 then TURTLE_RETURN_LIBRARY_ERROR else TURTLE_RETURN_SUCCESS)"
  "handles (snd (release_count w a t)) = handles w"
  "lock_calls (snd (release_count w a t)) = lock_calls w"
  "unlock_calls (snd (release_count w a t)) = unlock_calls w"
  "unlock (datum (snd (release_count w a t))) = unlock (datum w)"
  "lock (datum (snd (release_count w a t))) = lock (datum w)"
  "max_size (datum (snd (release_count w a t))) = max_size (datum w)"
  by (simp_all add: release_count_def poke_clients_def Let_def datum_tile_destroy_def)


lemma client_release_pinned:
  assumes "client_at w i = Some c" and "tile c = Some a"
    and "tile_at (stack (datum w)) a = Some t"
    and "lk \<longrightarrow> \<not> fst (lock_fails w)"
  shows "client_release w i lk =
           Some (release_unlock
                   (snd (release_count
                           (set_client (if lk then snd (lock_fails w) else w) i
                              (c\<lparr>tile := None\<rparr>)) a t))
                   lk
                   (if clients t - 1 < 0 then TURTLE_RETURN_LIBRARY_ERROR
                    else TURTLE_RETURN_SUCCESS))"
proof -
  define w1 where "w1 = (if lk then snd (lock_fails w) else w)"
  have d: "datum w1 = datum w"
    by (simp add: w1_def)
  have lf: "(if lk then lock_fails w else (False, w)) = (False, w1)"
    using assms(4) by (simp add: w1_def prod_eq_iff)
  define r where "r = release_count (set_client w1 i (c\<lparr>tile := None\<rparr>)) a t"
  have "client_release w i lk = Some (release_unlock (snd r) lk (fst r))"
    using assms(1-3)
    by (simp add: client_release_def lf d r_def [symmetric] split: prod.splits)
  then show ?thesis
    by (simp add: r_def release_count_fields w1_def)
qed

section \<open>Releasing a tile with a count that would go negative\<close>

text \<open>
  C8, as the code has it. \<^verbatim>\<open>client_release\<close> on a client that pins the tile \<open>t\<close> at
  \<open>a\<close>, once its lock (if it was asked to lock) is taken, always returns. If the
  decrement would make the count negative, the count is written back as 0, the tile
  stays in the list and the code is \<^verbatim>\<open>LibraryError\<close>; otherwise the code is success
  and the count, where the tile is still in the list, is the old one less one, not
  negative. In both cases a release that was asked to lock and whose unlock callback
  fails returns \<^verbatim>\<open>UnlockError\<close> instead.
\<close>

theorem client_release_underflow:
  assumes "client_at w i = Some c" and "tile c = Some a"
    and "tile_at (stack (datum w)) a = Some t"
    and "lk \<longrightarrow> \<not> fst (lock_fails w)"
  shows "\<exists>rc w'. client_release w i lk = Some (rc, w')
           \<and> rc = (if lk \<and> fst (unlock_fails w) then TURTLE_RETURN_UNLOCK_ERROR
                   else if clients t - 1 < 0 then TURTLE_RETURN_LIBRARY_ERROR
                   else TURTLE_RETURN_SUCCESS)
           \<and> (clients t - 1 < 0 \<longrightarrow>
                tile_at (stack (datum w')) a = Some (t\<lparr>clients := 0\<rparr>))
           \<and> (0 \<le> clients t - 1 \<longrightarrow>
                (\<forall>t'. tile_at (stack (datum w')) a = Some t' \<longrightarrow>
                   clients t' = clients t - 1 \<and> 0 \<le> clients t'))"
proof -
  define w2 where
    "w2 = set_client (if lk then snd (lock_fails w) else w) i (c\<lparr>tile := None\<rparr>)"
  define w3 where "w3 = snd (release_count w2 a t)"
  define rc where
    "rc = (if clients t - 1 < 0 then TURTLE_RETURN_LIBRARY_ERROR else TURTLE_RETURN_SUCCESS)"
  have w2: "datum w2 = datum w" "unlock_calls w2 = unlock_calls w"
    by (simp_all add: w2_def set_client_def)
  have r: "client_release w i lk = Some (release_unlock w3 lk rc)"
    using client_release_pinned [OF assms] by (simp add: w3_def w2_def rc_def)
  have u: "fst (unlock_fails w3) = fst (unlock_fails w)"
    by (rule fst_unlock_fails_cong) (simp_all add: w3_def release_count_fields w2)
  have under: "tile_at (stack (datum w3)) a = Some (t\<lparr>clients := 0\<rparr>)"
    if "clients t - 1 < 0"
    using that assms(3) tile_at_SomeD [OF assms(3)]
    by (simp add: w3_def release_count_underflow poke_clients_def w2 tile_at_set_clients)
  have over: "clients t' = clients t - 1"
    if "0 \<le> clients t - 1" and "tile_at (stack (datum w3)) a = Some t'" for t'
  proof -
    have "t' \<in> set (stack (datum w3))" and "addr t' = a"
      using tile_at_SomeD [OF that(2)] by simp_all
    moreover have "set (stack (datum w3)) \<subseteq> set (set_clients (stack (datum w)) a (clients t - 1))"
      using release_count_stack_subset [of w2 a t] that(1) by (simp add: w3_def w2)
    ultimately show ?thesis
      using clients_set_clients by blast
  qed
  show ?thesis
  proof (intro exI conjI)
    show "client_release w i lk
            = Some (fst (release_unlock w3 lk rc), snd (release_unlock w3 lk rc))"
      by (simp add: r)
    show "fst (release_unlock w3 lk rc) =
            (if lk \<and> fst (unlock_fails w) then TURTLE_RETURN_UNLOCK_ERROR
             else if clients t - 1 < 0 then TURTLE_RETURN_LIBRARY_ERROR
             else TURTLE_RETURN_SUCCESS)"
      by (simp add: release_unlock_simps u rc_def)
    show "clients t - 1 < 0 \<longrightarrow>
            tile_at (stack (datum (snd (release_unlock w3 lk rc)))) a
              = Some (t\<lparr>clients := 0\<rparr>)"
      using under by (simp add: release_unlock_simps)
    show "0 \<le> clients t - 1 \<longrightarrow>
            (\<forall>t'. tile_at (stack (datum (snd (release_unlock w3 lk rc)))) a = Some t' \<longrightarrow>
               clients t' = clients t - 1 \<and> 0 \<le> clients t')"
      using over by (simp add: release_unlock_simps)
  qed
qed

theorem client_release_underflow_witness:
  "client_release world_underflow 0 False
     = Some (TURTLE_RETURN_LIBRARY_ERROR,
             world_underflow\<lparr>handles := [Some (client_A\<lparr>tile := None\<rparr>)]\<rparr>)
   \<and> client_release world_A 0 True
     = Some (TURTLE_RETURN_SUCCESS,
             (poke_clients world_A 1 0)\<lparr>handles := [Some (client_A\<lparr>tile := None\<rparr>)],
                lock_calls := 1, unlock_calls := 1\<rparr>)"
  using client_release_underflow [of world_underflow 0 client_A 1 "tile_A\<lparr>clients := 0\<rparr>" False]
    client_release_underflow [of world_A 0 client_A 1 tile_A True]
  by (simp add: sample_defs release_defs)


text \<open>
  The claim as written fails for a release that locks when the unlock callback fails:
  the count of the tile would go negative, it is written back as 0, and the code
  returned is \<^verbatim>\<open>UnlockError\<close>, not \<^verbatim>\<open>LibraryError\<close>.
\<close>

theorem client_release_underflow_counterexample:
  "tile_at (stack (datum (unlock_broken world_underflow))) 1 = Some (tile_A\<lparr>clients := 0\<rparr>)
   \<and> client_release (unlock_broken world_underflow) 0 True
     = Some (TURTLE_RETURN_UNLOCK_ERROR,
             (unlock_broken world_underflow)\<lparr>handles := [Some (client_A\<lparr>tile := None\<rparr>)],
                lock_calls := 1, unlock_calls := 1\<rparr>)"
  by (simp add: sample_defs release_defs)
section \<open>Interpolation inside the grid\<close>

lemma c_int_floor:
  "0 \<le> h \<Longrightarrow> \<lfloor>h\<rfloor> \<le> INT_MAX \<Longrightarrow> c_int h = Some \<lfloor>h\<rfloor>"
  by (simp add: c_int_def trunc_real_def INT_MIN_def Let_def)

lemma grid_index:
  fixes ix iy n m :: int
  assumes "0 \<le> ix" "ix < n" "0 \<le> iy" "iy < m"
  shows "0 \<le> iy * n + ix \<and> iy * n + ix < n * m"
proof -
  have "iy * n + ix < iy * n + n"
    using assms by simp
  also have "\<dots> = (iy + 1) * n"
    by (simp add: algebra_simps)
  also have "\<dots> \<le> m * n"
    using assms by (intro mult_right_mono) simp_all
  finally have "iy * n + ix < n * m"
    by (simp add: mult.commute)
  moreover have "0 \<le> iy * n"
    using assms by simp
  ultimately show ?thesis
    using assms by simp
qed

lemma zm_node:
  assumes "grid_tile t" "0 \<le> ix" "ix < nx t" "0 \<le> iy" "iy < ny t"
  shows "zm t ix iy = Some (node t ix iy)"
  using assms grid_index [of ix "nx t" iy "ny t"]
  by (simp add: zm_def node_def grid_tile_def Let_def)

lemma interpolate_inside:
  assumes g: "grid_tile t"
    and hx: "0 \<le> hx" "hx < real_of_int (nx t)"
    and hy: "0 \<le> hy" "hy < real_of_int (ny t)"
  shows "interpolate t hx hy = Some (bilinear_spec t hx hy)"
proof -
  define ix where "ix = \<lfloor>hx\<rfloor>"
  define iy where "iy = \<lfloor>hy\<rfloor>"
  have ix: "0 \<le> ix" "ix < nx t"
    using hx by (simp_all add: ix_def floor_less_iff)
  have iy: "0 \<le> iy" "iy < ny t"
    using hy by (simp_all add: iy_def floor_less_iff)
  have cx: "c_int hx = Some ix" and cy: "c_int hy = Some iy"
    using g hx(1) hy(1) ix iy
    by (simp_all add: c_int_floor ix_def iy_def grid_tile_def)
  define ix1 where "ix1 = (if ix \<ge> nx t - 1 then nx t - 1 else ix + 1)"
  define iy1 where "iy1 = (if iy \<ge> ny t - 1 then ny t - 1 else iy + 1)"
  have ix1: "0 \<le> ix1" "ix1 < nx t" and iy1: "0 \<le> iy1" "iy1 < ny t"
    using ix iy by (simp_all add: ix1_def iy1_def)
  have z: "zm t ix iy = Some (node t ix iy)" "zm t ix iy1 = Some (node t ix iy1)"
    "zm t ix1 iy = Some (node t ix1 iy)" "zm t ix1 iy1 = Some (node t ix1 iy1)"
    using g ix iy ix1 iy1 by (simp_all add: zm_node)
  have s1: "clamp \<lfloor>hx\<rfloor> 0 (nx t - 1) = ix" "clamp \<lfloor>hy\<rfloor> 0 (ny t - 1) = iy"
    using ix iy by (simp_all add: clamp_def ix_def iy_def)
  have s2: "min (ix + 1) (nx t - 1) = ix1" "min (iy + 1) (ny t - 1) = iy1"
    using ix iy by (simp_all add: ix1_def iy1_def)
  have "interpolate t hx hy =
          Some (node t ix iy * (1 - (hx - real_of_int ix)) * (1 - (hy - real_of_int iy))
                + node t ix iy1 * (1 - (hx - real_of_int ix)) * (hy - real_of_int iy)
                + node t ix1 iy * (hx - real_of_int ix) * (1 - (hy - real_of_int iy))
                + node t ix1 iy1 * (hx - real_of_int ix) * (hy - real_of_int iy))"
    using ix iy z
    by (cases "ix \<ge> nx t - 1"; cases "iy \<ge> ny t - 1")
       (simp_all add: interpolate_def cx cy Let_def ix1_def iy1_def)
  also have "\<dots> = Some (bilinear_spec t hx hy)"
    by (simp add: bilinear_spec_def Let_def s1 s2)
  finally show ?thesis .
qed

lemma interpolate_node:
  assumes "grid_tile t" "0 \<le> ix" "ix < nx t" "0 \<le> iy" "iy < ny t"
  shows "interpolate t (real_of_int ix) (real_of_int iy) = Some (node t ix iy)"
proof -
  have "interpolate t (real_of_int ix) (real_of_int iy)
          = Some (bilinear_spec t (real_of_int ix) (real_of_int iy))"
    using assms by (intro interpolate_inside) simp_all
  moreover have "bilinear_spec t (real_of_int ix) (real_of_int iy) = node t ix iy"
    using assms by (simp add: bilinear_spec_def clamp_def Let_def)
  ultimately show ?thesis by simp
qed

section \<open>Interpolation on the upper edge\<close>

lemmas elevation_defs = turtle_client_elevation_def client_interpolate_def client_locked_def
  client_load_def client_update_def client_unlock_def client_search_def inside0_def
  in_tile_def tile_hxy_def hcoord_def interpolate_hxy_def
  TURTLE_ERROR_MISSING_DATA_def TURTLE_ERROR_LOCK_def TURTLE_ERROR_UNLOCK_def
  TURTLE_ERROR_UNEXPECTED_def

lemmas interpolate_defs = interpolate_def zm_def c_int_def trunc_real_def INT_MIN_def
  INT_MAX_def

lemmas datum_elevation_defs = turtle_datum_elevation_def outside_top_def coordinate_out_def
  datum_interpolate_def datum_load_and_interpolate_def

text \<open>
  C5 at the upper edge of a tile. The tile of the samples has two columns and three
  rows, at latitude 45 and longitude 3. The point at latitude 45 and longitude 5 has
  \<open>hx = 2 = nx\<close> and \<open>hy = 0\<close>: both tests of the footprint accept it, the column
  index is 2 and not 1, and the value returned is 30, the sample of the node
  \<open>(0, 1)\<close>, where the formula of the specification gives 20, the sample of the node
  \<open>(1, 0)\<close>. At latitude 46.5, where \<open>hy = 3 = ny\<close> as well, the index is outside the
  array of the samples.
\<close>

theorem interpolate_upper_edge:
  "grid_tile tile_A
   \<and> in_tile tile_A 45 5 \<and> tile_hxy tile_A 45 5 = (Some 2, Some 0)
   \<and> interpolate tile_A 2 0 = Some 30 \<and> bilinear_spec tile_A 2 0 = 20
   \<and> turtle_client_elevation no_files world_A 0 45 5 True
       = Some \<lparr> ret = TURTLE_RETURN_SUCCESS, elevation_out = Some 30, inside_out = Some 1,
                world_out = world_A \<rparr>
   \<and> turtle_datum_elevation no_files (datum world_A) 45 5
       = Some (TURTLE_RETURN_SUCCESS, Some 30, datum world_A)
   \<and> in_tile tile_A (93 / 2) 5 \<and> tile_hxy tile_A (93 / 2) 5 = (Some 2, Some 3)
   \<and> interpolate tile_A 2 3 = None
   \<and> turtle_client_elevation no_files world_A 0 (93 / 2) 5 True = None
   \<and> turtle_datum_elevation no_files (datum world_A) (93 / 2) 5 = None"
proof (intro conjI)
  show "grid_tile tile_A"
    by (simp add: grid_tile_def tile_A_def INT_MAX_def)
  show "in_tile tile_A 45 5" and "tile_hxy tile_A 45 5 = (Some 2, Some 0)"
    and "in_tile tile_A (93 / 2) 5" and "tile_hxy tile_A (93 / 2) 5 = (Some 2, Some 3)"
    by (simp_all add: in_tile_def tile_hxy_def hcoord_def tile_A_def)
  show "interpolate tile_A 2 0 = Some 30" and "interpolate tile_A 2 3 = None"
    by (simp_all add: interpolate_defs tile_A_def)
  show "bilinear_spec tile_A 2 0 = 20"
    by (simp add: bilinear_spec_def clamp_def node_def tile_A_def)
  show "turtle_client_elevation no_files world_A 0 45 5 True
          = Some \<lparr> ret = TURTLE_RETURN_SUCCESS, elevation_out = Some 30,
                   inside_out = Some 1, world_out = world_A \<rparr>"
    by (simp add: elevation_defs interpolate_defs sample_defs release_defs)
  show "turtle_client_elevation no_files world_A 0 (93 / 2) 5 True = None"
    by (simp add: elevation_defs interpolate_defs sample_defs release_defs)
  show "turtle_datum_elevation no_files (datum world_A) 45 5
          = Some (TURTLE_RETURN_SUCCESS, Some 30, datum world_A)"
    by (simp add: datum_elevation_defs elevation_defs interpolate_defs sample_defs)
  show "turtle_datum_elevation no_files (datum world_A) (93 / 2) 5 = None"
    by (simp add: datum_elevation_defs elevation_defs interpolate_defs sample_defs)
qed
section \<open>The loader\<close>

lemma decimal_digit: "n < 10 \<Longrightarrow> decimal n = [digit n]"
  by (subst decimal.simps) simp

lemma decimal_two: "10 \<le> n \<Longrightarrow> n < 100 \<Longrightarrow> decimal n = [digit (n div 10), digit (n mod 10)]"
  by (subst decimal.simps) (simp add: decimal_digit)

lemma decimal_three:
  assumes "100 \<le> n" and "n < 1000"
  shows "decimal n = [digit (n div 100), digit (n div 10 mod 10), digit (n mod 10)]"
proof -
  have "10 \<le> n div 10" and "n div 10 < 100"
    using assms by simp_all
  then have "decimal (n div 10) = [digit (n div 10 div 10), digit (n div 10 mod 10)]"
    by (rule decimal_two)
  moreover have "n div 10 div 10 = n div 100"
    by (simp add: div_mult2_eq [symmetric])
  moreover have "decimal n = decimal (n div 10) @ [digit (n mod 10)]"
    using assms by (subst decimal.simps) simp
  ultimately show ?thesis
    by simp
qed

lemma digit_0: "digit 0 = CHR ''0''"
  by (simp add: digit_def)

lemma printf_02d:
  "n < 100 \<Longrightarrow> printf_0d 2 n = [digit (n div 10), digit (n mod 10)]"
  by (cases "n < 10") (simp_all add: printf_0d_def decimal_digit decimal_two digit_0)

lemma printf_03d:
  "n < 1000 \<Longrightarrow>
     printf_0d 3 n = [digit (n div 100), digit (n div 10 mod 10), digit (n mod 10)]"
proof -
  assume n: "n < 1000"
  consider "n < 10" | "10 \<le> n" "n < 100" | "100 \<le> n"
    by linarith
  then show ?thesis
  proof cases
    case 1
    then show ?thesis
      by (simp add: printf_0d_def decimal_digit digit_0 numeral_3_eq_3)
  next
    case 2
    then show ?thesis
      by (simp add: printf_0d_def decimal_two digit_0)
  next
    case 3
    with n show ?thesis
      by (simp add: printf_0d_def decimal_three)
  qed
qed

lemma gdem2_name_pattern:
  assumes "\<bar>latitude\<bar> \<le> 89" and "\<bar>longitude\<bar> \<le> 180"
  shows "gdem2_name latitude longitude \<bar>latitude\<bar> \<bar>longitude\<bar> =
           ''ASTGTM2_'' @ [if 0 \<le> latitude then CHR ''N'' else CHR ''S'']
             @ [digit (nat \<bar>latitude\<bar> div 10), digit (nat \<bar>latitude\<bar> mod 10)]
             @ [if 0 \<le> longitude then CHR ''E'' else CHR ''W'']
             @ [digit (nat \<bar>longitude\<bar> div 100), digit (nat \<bar>longitude\<bar> div 10 mod 10),
                digit (nat \<bar>longitude\<bar> mod 10)]
             @ ''_dem.tif''"
proof -
  have "nat \<bar>latitude\<bar> < 100" and "nat \<bar>longitude\<bar> < 1000"
    using assms by simp_all
  then show ?thesis
    by (simp add: gdem2_name_def printf_02d printf_03d)
qed

lemma load_gdem2_Inl: "load_gdem2 env p = Inl rc \<Longrightarrow> rc \<noteq> TURTLE_RETURN_SUCCESS"
  by (auto simp: load_gdem2_def split: option.splits)

lemma load_gdem2_Inr:
  assumes "load_gdem2 env p = Inr t"
  shows "\<exists>reader a zs. files env p = Some reader \<and> malloc_tile env = Some a
           \<and> samples reader = Some zs
           \<and> t = \<lparr> addr = a, clients = 0, nx = sint (width reader),
                    ny = sint (height reader), x0 = 0, y0 = 0, dx = 0, dy = 0, z = zs \<rparr>"
  using assms by (simp add: load_gdem2_def split: option.splits)

lemma datum_tile_load_domain:
  assumes "format d = DATUM_FORMAT_ASTER_GDEM2"
    and "latitude \<noteq> INT_MIN" and "longitude \<noteq> INT_MIN"
    and "\<bar>longitude\<bar> > 180 \<or> \<bar>latitude\<bar> > 89"
  shows "datum_tile_load env d latitude longitude = Some (TURTLE_RETURN_DOMAIN_ERROR, d)"
  using assms by (simp add: datum_tile_load_def c_abs_def)

lemma datum_tile_load_in_domain:
  assumes "format d = DATUM_FORMAT_ASTER_GDEM2"
    and "latitude \<noteq> INT_MIN" and "longitude \<noteq> INT_MIN"
    and "\<bar>longitude\<bar> \<le> 180" and "\<bar>latitude\<bar> \<le> 89"
  shows "datum_tile_load env d latitude longitude =
           (case load_gdem2 env (path d @ gdem2_name latitude longitude \<bar>latitude\<bar> \<bar>longitude\<bar>) of
              Inl rc \<Rightarrow> Some (rc, d)
            | Inr t \<Rightarrow>
                map_option
                  (\<lambda>d1. (TURTLE_RETURN_SUCCESS,
                         d1\<lparr>stack := init_tile t latitude longitude # stack d1,
                            stack_size := stack_size d1 + 1\<rparr>))
                  (if stack_size d \<ge> max_size d then make_room d else Some d))"
  using assms
  by (cases "make_room d")
     (simp_all add: datum_tile_load_def c_abs_def Let_def split: sum.splits)


lemmas load_defs = datum_tile_load_def load_gdem2_def c_abs_def init_tile_def
  make_room_def INT_MIN_def

lemma gdem2_name_samples:
  "gdem2_name 45 3 45 3 = ''ASTGTM2_N45E003_dem.tif''"
  "gdem2_name 46 3 46 3 = ''ASTGTM2_N46E003_dem.tif''"
  "gdem2_name 0 0 0 0 = ''ASTGTM2_N00E000_dem.tif''"
  "gdem2_name (- 1) 0 1 0 = ''ASTGTM2_S01E000_dem.tif''"
  by code_simp+

text \<open>
  C6, as the code has it. For a datum of the format GDEM2 and a pair of \<^verbatim>\<open>int\<close> other
  than \<^verbatim>\<open>INT_MIN\<close>: the loader returns \<^verbatim>\<open>DomainError\<close> and leaves the datum as it
  is when the longitude is beyond 180 or the latitude beyond 89 in absolute value;
  and when it returns success, the file it read is
  \<^verbatim>\<open>ASTGTM2_{N|S}{LL:02}{E|W}{LLL:03}_dem.tif\<close> in the directory of the datum, and the
  new head of the stack is the tile of that file, at the address given by the
  allocation, with no client, the origin at the pair, and the steps \<open>1 / (nx - 1)\<close>
  and \<open>1 / (ny - 1)\<close>, each replaced by 0 when the dimension is not above 1.
\<close>

theorem datum_tile_load_contract:
  assumes fmt: "format d = DATUM_FORMAT_ASTER_GDEM2"
    and la: "latitude \<noteq> INT_MIN" and lo: "longitude \<noteq> INT_MIN"
  shows "(\<bar>longitude\<bar> > 180 \<or> \<bar>latitude\<bar> > 89 \<longrightarrow>
            datum_tile_load env d latitude longitude = Some (TURTLE_RETURN_DOMAIN_ERROR, d))
       \<and> (\<forall>d'. datum_tile_load env d latitude longitude = Some (TURTLE_RETURN_SUCCESS, d') \<longrightarrow>
            (\<exists>reader a zs rest.
               files env
                 (path d @ ''ASTGTM2_'' @ [if 0 \<le> latitude then CHR ''N'' else CHR ''S'']
                    @ [digit (nat \<bar>latitude\<bar> div 10), digit (nat \<bar>latitude\<bar> mod 10)]
                    @ [if 0 \<le> longitude then CHR ''E'' else CHR ''W'']
                    @ [digit (nat \<bar>longitude\<bar> div 100),
                       digit (nat \<bar>longitude\<bar> div 10 mod 10),
                       digit (nat \<bar>longitude\<bar> mod 10)]
                    @ ''_dem.tif'') = Some reader
               \<and> malloc_tile env = Some a \<and> samples reader = Some zs
               \<and> stack d' =
                   \<lparr> addr = a, clients = 0, nx = sint (width reader),
                     ny = sint (height reader), x0 = real_of_int longitude,
                     y0 = real_of_int latitude,
                     dx = (if sint (width reader) > 1
                           then 1 / real_of_int (sint (width reader) - 1) else 0),
                     dy = (if sint (height reader) > 1
                           then 1 / real_of_int (sint (height reader) - 1) else 0),
                     z = zs \<rparr> # rest))"
proof (intro conjI allI impI)
  assume "\<bar>longitude\<bar> > 180 \<or> \<bar>latitude\<bar> > 89"
  with assms show "datum_tile_load env d latitude longitude
                     = Some (TURTLE_RETURN_DOMAIN_ERROR, d)"
    by (rule datum_tile_load_domain)
next
  fix d'
  assume ok: "datum_tile_load env d latitude longitude = Some (TURTLE_RETURN_SUCCESS, d')"
  have dom: "\<bar>longitude\<bar> \<le> 180" "\<bar>latitude\<bar> \<le> 89"
    using ok datum_tile_load_domain [OF assms, of env] by (auto simp: not_less [symmetric])
  define p where "p = path d @ gdem2_name latitude longitude \<bar>latitude\<bar> \<bar>longitude\<bar>"
  note eq = datum_tile_load_in_domain [OF assms dom, of env, folded p_def]
  obtain t where t: "load_gdem2 env p = Inr t"
    using ok load_gdem2_Inl [of env p] unfolding eq by (cases "load_gdem2 env p") auto
  obtain d1 where d': "d' = d1\<lparr>stack := init_tile t latitude longitude # stack d1,
                                 stack_size := stack_size d1 + 1\<rparr>"
    using ok unfolding eq t by auto
  from load_gdem2_Inr [OF t] obtain reader a zs where
    r: "files env p = Some reader" "malloc_tile env = Some a" "samples reader = Some zs"
      "t = \<lparr> addr = a, clients = 0, nx = sint (width reader), ny = sint (height reader),
             x0 = 0, y0 = 0, dx = 0, dy = 0, z = zs \<rparr>"
    by blast
  have "stack d' =
          \<lparr> addr = a, clients = 0, nx = sint (width reader),
            ny = sint (height reader), x0 = real_of_int longitude,
            y0 = real_of_int latitude,
            dx = (if sint (width reader) > 1
                  then 1 / real_of_int (sint (width reader) - 1) else 0),
            dy = (if sint (height reader) > 1
                  then 1 / real_of_int (sint (height reader) - 1) else 0),
            z = zs \<rparr> # stack d1"
    by (simp add: d' r(4) init_tile_def)
  moreover have "files env
                 (path d @ ''ASTGTM2_'' @ [if 0 \<le> latitude then CHR ''N'' else CHR ''S'']
                    @ [digit (nat \<bar>latitude\<bar> div 10), digit (nat \<bar>latitude\<bar> mod 10)]
                    @ [if 0 \<le> longitude then CHR ''E'' else CHR ''W'']
                    @ [digit (nat \<bar>longitude\<bar> div 100),
                       digit (nat \<bar>longitude\<bar> div 10 mod 10),
                       digit (nat \<bar>longitude\<bar> mod 10)]
                    @ ''_dem.tif'') = Some reader"
    using r(1) gdem2_name_pattern [OF dom(2) dom(1)] by (simp add: p_def)
  ultimately show "\<exists>reader a zs rest.
               files env
                 (path d @ ''ASTGTM2_'' @ [if 0 \<le> latitude then CHR ''N'' else CHR ''S'']
                    @ [digit (nat \<bar>latitude\<bar> div 10), digit (nat \<bar>latitude\<bar> mod 10)]
                    @ [if 0 \<le> longitude then CHR ''E'' else CHR ''W'']
                    @ [digit (nat \<bar>longitude\<bar> div 100),
                       digit (nat \<bar>longitude\<bar> div 10 mod 10),
                       digit (nat \<bar>longitude\<bar> mod 10)]
                    @ ''_dem.tif'') = Some reader
               \<and> malloc_tile env = Some a \<and> samples reader = Some zs
               \<and> stack d' =
                   \<lparr> addr = a, clients = 0, nx = sint (width reader),
                     ny = sint (height reader), x0 = real_of_int longitude,
                     y0 = real_of_int latitude,
                     dx = (if sint (width reader) > 1
                           then 1 / real_of_int (sint (width reader) - 1) else 0),
                     dy = (if sint (height reader) > 1
                           then 1 / real_of_int (sint (height reader) - 1) else 0),
                     z = zs \<rparr> # rest"
    using r(2,3) by blast
qed

theorem datum_tile_load_contract_witness:
  "datum_tile_load two_files empty_datum 90 3 = Some (TURTLE_RETURN_DOMAIN_ERROR, empty_datum)
   \<and> datum_tile_load two_files empty_datum 46 3
       = Some (TURTLE_RETURN_SUCCESS, empty_datum\<lparr>stack := [tile_B], stack_size := 1\<rparr>)"
  using datum_tile_load_contract [of empty_datum 90 3 two_files]
    datum_tile_load_contract [of empty_datum 46 3 two_files]
  by (simp add: load_defs sample_defs gdem2_name_samples)


text \<open>
  The claim as written fails for a raster without columns: the load succeeds, and the
  step \<open>dx\<close> is 0, where \<open>1 / (nx - 1)\<close> is \<open>-1\<close>.
\<close>

theorem datum_tile_load_counterexample:
  "datum_tile_load empty_raster_file empty_datum 45 3
     = Some (TURTLE_RETURN_SUCCESS,
             empty_datum\<lparr>stack := [\<lparr> addr = 2, clients = 0, nx = 0, ny = 3, x0 = 3, y0 = 45,
                                     dx = 0, dy = 1 / 2, z = [] \<rparr>],
                          stack_size := 1\<rparr>)
   \<and> (0 :: real) \<noteq> 1 / (0 - 1)"
  by (simp add: load_defs sample_defs gdem2_name_samples)

section \<open>What the scans remove\<close>

lemma addr_inj_on_stack:
  "distinct (map addr S) \<Longrightarrow> t \<in> set S \<Longrightarrow> u \<in> set S \<Longrightarrow> addr t = addr u \<Longrightarrow> t = u"
  by (meson distinct_map inj_onD)

lemma unlink_filter:
  "distinct (map addr S) \<Longrightarrow> t \<in> set S \<Longrightarrow> unlink S (addr t) = filter (\<lambda>u. u \<noteq> t) S"
proof (induction S)
  case Nil
  then show ?case by simp
next
  case (Cons u S)
  show ?case
  proof (cases "addr u = addr t")
    case True
    have "u = t"
      using addr_inj_on_stack [OF Cons.prems(1) _ Cons.prems(2) True] by simp
    moreover have "t \<notin> set S"
      using Cons.prems(1) \<open>u = t\<close> by (auto simp: distinct_map)
    then have "filter (\<lambda>u. u \<noteq> t) S = S"
      by (auto simp: filter_id_conv)
    ultimately show ?thesis
      by simp
  next
    case False
    then have "u \<noteq> t" by auto
    with Cons False show ?thesis by simp
  qed
qed


lemma distinct_addr_filter:
  "distinct (map addr S) \<Longrightarrow> distinct (map addr (filter P S))"
  by (simp add: distinct_map_filter)

lemma datum_tile_destroy_filter:
  assumes "distinct (map addr (stack d))" and "t \<in> set (stack d)"
  shows "datum_tile_destroy d (addr t) =
           d\<lparr>stack := filter (\<lambda>u. u \<noteq> t) (stack d), stack_size := stack_size d - 1\<rparr>"
  using assms by (simp add: datum_tile_destroy_def unlink_filter)

lemma evict_scan_char:
  assumes "distinct (map addr (stack d))" and "set ts \<subseteq> set (stack d)" and "distinct ts"
  shows "\<exists>R. R \<subseteq> {t \<in> set ts. clients t = 0}
           \<and> evict_scan d ts =
               d\<lparr>stack := filter (\<lambda>t. t \<notin> R) (stack d),
                 stack_size := stack_size d - int (card R)\<rparr>
           \<and> (stack_size d - int (card R) < max_size d
                \<or> R = {t \<in> set ts. clients t = 0})"
  using assms
proof (induction ts arbitrary: d)
  case Nil
  have "evict_scan d [] = d\<lparr>stack := filter (\<lambda>t. t \<notin> {}) (stack d),
                            stack_size := stack_size d - int (card ({} :: datum_tile set))\<rparr>"
    by simp
  then show ?case
    by (intro exI [of _ "{}"]) simp
next
  case (Cons c rest)
  have c_in: "c \<in> set (stack d)" and rest_in: "set rest \<subseteq> set (stack d)"
    and c_notin: "c \<notin> set rest" and rest_d: "distinct rest"
    using Cons.prems by simp_all
  show ?case
  proof (cases "stack_size d \<ge> max_size d")
    case False
    have "evict_scan d (c # rest) =
            d\<lparr>stack := filter (\<lambda>t. t \<notin> {}) (stack d),
              stack_size := stack_size d - int (card ({} :: datum_tile set))\<rparr>"
      using False by simp
    then show ?thesis
      using False by (intro exI [of _ "{}"]) simp
  next
    case big: True
    show ?thesis
    proof (cases "clients c = 0")
      case False
      have e: "evict_scan d (c # rest) = evict_scan d rest"
        using big False by simp
      from Cons.IH [OF Cons.prems(1) rest_in rest_d] obtain R where
        R: "R \<subseteq> {t \<in> set rest. clients t = 0}"
           "evict_scan d rest = d\<lparr>stack := filter (\<lambda>t. t \<notin> R) (stack d),
                                  stack_size := stack_size d - int (card R)\<rparr>"
           "stack_size d - int (card R) < max_size d \<or> R = {t \<in> set rest. clients t = 0}"
        by blast
      have "{t \<in> set (c # rest). clients t = 0} = {t \<in> set rest. clients t = 0}"
        using False by auto
      with R e show ?thesis
        by (intro exI [of _ R]) auto
    next
      case True
      define d1 where "d1 = datum_tile_destroy d (addr c)"
      have d1: "d1 = d\<lparr>stack := filter (\<lambda>u. u \<noteq> c) (stack d),
                       stack_size := stack_size d - 1\<rparr>"
        unfolding d1_def by (rule datum_tile_destroy_filter [OF Cons.prems(1) c_in])
      have e: "evict_scan d (c # rest) = evict_scan d1 rest"
        using big True by (simp add: d1_def)
      have p1: "distinct (map addr (stack d1))"
        using Cons.prems(1) by (simp add: d1 distinct_addr_filter)
      have p2: "set rest \<subseteq> set (stack d1)"
        using rest_in c_notin by (auto simp: d1)
      from Cons.IH [OF p1 p2 rest_d] obtain R where
        R: "R \<subseteq> {t \<in> set rest. clients t = 0}"
           "evict_scan d1 rest = d1\<lparr>stack := filter (\<lambda>t. t \<notin> R) (stack d1),
                                   stack_size := stack_size d1 - int (card R)\<rparr>"
           "stack_size d1 - int (card R) < max_size d1
              \<or> R = {t \<in> set rest. clients t = 0}"
        by blast
      have fin: "finite R" and cR: "c \<notin> R"
        using R(1) c_notin by (auto intro: finite_subset [of _ "set rest"])
      have card: "int (card (insert c R)) = 1 + int (card R)"
        using fin cR by simp
      have flt: "filter (\<lambda>t. t \<notin> R) (filter (\<lambda>u. u \<noteq> c) (stack d))
                   = filter (\<lambda>t. t \<notin> insert c R) (stack d)"
        by (simp add: conj_commute)
      have sets: "{t \<in> set (c # rest). clients t = 0}
                    = insert c {t \<in> set rest. clients t = 0}"
        using True by auto
      have 1: "insert c R \<subseteq> {t \<in> set (c # rest). clients t = 0}"
        using R(1) unfolding sets by blast
      have 2: "evict_scan d (c # rest) =
                 d\<lparr>stack := filter (\<lambda>t. t \<notin> insert c R) (stack d),
                   stack_size := stack_size d - int (card (insert c R))\<rparr>"
        unfolding e R(2) card by (simp add: d1 flt)
      have 3: "stack_size d - int (card (insert c R)) < max_size d
                 \<or> insert c R = {t \<in> set (c # rest). clients t = 0}"
        using R(3) unfolding sets card by (auto simp: d1)
      from 1 2 3 show ?thesis
        by blast
    qed
  qed
qed

lemma clear_loop_char:
  assumes "distinct (map addr (stack d))" and "set ts \<subseteq> set (stack d)" and "distinct ts"
  shows "clear_loop d ts 0 =
           d\<lparr>stack := filter (\<lambda>t. t \<notin> {t \<in> set ts. clients t = 0}) (stack d),
             stack_size := stack_size d - int (card {t \<in> set ts. clients t = 0})\<rparr>"
  using assms
proof (induction ts arbitrary: d)
  case Nil
  then show ?case by simp
next
  case (Cons c rest)
  have c_in: "c \<in> set (stack d)" and rest_in: "set rest \<subseteq> set (stack d)"
    and c_notin: "c \<notin> set rest" and rest_d: "distinct rest"
    using Cons.prems by simp_all
  show ?case
  proof (cases "clients c = 0")
    case False
    have "{t \<in> set (c # rest). clients t = 0} = {t \<in> set rest. clients t = 0}"
      using False by auto
    moreover have "clear_loop d (c # rest) 0 = clear_loop d rest 0"
      using False by simp
    ultimately show ?thesis
      using Cons.IH [OF Cons.prems(1) rest_in rest_d] by simp
  next
    case True
    define d1 where "d1 = datum_tile_destroy d (addr c)"
    define Z where "Z = {t \<in> set rest. clients t = 0}"
    have d1: "d1 = d\<lparr>stack := filter (\<lambda>u. u \<noteq> c) (stack d),
                     stack_size := stack_size d - 1\<rparr>"
      unfolding d1_def by (rule datum_tile_destroy_filter [OF Cons.prems(1) c_in])
    have e: "clear_loop d (c # rest) 0 = clear_loop d1 rest 0"
      using True by (simp add: d1_def)
    have p1: "distinct (map addr (stack d1))"
      using Cons.prems(1) by (simp add: d1 distinct_addr_filter)
    have p2: "set rest \<subseteq> set (stack d1)"
      using rest_in c_notin by (auto simp: d1)
    have fin: "finite Z" and cZ: "c \<notin> Z"
      using c_notin by (auto simp: Z_def)
    have card: "int (card (insert c Z)) = 1 + int (card Z)"
      using fin cZ by simp
    have flt: "filter (\<lambda>t. t \<notin> Z) (filter (\<lambda>u. u \<noteq> c) (stack d))
                 = filter (\<lambda>t. t \<notin> insert c Z) (stack d)"
      by (simp add: conj_commute)
    have sets: "{t \<in> set (c # rest). clients t = 0} = insert c Z"
      using True by (auto simp: Z_def)
    have "clear_loop d1 rest 0 =
            d1\<lparr>stack := filter (\<lambda>t. t \<notin> Z) (stack d1),
               stack_size := stack_size d1 - int (card Z)\<rparr>"
      unfolding Z_def by (rule Cons.IH [OF p1 p2 rest_d])
    then show ?thesis
      unfolding e sets card by (simp add: d1 flt)
  qed
qed

section \<open>Pin accounting on the lists\<close>

lemma accounted_world:
  "(well_formed w \<and> pin_accounting w) = accounted (stack (datum w)) (pinned (handles w))"
  by (auto simp: well_formed_def pin_accounting_def accounted_def pins_def)

lemma count_list_update:
  "i < length xs \<Longrightarrow>
     count_list (xs[i := y]) v
       = count_list xs v - (if xs ! i = v then 1 else 0) + (if y = v then 1 else 0)"
proof (induction xs arbitrary: i)
  case Nil
  then show ?case by simp
next
  case (Cons x xs)
  show ?case
  proof (cases i)
    case 0
    then show ?thesis by simp
  next
    case (Suc j)
    with Cons.prems have j: "j < length xs" by simp
    have pos: "xs ! j = v \<Longrightarrow> 0 < count_list xs v"
      using j by (metis count_list_0_iff nth_mem not_gr_zero)
    show ?thesis
      using Cons.IH [OF j] pos by (auto simp: Suc)
  qed
qed

lemma accounted_pinned_in:
  "accounted S H \<Longrightarrow> Some a \<in> set H \<Longrightarrow> a \<in> set (map addr S)"
  by (auto simp: accounted_def)

lemma accounted_unpinned:
  assumes "accounted S H" and "t \<in> set S" and "clients t = 0"
  shows "Some (addr t) \<notin> set H"
proof -
  have "count_list H (Some (addr t)) = 0"
    using assms by (simp add: accounted_def)
  then show ?thesis
    by (simp add: count_list_0_iff)
qed

lemma accounted_filter:
  assumes a: "accounted S H" and r: "R \<subseteq> {t \<in> set S. clients t = 0}"
  shows "accounted (filter (\<lambda>t. t \<notin> R) S) H"
  unfolding accounted_def
proof (intro conjI ballI)
  show "distinct (map addr (filter (\<lambda>t. t \<notin> R) S))"
    using a by (simp add: accounted_def distinct_addr_filter)
next
  show "set H \<subseteq> insert None (set (map (\<lambda>t. Some (addr t)) (filter (\<lambda>t. t \<notin> R) S)))"
  proof
    fix p assume p: "p \<in> set H"
    show "p \<in> insert None (set (map (\<lambda>t. Some (addr t)) (filter (\<lambda>t. t \<notin> R) S)))"
    proof (cases p)
      case None
      then show ?thesis by simp
    next
      case (Some b)
      with p a obtain u where u: "u \<in> set S" "addr u = b"
        using accounted_pinned_in [OF a, of b] by auto
      have "u \<notin> R"
      proof
        assume "u \<in> R"
        with r have "clients u = 0" by auto
        from accounted_unpinned [OF a u(1) this] p Some u(2) show False by simp
      qed
      with u Some show ?thesis by force
    qed
  qed
next
  fix t assume "t \<in> set (filter (\<lambda>t. t \<notin> R) S)"
  then show "clients t = int (count_list H (Some (addr t)))"
    using a by (simp add: accounted_def)
qed

lemma accounted_Cons:
  assumes a: "accounted S H" and f: "addr t \<notin> set (map addr S)" and z: "clients t = 0"
  shows "accounted (t # S) H"
proof -
  have "Some (addr t) \<notin> set H"
    using accounted_pinned_in [OF a] f by blast
  then have "count_list H (Some (addr t)) = 0"
    by (simp add: count_list_0_iff)
  with a f z show ?thesis
    unfolding accounted_def by auto
qed

lemma accounted_permute:
  assumes "accounted S H" and "set S' = set S" and "distinct (map addr S')"
  shows "accounted S' H"
proof -
  show ?thesis
    using assms unfolding accounted_def by simp
qed

lemma in_set_clients:
  assumes "u' \<in> set (set_clients S a n)"
  obtains u where "u \<in> set S" and "u' = (if addr u = a then u\<lparr>clients := n\<rparr> else u)"
  using assms unfolding set_clients_def set_map image_def by blast

lemma map_addr_set_clients [simp]: "map addr (set_clients S a n) = map addr S"
  by (induction S) simp_all

lemma map_Some_addr_set_clients [simp]:
  "map (\<lambda>t. Some (addr t)) (set_clients S a n) = map (\<lambda>t. Some (addr t)) S"
  by (induction S) simp_all

lemma length_set_clients [simp]: "length (set_clients S a n) = length S"
  by (simp add: set_clients_def)

lemma set_update_subset: "set (xs[i := y]) \<subseteq> insert y (set xs)"
  by (rule set_update_subset_insert)

lemma accounted_release:
  assumes a: "accounted S H" and i: "i < length H" and h: "H ! i = Some b"
    and t: "tile_at S b = Some t"
  shows "1 \<le> clients t \<and> accounted (set_clients S b (clients t - 1)) (H[i := None])"
proof
  have tS: "t \<in> set S" and tb: "addr t = b"
    using tile_at_SomeD [OF t] by simp_all
  have d: "distinct (map addr S)"
    using a by (simp add: accounted_def)
  have cnt: "clients t = int (count_list H (Some b))"
    using a tS tb by (auto simp: accounted_def)
  have "Some b \<in> set H"
    using i h by (metis nth_mem)
  then have pos: "0 < count_list H (Some b)"
    by (metis count_list_0_iff not_gr_zero)
  then show "1 \<le> clients t"
    using cnt by simp
  show "accounted (set_clients S b (clients t - 1)) (H[i := None])"
    unfolding accounted_def
  proof (intro conjI ballI)
    show "distinct (map addr (set_clients S b (clients t - 1)))"
      using d by simp
  next
    show "set (H[i := None])
            \<subseteq> insert None (set (map (\<lambda>t. Some (addr t)) (set_clients S b (clients t - 1))))"
      using a set_update_subset [of H i None] by (auto simp: accounted_def)
  next
    fix u' assume "u' \<in> set (set_clients S b (clients t - 1))"
    then obtain u where u: "u \<in> set S"
      and u': "u' = (if addr u = b then u\<lparr>clients := clients t - 1\<rparr> else u)"
      by (rule in_set_clients)
    show "clients u' = int (count_list (H[i := None]) (Some (addr u')))"
    proof (cases "addr u = b")
      case True
      have "count_list (H[i := None]) (Some b) = count_list H (Some b) - 1"
        using i h by (simp add: count_list_update)
      with True u' cnt pos show ?thesis by simp
    next
      case False
      have "count_list (H[i := None]) (Some (addr u)) = count_list H (Some (addr u))"
        using i h False by (simp add: count_list_update)
      moreover have "clients u = int (count_list H (Some (addr u)))"
        using a u by (simp add: accounted_def)
      ultimately show ?thesis
        using False u' by simp
    qed
  qed
qed

lemma accounted_pin:
  assumes a: "accounted S H" and i: "i < length H" and h: "H ! i = None"
    and t: "tile_at S b = Some t"
  shows "accounted (set_clients S b (clients t + 1)) (H[i := Some b])"
proof -
  have tS: "t \<in> set S" and tb: "addr t = b"
    using tile_at_SomeD [OF t] by simp_all
  have d: "distinct (map addr S)"
    using a by (simp add: accounted_def)
  have cnt: "clients t = int (count_list H (Some b))"
    using a tS tb by (auto simp: accounted_def)
  show ?thesis
    unfolding accounted_def
  proof (intro conjI ballI)
    show "distinct (map addr (set_clients S b (clients t + 1)))"
      using d by simp
  next
    have "Some b \<in> set (map (\<lambda>t. Some (addr t)) S)"
      using tS tb by auto
    then show "set (H[i := Some b])
            \<subseteq> insert None (set (map (\<lambda>t. Some (addr t)) (set_clients S b (clients t + 1))))"
      using a set_update_subset [of H i "Some b"] by (auto simp: accounted_def)
  next
    fix u' assume "u' \<in> set (set_clients S b (clients t + 1))"
    then obtain u where u: "u \<in> set S"
      and u': "u' = (if addr u = b then u\<lparr>clients := clients t + 1\<rparr> else u)"
      by (rule in_set_clients)
    show "clients u' = int (count_list (H[i := Some b]) (Some (addr u')))"
    proof (cases "addr u = b")
      case True
      have "count_list (H[i := Some b]) (Some b) = count_list H (Some b) + 1"
        using i h by (simp add: count_list_update)
      with True u' cnt show ?thesis by simp
    next
      case False
      have "count_list (H[i := Some b]) (Some (addr u)) = count_list H (Some (addr u))"
        using i h False by (simp add: count_list_update)
      moreover have "clients u = int (count_list H (Some (addr u)))"
        using a u by (simp add: accounted_def)
      ultimately show ?thesis
        using False u' by simp
    qed
  qed
qed

section \<open>The outcomes of a load\<close>

lemma make_room_char:
  assumes "distinct (map addr (stack d))" and "make_room d = Some d1"
  shows "\<exists>R. R \<subseteq> {t \<in> set (stack d). clients t = 0}
           \<and> d1 = d\<lparr>stack := filter (\<lambda>t. t \<notin> R) (stack d),
                    stack_size := stack_size d - int (card R)\<rparr>
           \<and> (stack_size d - int (card R) < max_size d
                \<or> R = {t \<in> set (stack d). clients t = 0})"
proof -
  have e: "d1 = evict_scan d (rev (stack d))"
    using assms(2) by (simp add: make_room_def split: if_splits)
  have "distinct (stack d)"
    using assms(1) by (simp add: distinct_map)
  then have "distinct (rev (stack d))" and "set (rev (stack d)) \<subseteq> set (stack d)"
    by simp_all
  from evict_scan_char [OF assms(1) this(2) this(1)] show ?thesis
    unfolding e by simp
qed

lemma init_tile_fields [simp]:
  "clients (init_tile t la lo) = 0" "addr (init_tile t la lo) = addr t"
  by (simp_all add: init_tile_def)

lemma datum_tile_load_cases:
  assumes l: "datum_tile_load env d la lo = Some (rc, d')"
    and dist: "distinct (map addr (stack d))"
  obtains (error) "rc \<noteq> TURTLE_RETURN_SUCCESS" and "d' = d"
  | (loaded) t R where "rc = TURTLE_RETURN_SUCCESS"
      and "R \<subseteq> {u \<in> set (stack d). clients u = 0}"
      and "d' = d\<lparr>stack := t # filter (\<lambda>u. u \<notin> R) (stack d),
                    stack_size := stack_size d - int (card R) + 1\<rparr>"
      and "clients t = 0" and "malloc_tile env = Some (addr t)"
      and "stack_size d - int (card R) < max_size d
             \<or> R = {u \<in> set (stack d). clients u = 0}"
proof (cases "format d = DATUM_FORMAT_ASTER_GDEM2")
  case False
  with l have "rc = TURTLE_RETURN_BAD_FORMAT" and "d' = d"
    by (simp_all add: datum_tile_load_def)
  then show thesis
    by (intro error) simp_all
next
  case fmt: True
  from l fmt obtain absL absl where a: "c_abs la = Some absL" "c_abs lo = Some absl"
    by (auto simp: datum_tile_load_def split: Option.bind_splits)
  show thesis
  proof (cases "absl > 180 \<or> absL > 89")
    case True
    with l fmt a have "rc = TURTLE_RETURN_DOMAIN_ERROR" and "d' = d"
      by (simp_all add: datum_tile_load_def)
    then show thesis
      by (intro error) simp_all
  next
    case dom: False
    define p where "p = path d @ gdem2_name la lo absL absl"
    have eq: "datum_tile_load env d la lo =
                (case load_gdem2 env p of
                   Inl rc \<Rightarrow> Some (rc, d)
                 | Inr t \<Rightarrow>
                     map_option
                       (\<lambda>d1. (TURTLE_RETURN_SUCCESS,
                              d1\<lparr>stack := init_tile t la lo # stack d1,
                                 stack_size := stack_size d1 + 1\<rparr>))
                       (if stack_size d \<ge> max_size d then make_room d else Some d))"
      using fmt a dom
      by (cases "make_room d")
         (simp_all add: datum_tile_load_def Let_def p_def split: sum.splits)
    show thesis
    proof (cases "load_gdem2 env p")
      case (Inl e)
      with l eq have "rc = e" and "d' = d"
        by simp_all
      with load_gdem2_Inl [OF Inl] show thesis
        by (intro error) simp_all
    next
      case (Inr t0)
      define t where "t = init_tile t0 la lo"
      from load_gdem2_Inr [OF Inr] have m: "malloc_tile env = Some (addr t)"
        by (auto simp: t_def)
      from l eq Inr obtain d1 where
        d1: "(if stack_size d \<ge> max_size d then make_room d else Some d) = Some d1"
        and res: "rc = TURTLE_RETURN_SUCCESS"
          "d' = d1\<lparr>stack := t # stack d1, stack_size := stack_size d1 + 1\<rparr>"
        by (auto simp: t_def)
      show thesis
      proof (cases "stack_size d \<ge> max_size d")
        case True
        with d1 have "make_room d = Some d1" by simp
        from make_room_char [OF dist this] obtain R where
          R: "R \<subseteq> {t \<in> set (stack d). clients t = 0}"
            "d1 = d\<lparr>stack := filter (\<lambda>t. t \<notin> R) (stack d),
                     stack_size := stack_size d - int (card R)\<rparr>"
            "stack_size d - int (card R) < max_size d
               \<or> R = {t \<in> set (stack d). clients t = 0}"
          by blast
        show thesis
          by (rule loaded [where t = t and R = R]) (simp_all add: res R m t_def)
      next
        case False
        with d1 have "d1 = d" by simp
        show thesis
          using False
          by (intro loaded [where t = t and R = "{}"]) (simp_all add: res \<open>d1 = d\<close> m t_def)
      qed
    qed
  qed
qed

section \<open>The stack after a cleaning and after a load\<close>

lemma zero_count_filter:
  "filter (\<lambda>t. t \<notin> {t \<in> set S. clients t = 0}) S = filter (\<lambda>t. clients t \<noteq> 0) S"
  by (rule filter_cong) auto

lemma zero_count_card:
  "distinct S \<Longrightarrow> card {t \<in> set S. clients t = 0} = length (filter (\<lambda>t. clients t = 0) S)"
  by (metis distinct_card distinct_filter set_filter)

lemma datum_clear_soft:
  assumes "distinct (map addr (stack d))"
  shows "datum_clear d 0 =
           d\<lparr>stack := filter (\<lambda>t. clients t \<noteq> 0) (stack d),
             stack_size := stack_size d
               - int (length (filter (\<lambda>t. clients t = 0) (stack d)))\<rparr>"
proof -
  have ds: "distinct (stack d)"
    using assms by (simp add: distinct_map)
  from clear_loop_char [OF assms subset_refl ds] show ?thesis
    unfolding datum_clear_def zero_count_filter zero_count_card [OF ds] .
qed

lemma turtle_datum_clear_datum:
  "datum (snd (turtle_datum_clear w)) =
     (if fst (lock_fails w) then datum w else datum_clear (datum w) 0)"
proof -
  obtain f w1 where l: "lock_fails w = (f, w1)"
    by (cases "lock_fails w")
  have d1: "datum w1 = datum w"
    using snd_lock_fails(1) [of w] by (simp add: l)
  obtain g w2 where u: "unlock_fails (w1\<lparr>datum := datum_clear (datum w) 0\<rparr>) = (g, w2)"
    by (cases "unlock_fails (w1\<lparr>datum := datum_clear (datum w) 0\<rparr>)")
  have d2: "datum w2 = datum_clear (datum w) 0"
    using snd_unlock_fails(1) [of "w1\<lparr>datum := datum_clear (datum w) 0\<rparr>"] by (simp add: u)
  show ?thesis
    by (simp add: turtle_datum_clear_def l d1 u d2)
qed




lemma unlink_keeps: "u \<in> set S \<Longrightarrow> addr u \<noteq> a \<Longrightarrow> u \<in> set (unlink S a)"
  by (induction S) auto

lemma evict_scan_all_pinned: "\<forall>t \<in> set ts. clients t \<noteq> 0 \<Longrightarrow> evict_scan d ts = d"
  by (induction ts arbitrary: d) simp_all

lemma datum_tile_load_keeps:
  assumes "datum_tile_load env d la lo = Some (rc, d')"
    and "distinct (map addr (stack d))" and "t \<in> set (stack d)" and "clients t \<noteq> 0"
  shows "t \<in> set (stack d')"
  using assms(1,2)
proof (cases rule: datum_tile_load_cases)
  case error
  with assms(3) show ?thesis by simp
next
  case (loaded t0 R)
  from loaded(2) assms(4) have "t \<notin> R" by auto
  with assms(3) show ?thesis by (simp add: loaded(3))
qed


section \<open>The outcomes of a release\<close>

lemma release_count_datum:
  "stack (datum (snd (release_count w a t))) =
     (if 0 < clients t - 1 then set_clients (stack (datum w)) a (clients t - 1)
      else if clients t - 1 = 0 \<and> stack_size (datum w) > max_size (datum w)
      then unlink (set_clients (stack (datum w)) a 0) a
      else set_clients (stack (datum w)) a 0)"
  "stack_size (datum (snd (release_count w a t))) =
     (if clients t - 1 = 0 \<and> stack_size (datum w) > max_size (datum w)
      then stack_size (datum w) - 1 else stack_size (datum w))"
  by (simp_all add: release_count_def poke_clients_def Let_def datum_tile_destroy_def)

lemma client_at_SomeD:
  "client_at w i = Some c \<Longrightarrow> i < length (handles w) \<and> handles w ! i = Some c"
  by (simp add: client_at_def split: if_splits)

lemma client_release_cases:
  assumes r: "client_release w i lk = Some (rc, w')"
  obtains (unpinned) c where "client_at w i = Some c" and "tile c = None"
      and "w' = w" and "rc = TURTLE_RETURN_SUCCESS"
  | (lock_error) c a where "client_at w i = Some c" and "tile c = Some a"
      and "lk" and "fst (lock_fails w)" and "w' = snd (lock_fails w)"
      and "rc = TURTLE_RETURN_LOCK_ERROR"
  | (released) c a t where "client_at w i = Some c" and "tile c = Some a"
      and "lk \<longrightarrow> \<not> fst (lock_fails w)"
      and "tile_at (stack (datum w)) a = Some t"
      and "handles w' = (handles w)[i := Some (c\<lparr>tile := None\<rparr>)]"
      and "stack (datum w') =
             (if 0 < clients t - 1 then set_clients (stack (datum w)) a (clients t - 1)
              else if clients t - 1 = 0 \<and> stack_size (datum w) > max_size (datum w)
              then unlink (set_clients (stack (datum w)) a 0) a
              else set_clients (stack (datum w)) a 0)"
      and "stack_size (datum w') =
             (if clients t - 1 = 0 \<and> stack_size (datum w) > max_size (datum w)
              then stack_size (datum w) - 1 else stack_size (datum w))"
      and "max_size (datum w') = max_size (datum w)"
      and "lock (datum w') = lock (datum w)" and "unlock (datum w') = unlock (datum w)"
      and "rc = (if lk \<and> fst (unlock_fails w) then TURTLE_RETURN_UNLOCK_ERROR
                 else if clients t - 1 < 0 then TURTLE_RETURN_LIBRARY_ERROR
                 else TURTLE_RETURN_SUCCESS)"
proof -
  from r obtain c where c: "client_at w i = Some c"
    by (auto simp: client_release_def split: Option.bind_splits)
  show thesis
  proof (cases "tile c")
    case None
    with r c have "w' = w" and "rc = TURTLE_RETURN_SUCCESS"
      by (simp_all add: client_release_def)
    with c None show thesis by (rule unpinned)
  next
    case (Some a)
    show thesis
    proof (cases "lk \<and> fst (lock_fails w)")
      case True
      then have "(if lk then lock_fails w else (False, w)) = (True, snd (lock_fails w))"
        by (simp add: prod_eq_iff)
      with r c Some have "w' = snd (lock_fails w)" and "rc = TURTLE_RETURN_LOCK_ERROR"
        by (simp_all add: client_release_def)
      with c Some True show thesis by (intro lock_error) simp_all
    next
      case False
      then have ok: "lk \<longrightarrow> \<not> fst (lock_fails w)" by simp
      define w1 where "w1 = (if lk then snd (lock_fails w) else w)"
      have w1: "datum w1 = datum w" "handles w1 = handles w"
        "unlock_calls w1 = unlock_calls w"
        by (simp_all add: w1_def)
      have lf: "(if lk then lock_fails w else (False, w)) = (False, w1)"
        using False by (simp add: w1_def prod_eq_iff)
      from r c Some obtain t where t: "tile_at (stack (datum w)) a = Some t"
        by (auto simp: client_release_def lf w1 split: Option.bind_splits)
      define w2 where "w2 = set_client w1 i (c\<lparr>tile := None\<rparr>)"
      have w2: "datum w2 = datum w" "handles w2 = (handles w)[i := Some (c\<lparr>tile := None\<rparr>)]"
        "unlock_calls w2 = unlock_calls w"
        by (simp_all add: w2_def set_client_def w1)
      define w3 where "w3 = snd (release_count w2 a t)"
      have res: "client_release w i lk
                   = Some (release_unlock w3 lk
                             (if clients t - 1 < 0 then TURTLE_RETURN_LIBRARY_ERROR
                              else TURTLE_RETURN_SUCCESS))"
        using client_release_pinned [OF c Some t ok]
        by (simp add: w3_def w2_def w1_def)
      have u: "fst (unlock_fails w3) = fst (unlock_fails w)"
        by (rule fst_unlock_fails_cong) (simp_all add: w3_def release_count_fields w2)
      have w': "w' = snd (release_unlock w3 lk
                             (if clients t - 1 < 0 then TURTLE_RETURN_LIBRARY_ERROR
                              else TURTLE_RETURN_SUCCESS))"
        and rc: "rc = fst (release_unlock w3 lk
                             (if clients t - 1 < 0 then TURTLE_RETURN_LIBRARY_ERROR
                              else TURTLE_RETURN_SUCCESS))"
        using r unfolding res by simp_all
      show thesis
      proof (rule released [OF c Some ok t])
        show "handles w' = (handles w)[i := Some (c\<lparr>tile := None\<rparr>)]"
          by (simp add: w' release_unlock_simps w3_def release_count_fields w2)
        show "stack (datum w') =
             (if 0 < clients t - 1 then set_clients (stack (datum w)) a (clients t - 1)
              else if clients t - 1 = 0 \<and> stack_size (datum w) > max_size (datum w)
              then unlink (set_clients (stack (datum w)) a 0) a
              else set_clients (stack (datum w)) a 0)"
          by (simp add: w' release_unlock_simps w3_def release_count_datum w2)
        show "stack_size (datum w') =
             (if clients t - 1 = 0 \<and> stack_size (datum w) > max_size (datum w)
              then stack_size (datum w) - 1 else stack_size (datum w))"
          by (simp add: w' release_unlock_simps w3_def release_count_datum w2)
        show "max_size (datum w') = max_size (datum w)"
          by (simp add: w' release_unlock_simps w3_def release_count_fields w2)
        show "lock (datum w') = lock (datum w)"
          by (simp add: w' release_unlock_simps w3_def release_count_fields w2)
        show "unlock (datum w') = unlock (datum w)"
          by (simp add: w' release_unlock_simps w3_def release_count_fields w2)
        show "rc = (if lk \<and> fst (unlock_fails w) then TURTLE_RETURN_UNLOCK_ERROR
                 else if clients t - 1 < 0 then TURTLE_RETURN_LIBRARY_ERROR
                 else TURTLE_RETURN_SUCCESS)"
          by (simp add: rc release_unlock_simps u)
      qed
    qed
  qed
qed

lemma set_clients_other:
  "u \<in> set S \<Longrightarrow> addr u \<noteq> a \<Longrightarrow> u \<in> set (set_clients S a n)"
  by (induction S) (simp_all, blast)

lemma set_clients_same:
  "u \<in> set S \<Longrightarrow> addr u = a \<Longrightarrow> u\<lparr>clients := n\<rparr> \<in> set (set_clients S a n)"
  by (induction S) (simp_all, blast)


lemma tile_at_None: "a \<notin> set (map addr S) \<Longrightarrow> tile_at S a = None"
  unfolding tile_at_def by (induction S) simp_all

lemma tile_at_distinct:
  "distinct (map addr S) \<Longrightarrow> t \<in> set S \<Longrightarrow> tile_at S (addr t) = Some t"
  unfolding tile_at_def by (induction S) auto



section \<open>What a release preserves\<close>

lemma pinned_update:
  "pinned (hs[i := Some c]) = (pinned hs)[i := tile c]"
  by (simp add: pinned_def map_update)

lemma pinned_nth:
  "client_at w i = Some c \<Longrightarrow>
     i < length (pinned (handles w)) \<and> pinned (handles w) ! i = tile c"
  by (simp add: client_at_def pinned_def split: if_splits)

lemma unlink_zero_filter:
  assumes d: "distinct (map addr S)" and t: "tile_at S a = Some t"
  shows "unlink (set_clients S a 0) a
           = filter (\<lambda>u. u \<notin> {t\<lparr>clients := 0\<rparr>}) (set_clients S a 0)"
proof -
  have t': "tile_at (set_clients S a 0) a = Some (t\<lparr>clients := 0\<rparr>)"
    using t tile_at_SomeD [OF t] by (simp add: tile_at_set_clients)
  have "unlink (set_clients S a 0) (addr (t\<lparr>clients := 0\<rparr>))
          = filter (\<lambda>u. u \<noteq> t\<lparr>clients := 0\<rparr>) (set_clients S a 0)"
    using d tile_at_SomeD [OF t'] by (intro unlink_filter) simp_all
  then show ?thesis
    using tile_at_SomeD [OF t] by simp
qed

lemma client_release_accounted:
  assumes a: "accounted (stack (datum w)) (pinned (handles w))"
    and r: "client_release w i lk = Some (rc, w')"
  shows "accounted (stack (datum w')) (pinned (handles w'))"
  using r
proof (cases rule: client_release_cases)
  case (unpinned c)
  with a show ?thesis by simp
next
  case (lock_error c b)
  with a show ?thesis by simp
next
  case (released c b t)
  define S where "S = stack (datum w)"
  define H where "H = pinned (handles w)"
  have i: "i < length H" and h: "H ! i = Some b"
    using pinned_nth [OF released(1)] released(2) by (simp_all add: H_def)
  have H': "pinned (handles w') = H[i := None]"
    by (simp add: released(5) pinned_update H_def)
  from accounted_release [OF a [folded S_def H_def] i h released(4) [folded S_def]]
  have pos: "1 \<le> clients t"
    and acc: "accounted (set_clients S b (clients t - 1)) (H[i := None])"
    by simp_all
  have d: "distinct (map addr S)"
    using a by (simp add: accounted_def S_def)
  show ?thesis
  proof (cases "0 < clients t - 1")
    case True
    with acc show ?thesis
      by (simp add: H' released(6) S_def)
  next
    case False
    with pos have one: "clients t - 1 = 0" by simp
    have t': "t\<lparr>clients := 0\<rparr> \<in> set (set_clients S b 0)"
      using tile_at_SomeD [OF released(4)] by (simp add: set_clients_same S_def)
    show ?thesis
    proof (cases "stack_size (datum w) > max_size (datum w)")
      case True
      have "accounted (filter (\<lambda>u. u \<notin> {t\<lparr>clients := 0\<rparr>}) (set_clients S b 0)) (H[i := None])"
        using acc t' unfolding one by (intro accounted_filter) simp_all
      then show ?thesis
        using True one
        by (simp add: H' released(6) S_def [symmetric]
              unlink_zero_filter [OF d released(4) [folded S_def]])
    next
      case False
      with acc one show ?thesis
        by (simp add: H' released(6) S_def)
    qed
  qed
qed

lemma unlink_removes:
  "distinct (map addr S) \<Longrightarrow> a \<notin> set (map addr (unlink S a))"
  by (induction S) auto

lemma client_release_exact:
  assumes r: "client_release w i lk = Some (rc, w')"
    and d: "distinct (map addr (stack (datum w)))"
    and t: "t \<in> set (stack (datum w))" and p: "0 < clients t"
  shows "(map_option tile (client_at w i) \<noteq> Some (Some (addr t))
            \<or> lk \<and> fst (lock_fails w) \<longrightarrow>
            t \<in> set (stack (datum w')))
       \<and> (map_option tile (client_at w i) = Some (Some (addr t))
            \<and> \<not> (lk \<and> fst (lock_fails w))
            \<and> (1 < clients t \<or> stack_size (datum w) \<le> max_size (datum w)) \<longrightarrow>
            t\<lparr>clients := clients t - 1\<rparr> \<in> set (stack (datum w')))
       \<and> (map_option tile (client_at w i) = Some (Some (addr t))
            \<and> \<not> (lk \<and> fst (lock_fails w))
            \<and> clients t = 1 \<and> max_size (datum w) < stack_size (datum w) \<longrightarrow>
            addr t \<notin> set (map addr (stack (datum w'))))"
  using r
proof (cases rule: client_release_cases)
  case (unpinned c)
  with t show ?thesis by simp
next
  case (lock_error c b)
  with t show ?thesis by simp
next
  case (released c b t0)
  have pin: "map_option tile (client_at w i) = Some (Some b)"
    and ok: "\<not> (lk \<and> fst (lock_fails w))"
    using released(1,2,3) by simp_all
  show ?thesis
  proof (cases "addr t = b")
    case False
    have "t \<in> set (set_clients (stack (datum w)) b n)" for n
      using t False by (rule set_clients_other)
    then have "t \<in> set (stack (datum w'))"
      using False by (simp add: released(6) unlink_keeps)
    moreover have "map_option tile (client_at w i) \<noteq> Some (Some (addr t))"
      unfolding pin using False by simp
    ultimately show ?thesis by blast
  next
    case True
    have t0: "t0 = t"
      using addr_inj_on_stack [OF d _ t] tile_at_SomeD [OF released(4)] True by simp
    have same: "t\<lparr>clients := n\<rparr> \<in> set (set_clients (stack (datum w)) b n)" for n
      using t True by (rule set_clients_same)
    have kept: "t\<lparr>clients := clients t - 1\<rparr> \<in> set (stack (datum w'))"
      if "1 < clients t \<or> stack_size (datum w) \<le> max_size (datum w)"
    proof (cases "1 < clients t")
      case True
      then show ?thesis
        using same [of "clients t - 1"] by (simp add: released(6) t0)
    next
      case False
      with p have one: "clients t = 1" by simp
      with that have "stack_size (datum w) \<le> max_size (datum w)" by simp
      then show ?thesis
        using same [of 0] one by (simp add: released(6) t0)
    qed
    have freed: "addr t \<notin> set (map addr (stack (datum w')))"
      if "clients t = 1" and "max_size (datum w) < stack_size (datum w)"
    proof -
      have "stack (datum w') = unlink (set_clients (stack (datum w)) b 0) b"
        using that by (simp add: released(6) t0)
      moreover have "distinct (map addr (set_clients (stack (datum w)) b 0))"
        using d by simp
      ultimately show ?thesis
        using unlink_removes [of "set_clients (stack (datum w)) b 0" b] True by simp
    qed
    have "map_option tile (client_at w i) = Some (Some (addr t))"
      unfolding pin using True by simp
    with kept freed ok show ?thesis
      by blast
  qed
qed


lemma client_release_returns:
  assumes a: "accounted (stack (datum w)) (pinned (handles w))"
    and c: "client_at w i = Some c"
  shows "\<exists>rc w'. client_release w i lk = Some (rc, w')"
proof (cases "tile c")
  case None
  with c show ?thesis by (simp add: client_release_def)
next
  case (Some b)
  have "Some b \<in> set (pinned (handles w))"
    using pinned_nth [OF c] Some by (metis nth_mem)
  from accounted_pinned_in [OF a this] obtain t where t: "t \<in> set (stack (datum w))" "addr t = b"
    by auto
  have d: "distinct (map addr (stack (datum w)))"
    using a by (simp add: accounted_def)
  have tb: "tile_at (stack (datum w)) b = Some t"
    using tile_at_distinct [OF d t(1)] t(2) by simp
  show ?thesis
  proof (cases "lk \<and> fst (lock_fails w)")
    case True
    then have "(if lk then lock_fails w else (False, w)) = (True, snd (lock_fails w))"
      by (simp add: prod_eq_iff)
    with c Some show ?thesis
      by (simp add: client_release_def)
  next
    case False
    then have "lk \<longrightarrow> \<not> fst (lock_fails w)" by simp
    from client_release_pinned [OF c Some tb this] show ?thesis
      by (metis surj_pair)
  qed
qed

section \<open>The steps of an elevation query\<close>

lemma datum_tile_touch_fields [simp]:
  "stack_size (datum_tile_touch d a) = stack_size d"
  "max_size (datum_tile_touch d a) = max_size d"
  "lock (datum_tile_touch d a) = lock d"
  "unlock (datum_tile_touch d a) = unlock d"
  "format (datum_tile_touch d a) = format d"
  "path (datum_tile_touch d a) = path d"
  by (simp_all add: datum_tile_touch_def split: list.splits option.splits)

lemma datum_tile_touch_stack:
  assumes d: "distinct (map addr (stack d))"
  shows "set (stack (datum_tile_touch d a)) = set (stack d)
       \<and> distinct (map addr (stack (datum_tile_touch d a)))"
proof (cases "stack d")
  case Nil
  then show ?thesis by (simp add: datum_tile_touch_def)
next
  case (Cons h rest)
  show ?thesis
  proof (cases "addr h = a")
    case True
    with Cons d show ?thesis by (simp add: datum_tile_touch_def)
  next
    case False
    show ?thesis
    proof (cases "tile_at rest a")
      case None
      with Cons False d show ?thesis by (simp add: datum_tile_touch_def)
    next
      case (Some t)
      have dr: "distinct (map addr rest)" and hr: "addr h \<notin> addr ` set rest"
        using d Cons by simp_all
      have t: "t \<in> set rest" "addr t = a"
        using tile_at_SomeD [OF Some] by simp_all
      have u: "unlink rest a = filter (\<lambda>u. u \<noteq> t) rest"
        using unlink_filter [OF dr t(1)] t(2) by simp
      have s: "stack (datum_tile_touch d a) = t # h # filter (\<lambda>u. u \<noteq> t) rest"
        using Cons False Some by (simp add: datum_tile_touch_def u)
      have "addr t \<notin> addr ` set (filter (\<lambda>u. u \<noteq> t) rest)"
        using addr_inj_on_stack [OF dr t(1)] by auto
      moreover have "distinct (map addr (filter (\<lambda>u. u \<noteq> t) rest))"
        using dr by (rule distinct_addr_filter)
      moreover have "addr h \<notin> addr ` set (filter (\<lambda>u. u \<noteq> t) rest)"
        using hr by auto
      moreover have "addr t \<noteq> addr h"
        using t False by simp
      moreover have "set (t # h # filter (\<lambda>u. u \<noteq> t) rest) = set (h # rest)"
        using t(1) by auto
      ultimately show ?thesis
        unfolding s Cons by simp
    qed
  qed
qed

lemma datum_tile_touch_accounted:
  assumes "accounted (stack d) H"
  shows "accounted (stack (datum_tile_touch d a)) H"
proof -
  have d: "distinct (map addr (stack d))"
    using assms by (simp add: accounted_def)
  from datum_tile_touch_stack [OF d, of a] have "set (stack (datum_tile_touch d a)) = set (stack d)"
    and "distinct (map addr (stack (datum_tile_touch d a)))"
    by simp_all
  with assms show ?thesis
    by (rule accounted_permute)
qed

lemma datum_tile_load_accounted:
  assumes a: "accounted (stack d) H" and f: "fresh env d"
    and l: "datum_tile_load env d la lo = Some (rc, d')"
  shows "accounted (stack d') H"
proof -
  have dist: "distinct (map addr (stack d))"
    using a by (simp add: accounted_def)
  from l dist show ?thesis
  proof (cases rule: datum_tile_load_cases)
    case error
    with a show ?thesis by simp
  next
    case (loaded t R)
    have "accounted (filter (\<lambda>u. u \<notin> R) (stack d)) H"
      using a loaded(2) by (rule accounted_filter)
    moreover have "addr t \<notin> set (map addr (filter (\<lambda>u. u \<notin> R) (stack d)))"
      using f loaded(5) by (auto simp: fresh_def)
    ultimately have "accounted (t # filter (\<lambda>u. u \<notin> R) (stack d)) H"
      using loaded(4) by (rule accounted_Cons)
    then show ?thesis
      by (simp add: loaded(3))
  qed
qed

lemma client_interpolate_world:
  "client_interpolate w i hxy ins = Some r \<Longrightarrow>
     world_out r = w \<and> ret r = TURTLE_RETURN_SUCCESS \<and> elevation_out r \<noteq> None
     \<and> inside_out r = (if ins then Some 1 else None)"
  by (auto simp: client_interpolate_def split: Option.bind_splits)

lemma client_unlock_world:
  assumes "client_unlock w i rc hxy ins = Some r"
  shows "world_out r = snd (unlock_fails w)"
proof -
  obtain f w1 where u: "unlock_fails w = (f, w1)"
    by (cases "unlock_fails w")
  show ?thesis
  proof (cases "f \<or> rc \<noteq> TURTLE_RETURN_SUCCESS")
    case True
    with assms u show ?thesis
      by (auto simp: client_unlock_def split: if_splits)
  next
    case False
    with assms u have "client_interpolate w1 i hxy ins = Some r"
      by (simp add: client_unlock_def)
    from client_interpolate_world [OF this] u show ?thesis by simp
  qed
qed

lemma client_release_nolock_client:
  assumes "client_release w i False = Some (rc, w1)" and "client_at w1 i = Some c1"
  shows "tile c1 = None"
  using assms(1)
proof (cases rule: client_release_cases)
  case (unpinned c)
  with assms(2) show ?thesis by simp
next
  case (lock_error c a)
  then show ?thesis by simp
next
  case (released c a t)
  have "i < length (handles w)"
    using client_at_SomeD [OF released(1)] by simp
  with assms(2) show ?thesis
    by (auto simp: client_at_def released(5) split: if_splits)
qed

lemma accounted_unlock:
  "accounted (stack (datum w)) (pinned (handles w)) \<Longrightarrow>
     client_unlock w i rc hxy ins = Some r \<Longrightarrow>
     accounted (stack (datum (world_out r))) (pinned (handles (world_out r)))"
  by (simp add: client_unlock_world)

lemma client_update_accounted:
  assumes a: "accounted (stack (datum w)) (pinned (handles w))"
    and u: "client_update w i b hxy ins = Some r"
  shows "accounted (stack (datum (world_out r))) (pinned (handles (world_out r)))"
proof -
  from u obtain rc w1 where rel: "client_release w i False = Some (rc, w1)"
    by (auto simp: client_update_def split: Option.bind_splits)
  have a1: "accounted (stack (datum w1)) (pinned (handles w1))"
    using a rel by (rule client_release_accounted)
  show ?thesis
  proof (cases "rc = TURTLE_RETURN_SUCCESS")
    case False
    with u rel have "client_unlock w1 i rc hxy ins = Some r"
      by (simp add: client_update_def)
    with a1 show ?thesis by (rule accounted_unlock)
  next
    case True
    from u rel True obtain current client where
      cur: "tile_at (stack (datum w1)) b = Some current"
      and cl: "client_at w1 i = Some client"
      and un: "client_unlock
                 (set_client (poke_clients w1 b (clients current + 1)) i
                    (client\<lparr>tile := Some b, index_la := INT_MIN, index_lo := INT_MIN\<rparr>))
                 i TURTLE_RETURN_SUCCESS hxy ins = Some r"
      by (auto simp: client_update_def Let_def split: Option.bind_splits)
    have n: "i < length (pinned (handles w1))" "pinned (handles w1) ! i = None"
      using pinned_nth [OF cl] client_release_nolock_client [OF rel cl] by simp_all
    have "accounted (set_clients (stack (datum w1)) b (clients current + 1))
            ((pinned (handles w1))[i := Some b])"
      using a1 n cur by (rule accounted_pin)
    then have "accounted
                 (stack (datum (set_client (poke_clients w1 b (clients current + 1)) i
                    (client\<lparr>tile := Some b, index_la := INT_MIN, index_lo := INT_MIN\<rparr>))))
                 (pinned (handles (set_client (poke_clients w1 b (clients current + 1)) i
                    (client\<lparr>tile := Some b, index_la := INT_MIN, index_lo := INT_MIN\<rparr>))))"
      by (simp add: set_client_def poke_clients_def pinned_update)
    from this un show ?thesis by (rule accounted_unlock)
  qed
qed

lemma client_load_accounted:
  assumes a: "accounted (stack (datum w)) (pinned (handles w))"
    and f: "fresh env (datum w)"
    and l: "client_load env w i latitude longitude ins = Some r"
  shows "accounted (stack (datum (world_out r))) (pinned (handles (world_out r)))"
proof -
  from l obtain la lo rc d where
    ld: "datum_tile_load env (datum w) la lo = Some (rc, d)"
    and la: "c_int latitude = Some la" and lo: "c_int longitude = Some lo"
    by (auto simp: client_load_def split: Option.bind_splits)
  define w1 where "w1 = w\<lparr>datum := d\<rparr>"
  have a1: "accounted (stack (datum w1)) (pinned (handles w1))"
    using datum_tile_load_accounted [OF a f ld] by (simp add: w1_def)
  show ?thesis
  proof (cases "rc = TURTLE_RETURN_SUCCESS")
    case True
    with l ld la lo obtain current rest where
      "client_update w1 i (addr current) (tile_hxy current latitude longitude) ins = Some r"
      by (auto simp: client_load_def w1_def split: list.splits)
    with a1 show ?thesis by (rule client_update_accounted)
  next
    case False
    with l ld la lo obtain rc2 w2 client where
      rel: "client_release w1 i False = Some (rc2, w2)"
      and cl: "client_at w2 i = Some client"
      and un: "client_unlock (set_client w2 i (client\<lparr>index_la := la, index_lo := lo\<rparr>))
                 i rc (None, None) ins = Some r"
      by (auto simp: client_load_def w1_def Let_def split: Option.bind_splits)
    have a2: "accounted (stack (datum w2)) (pinned (handles w2))"
      using a1 rel by (rule client_release_accounted)
    have "pinned ((handles w2)[i := Some (client\<lparr>index_la := la, index_lo := lo\<rparr>)])
            = pinned (handles w2)"
      using pinned_nth [OF cl] by (simp add: pinned_update list_update_same_conv)
    with a2 have "accounted
                    (stack (datum (set_client w2 i (client\<lparr>index_la := la, index_lo := lo\<rparr>))))
                    (pinned (handles
                       (set_client w2 i (client\<lparr>index_la := la, index_lo := lo\<rparr>))))"
      by (simp add: set_client_def)
    from this un show ?thesis by (rule accounted_unlock)
  qed
qed

lemma client_locked_accounted:
  assumes a: "accounted (stack (datum w)) (pinned (handles w))"
    and f: "fresh env (datum w)"
    and l: "client_locked env w i latitude longitude ins = Some r"
  shows "accounted (stack (datum (world_out r))) (pinned (handles (world_out r)))"
proof -
  from l obtain client where cl: "client_at w i = Some client"
    by (auto simp: client_locked_def split: Option.bind_splits)
  obtain failed w1 where lf: "lock_fails w = (failed, w1)"
    by (cases "lock_fails w")
  have w1: "datum w1 = datum w" "handles w1 = handles w"
    using snd_lock_fails(1,2) [of w] by (simp_all add: lf)
  have a1: "accounted (stack (datum w1)) (pinned (handles w1))"
    using a by (simp add: w1)
  show ?thesis
  proof (cases failed)
    case True
    with l cl lf have "world_out r = w1"
      by (auto simp: client_locked_def)
    with a1 show ?thesis by simp
  next
    case False
    show ?thesis
    proof (cases "client_search (stack (datum w)) (tile client) latitude longitude")
      case None
      with l cl lf False have "client_load env w1 i latitude longitude ins = Some r"
        by (simp add: client_locked_def w1)
      moreover have "fresh env (datum w1)"
        using f by (simp add: w1)
      ultimately show ?thesis
        using a1 by (intro client_load_accounted [of w1 env i latitude longitude ins r])
    next
      case (Some current)
      with l cl lf False have
        "client_update (w1\<lparr>datum := datum_tile_touch (datum w1) (addr current)\<rparr>) i
           (addr current) (tile_hxy current latitude longitude) ins = Some r"
        by (simp add: client_locked_def w1)
      moreover have "accounted
                       (stack (datum (w1\<lparr>datum := datum_tile_touch (datum w1) (addr current)\<rparr>)))
                       (pinned (handles
                          (w1\<lparr>datum := datum_tile_touch (datum w1) (addr current)\<rparr>)))"
        using datum_tile_touch_accounted [OF a1, of "addr current"] by simp
      ultimately show ?thesis
        by (rule client_update_accounted [rotated])
    qed
  qed
qed

lemma turtle_client_elevation_accounted:
  assumes a: "accounted (stack (datum w)) (pinned (handles w))"
    and f: "fresh env (datum w)"
    and e: "turtle_client_elevation env w i latitude longitude ins = Some r"
  shows "accounted (stack (datum (world_out r))) (pinned (handles (world_out r)))"
proof -
  from e obtain client where cl: "client_at w i = Some client"
    by (auto simp: turtle_client_elevation_def split: Option.bind_splits)
  have "world_out r = w \<or> client_locked env w i latitude longitude ins = Some r"
  proof (cases "tile client")
    case (Some b)
    with e cl obtain current where cur: "tile_at (stack (datum w)) b = Some current"
      by (auto simp: turtle_client_elevation_def split: Option.bind_splits)
    show ?thesis
    proof (cases "in_tile current latitude longitude")
      case True
      with e cl Some cur have
        "client_interpolate w i (tile_hxy current latitude longitude) ins = Some r"
        by (simp add: turtle_client_elevation_def)
      from client_interpolate_world [OF this] show ?thesis by simp
    next
      case False
      with e cl Some cur show ?thesis
        by (simp add: turtle_client_elevation_def)
    qed
  next
    case None
    with e cl obtain known where
      k: "(if known
           then Some \<lparr> ret = (if ins then TURTLE_RETURN_SUCCESS
                              else TURTLE_ERROR_MISSING_DATA),
                       elevation_out = None, inside_out = inside0 ins, world_out = w \<rparr>
           else client_locked env w i latitude longitude ins) = Some r"
      by (auto simp: turtle_client_elevation_def split: Option.bind_splits)
    show ?thesis
    proof (cases known)
      case True
      with k show ?thesis by auto
    next
      case False
      with k show ?thesis by simp
    qed
  qed
  then show ?thesis
  proof
    assume "world_out r = w"
    with a show ?thesis by simp
  next
    assume "client_locked env w i latitude longitude ins = Some r"
    with a f show ?thesis by (rule client_locked_accounted)
  qed
qed

section \<open>Pin accounting\<close>

lemma pinned_update_None: "pinned (hs[i := None]) = (pinned hs)[i := None]"
  by (simp add: pinned_def map_update)

lemma client_release_unpins:
  assumes "client_release w i lk = Some (rc, w1)" and "rc \<noteq> TURTLE_RETURN_LOCK_ERROR"
  shows "(pinned (handles w1))[i := None] = pinned (handles w1)"
  using assms(1)
proof (cases rule: client_release_cases)
  case (unpinned c)
  with pinned_nth [OF unpinned(1)] show ?thesis
    by (simp add: list_update_same_conv)
next
  case (lock_error c a)
  with assms(2) show ?thesis by simp
next
  case (released c a t)
  show ?thesis
    by (simp add: released(5) pinned_update)
qed

lemma turtle_client_clear_accounted:
  assumes a: "accounted (stack (datum w)) (pinned (handles w))"
    and c: "turtle_client_clear w i = Some (rc, w')"
  shows "accounted (stack (datum w')) (pinned (handles w'))"
proof -
  from c obtain rc0 where "client_release w i True = Some (rc0, w')"
    by (auto simp: turtle_client_clear_def split: Option.bind_splits if_splits)
  with a show ?thesis by (rule client_release_accounted)
qed

lemma turtle_client_destroy_accounted:
  assumes a: "accounted (stack (datum w)) (pinned (handles w))"
    and c: "turtle_client_destroy w i = Some (rc, w')"
  shows "accounted (stack (datum w')) (pinned (handles w'))"
proof (cases "client_at w i")
  case None
  with c a show ?thesis by (simp add: turtle_client_destroy_def)
next
  case (Some client)
  with c obtain rc0 w1 where r: "client_release w i True = Some (rc0, w1)"
    by (auto simp: turtle_client_destroy_def split: Option.bind_splits)
  have a1: "accounted (stack (datum w1)) (pinned (handles w1))"
    using a r by (rule client_release_accounted)
  show ?thesis
  proof (cases "rc0 = TURTLE_RETURN_LOCK_ERROR \<or> rc0 = TURTLE_RETURN_UNLOCK_ERROR")
    case True
    with c Some r have "w' = w1"
      by (auto simp: turtle_client_destroy_def)
    with a1 show ?thesis by simp
  next
    case False
    with c Some r have w': "w' = w1\<lparr>handles := (handles w1)[i := None]\<rparr>"
      by (auto simp: turtle_client_destroy_def)
    have "pinned (handles w') = pinned (handles w1)"
      using client_release_unpins [OF r] False by (simp add: w' pinned_update_None)
    with a1 show ?thesis by (simp add: w')
  qed
qed

lemma client_calls_return:
  assumes a: "accounted (stack (datum w)) (pinned (handles w))"
    and c: "client_at w i = Some c"
  shows "turtle_client_clear w i \<noteq> None" and "turtle_client_destroy w i \<noteq> None"
proof -
  from client_release_returns [OF a c, of True] obtain rc w1 where
    "client_release w i True = Some (rc, w1)"
    by blast
  then show "turtle_client_clear w i \<noteq> None" and "turtle_client_destroy w i \<noteq> None"
    using c by (simp_all add: turtle_client_clear_def turtle_client_destroy_def)
qed

text \<open>
  C1. In a state where the list of tiles is well formed and the count of every tile of
  the stack is the number of clients that pin it, every operation that changes the
  pinned tile of a client leaves a state of the same kind: \<^verbatim>\<open>turtle_client_elevation\<close>
  (given that the allocation returns a block that is not in the stack),
  \<^verbatim>\<open>turtle_client_clear\<close>, \<^verbatim>\<open>turtle_client_destroy\<close> and \<^verbatim>\<open>client_release\<close>, with or without
  its own locking. The last three always return for a handle that is not null.
\<close>

theorem pin_accounting_preserved:
  assumes "well_formed w" and "pin_accounting w"
  shows "(\<forall>r. fresh env (datum w)
              \<and> turtle_client_elevation env w i latitude longitude ins = Some r \<longrightarrow>
              well_formed (world_out r) \<and> pin_accounting (world_out r))
       \<and> (\<forall>rc w'. turtle_client_clear w i = Some (rc, w') \<longrightarrow>
              well_formed w' \<and> pin_accounting w')
       \<and> (\<forall>rc w'. turtle_client_destroy w i = Some (rc, w') \<longrightarrow>
              well_formed w' \<and> pin_accounting w')
       \<and> (\<forall>rc w'. client_release w i lk = Some (rc, w') \<longrightarrow>
              well_formed w' \<and> pin_accounting w')
       \<and> (client_at w i \<noteq> None \<longrightarrow>
              client_release w i lk \<noteq> None \<and> turtle_client_clear w i \<noteq> None
              \<and> turtle_client_destroy w i \<noteq> None)"
proof -
  have a: "accounted (stack (datum w)) (pinned (handles w))"
    using assms by (simp add: accounted_world [symmetric])
  show ?thesis
  proof (intro conjI allI impI)
    fix r
    assume "fresh env (datum w)
            \<and> turtle_client_elevation env w i latitude longitude ins = Some r"
    then have "accounted (stack (datum (world_out r))) (pinned (handles (world_out r)))"
      using turtle_client_elevation_accounted [OF a] by blast
    then show "well_formed (world_out r)" and "pin_accounting (world_out r)"
      by (simp_all add: accounted_world [symmetric])
  next
    fix rc w'
    assume "turtle_client_clear w i = Some (rc, w')"
    from turtle_client_clear_accounted [OF a this]
    show "well_formed w'" and "pin_accounting w'"
      by (simp_all add: accounted_world [symmetric])
  next
    fix rc w'
    assume "turtle_client_destroy w i = Some (rc, w')"
    from turtle_client_destroy_accounted [OF a this]
    show "well_formed w'" and "pin_accounting w'"
      by (simp_all add: accounted_world [symmetric])
  next
    fix rc w'
    assume "client_release w i lk = Some (rc, w')"
    from client_release_accounted [OF a this]
    show "well_formed w'" and "pin_accounting w'"
      by (simp_all add: accounted_world [symmetric])
  next
    assume "client_at w i \<noteq> None"
    then obtain c where c: "client_at w i = Some c" by auto
    from client_release_returns [OF a c, of lk]
    show "client_release w i lk \<noteq> None" by auto
    from client_calls_return [OF a c]
    show "turtle_client_clear w i \<noteq> None" and "turtle_client_destroy w i \<noteq> None"
      by simp_all
  qed
qed

lemmas invariant_defs = well_formed_def pin_accounting_def pins_def pinned_def fresh_def
  sized_def soft_bound_def pinned_tiles_def

lemma world_two_invariant:
  "well_formed world_two \<and> pin_accounting world_two \<and> fresh two_files (datum world_two)"
  by (simp add: invariant_defs sample_defs)

lemma world_two_elevation:
  "turtle_client_elevation two_files world_two 1 (187 / 4) (7 / 2) True
     = Some \<lparr> ret = TURTLE_RETURN_SUCCESS, elevation_out = Some 25, inside_out = Some 1,
              world_out = world_three \<rparr>"
  by (simp add: elevation_defs interpolate_defs load_defs gdem2_name_samples sample_defs
        release_defs)

lemma world_three_clear:
  "turtle_client_clear world_three 0
     = Some (TURTLE_RETURN_SUCCESS,
             world_three\<lparr>datum := empty_datum\<lparr>stack := [tile_B\<lparr>clients := 1\<rparr>],
                                              stack_size := 1\<rparr>,
                          handles := [Some client_0, Some (client_0\<lparr>tile := Some 2\<rparr>)],
                          lock_calls := 2, unlock_calls := 2\<rparr>)"
  by (simp add: turtle_client_clear_def sample_defs release_defs)

lemma world_three_destroy:
  "turtle_client_destroy world_three 1
     = Some (TURTLE_RETURN_SUCCESS,
             world_three\<lparr>datum := empty_datum\<lparr>stack := [tile_A], stack_size := 1\<rparr>,
                          handles := [Some client_A, None],
                          lock_calls := 2, unlock_calls := 2\<rparr>)"
  by (simp add: turtle_client_destroy_def sample_defs release_defs)

theorem pin_accounting_preserved_witness:
  "well_formed world_two \<and> pin_accounting world_two \<and> fresh two_files (datum world_two)
   \<and> turtle_client_elevation two_files world_two 1 (187 / 4) (7 / 2) True
       = Some \<lparr> ret = TURTLE_RETURN_SUCCESS, elevation_out = Some 25, inside_out = Some 1,
                world_out = world_three \<rparr>
   \<and> well_formed world_three \<and> pin_accounting world_three
   \<and> pin_accounting
        (world_three\<lparr>datum := empty_datum\<lparr>stack := [tile_B\<lparr>clients := 1\<rparr>],
                                         stack_size := 1\<rparr>,
                     handles := [Some client_0, Some (client_0\<lparr>tile := Some 2\<rparr>)],
                     lock_calls := 2, unlock_calls := 2\<rparr>)
   \<and> pin_accounting
        (world_three\<lparr>datum := empty_datum\<lparr>stack := [tile_A], stack_size := 1\<rparr>,
                     handles := [Some client_A, None],
                     lock_calls := 2, unlock_calls := 2\<rparr>)"
proof -
  let ?r = "\<lparr> ret = TURTLE_RETURN_SUCCESS, elevation_out = Some 25, inside_out = Some 1,
              world_out = world_three \<rparr>"
  let ?c = "world_three\<lparr>datum := empty_datum\<lparr>stack := [tile_B\<lparr>clients := 1\<rparr>],
                                         stack_size := 1\<rparr>,
                     handles := [Some client_0, Some (client_0\<lparr>tile := Some 2\<rparr>)],
                     lock_calls := 2, unlock_calls := 2\<rparr>"
  let ?d = "world_three\<lparr>datum := empty_datum\<lparr>stack := [tile_A], stack_size := 1\<rparr>,
                     handles := [Some client_A, None],
                     lock_calls := 2, unlock_calls := 2\<rparr>"
  have two: "well_formed world_two" "pin_accounting world_two"
    "fresh two_files (datum world_two)"
    using world_two_invariant by simp_all
  from pin_accounting_preserved
         [OF two(1,2), of two_files 1 "187 / 4" "7 / 2" True False]
  have "fresh two_files (datum world_two)
          \<and> turtle_client_elevation two_files world_two 1 (187 / 4) (7 / 2) True = Some ?r
        \<longrightarrow> well_formed (world_out ?r) \<and> pin_accounting (world_out ?r)"
    by blast
  with two(3) world_two_elevation
  have three: "well_formed world_three" "pin_accounting world_three"
    by simp_all
  note p = pin_accounting_preserved [OF three]
  from p [of two_files 0 0 0 True True]
  have "turtle_client_clear world_three 0 = Some (TURTLE_RETURN_SUCCESS, ?c)
        \<longrightarrow> pin_accounting ?c"
    by blast
  with world_three_clear have c: "pin_accounting ?c"
    by simp
  from p [of two_files 1 0 0 True True]
  have "turtle_client_destroy world_three 1 = Some (TURTLE_RETURN_SUCCESS, ?d)
        \<longrightarrow> pin_accounting ?d"
    by blast
  with world_three_destroy have d: "pin_accounting ?d"
    by simp
  from two world_two_elevation three c d show ?thesis
    by simp
qed

section \<open>No tile with a pin is freed by clear, load or release\<close>

text \<open>
  C2, as the code has it. In a stack whose tiles have distinct addresses, a tile with a
  count above zero stays in the list, unchanged, through \<^verbatim>\<open>turtle_datum_clear\<close> and
  through \<^verbatim>\<open>datum_tile_load\<close> with its eviction scan, whatever the load returns. It
  stays unchanged through \<^verbatim>\<open>client_release\<close> as well when the client pins another
  tile or none, or when the release stops at its lock. When the client pins it and the
  release goes past the lock, the count comes down by one, and the tile is freed
  exactly when the count has come down to 0 while the size is above the maximum size:
  with other pins left, or with a size that is not above the maximum, the tile stays in
  the list with its new count. (\<^verbatim>\<open>turtle_datum_destroy\<close> frees every tile.)
\<close>

theorem pinned_tiles_not_freed:
  assumes d: "distinct (map addr (stack (datum w)))"
    and t: "t \<in> set (stack (datum w))" and p: "0 < clients t"
  shows "t \<in> set (stack (datum (snd (turtle_datum_clear w))))
       \<and> (\<forall>rc d'. datum_tile_load env (datum w) la lo = Some (rc, d') \<longrightarrow>
              t \<in> set (stack d'))
       \<and> (\<forall>rc w'. client_release w i lk = Some (rc, w') \<longrightarrow>
              (map_option tile (client_at w i) \<noteq> Some (Some (addr t))
                 \<or> lk \<and> fst (lock_fails w) \<longrightarrow>
                 t \<in> set (stack (datum w')))
              \<and> (map_option tile (client_at w i) = Some (Some (addr t))
                   \<and> \<not> (lk \<and> fst (lock_fails w))
                   \<and> (1 < clients t \<or> stack_size (datum w) \<le> max_size (datum w)) \<longrightarrow>
                   t\<lparr>clients := clients t - 1\<rparr> \<in> set (stack (datum w')))
              \<and> (map_option tile (client_at w i) = Some (Some (addr t))
                   \<and> \<not> (lk \<and> fst (lock_fails w))
                   \<and> clients t = 1 \<and> max_size (datum w) < stack_size (datum w) \<longrightarrow>
                   addr t \<notin> set (map addr (stack (datum w')))))"
proof (intro conjI allI impI)
  show "t \<in> set (stack (datum (snd (turtle_datum_clear w))))"
    using t p by (simp add: turtle_datum_clear_datum datum_clear_soft [OF d])
next
  fix rc d'
  assume "datum_tile_load env (datum w) la lo = Some (rc, d')"
  from datum_tile_load_keeps [OF this d t] p show "t \<in> set (stack d')"
    by simp
next
  fix rc w'
  assume r: "client_release w i lk = Some (rc, w')"
  note e = client_release_exact [OF r d t p]
  {
    assume "map_option tile (client_at w i) \<noteq> Some (Some (addr t))
              \<or> lk \<and> fst (lock_fails w)"
    with e show "t \<in> set (stack (datum w'))"
      by blast
  next
    assume "map_option tile (client_at w i) = Some (Some (addr t))
              \<and> \<not> (lk \<and> fst (lock_fails w))
              \<and> (1 < clients t \<or> stack_size (datum w) \<le> max_size (datum w))"
    with e show "t\<lparr>clients := clients t - 1\<rparr> \<in> set (stack (datum w'))"
      by blast
  next
    assume "map_option tile (client_at w i) = Some (Some (addr t))
              \<and> \<not> (lk \<and> fst (lock_fails w))
              \<and> clients t = 1 \<and> max_size (datum w) < stack_size (datum w)"
    with e show "addr t \<notin> set (map addr (stack (datum w')))"
      by blast
  }
qed

lemma world_two_clear:
  "turtle_datum_clear world_two
     = (TURTLE_RETURN_SUCCESS, world_two\<lparr>lock_calls := 1, unlock_calls := 1\<rparr>)"
  by (simp add: turtle_datum_clear_def datum_clear_def datum_tile_destroy_def sample_defs
        release_defs)

lemma world_two_load:
  "datum_tile_load two_files (datum world_two) 46 3
     = Some (TURTLE_RETURN_SUCCESS,
             empty_datum\<lparr>stack := [tile_B, tile_A], stack_size := 2\<rparr>)"
  by (simp add: load_defs gdem2_name_samples sample_defs datum_tile_destroy_def)

lemma world_two_release:
  "client_release world_two 1 True = Some (TURTLE_RETURN_SUCCESS, world_two)"
  by (simp add: sample_defs release_defs)

lemma world_shared_release:
  "client_release world_shared 0 False
     = Some (TURTLE_RETURN_SUCCESS,
             world_shared\<lparr>datum := empty_datum\<lparr>stack := [tile_A], stack_size := 1\<rparr>,
                           handles := [Some client_0, Some client_A]\<rparr>)"
  by (simp add: sample_defs release_defs)

lemma world_A_release:
  "client_release world_A 0 False
     = Some (TURTLE_RETURN_SUCCESS,
             world_A\<lparr>datum := empty_datum\<lparr>stack := [tile_A\<lparr>clients := 0\<rparr>],
                                          stack_size := 1\<rparr>,
                      handles := [Some client_0]\<rparr>)"
  by (simp add: sample_defs release_defs)

lemma world_three_release:
  "client_release world_three 0 False
     = Some (TURTLE_RETURN_SUCCESS,
             world_three\<lparr>datum := empty_datum\<lparr>stack := [tile_B\<lparr>clients := 1\<rparr>],
                                              stack_size := 1\<rparr>,
                          handles := [Some client_0, Some (client_0\<lparr>tile := Some 2\<rparr>)]\<rparr>)"
  by (simp add: sample_defs release_defs)

theorem pinned_tiles_not_freed_witness:
  "distinct (map addr (stack (datum world_two)))
   \<and> tile_A \<in> set (stack (datum world_two)) \<and> 0 < clients tile_A
   \<and> tile_A \<in> set (stack (datum (snd (turtle_datum_clear world_two))))
   \<and> datum_tile_load two_files (datum world_two) 46 3
       = Some (TURTLE_RETURN_SUCCESS,
               empty_datum\<lparr>stack := [tile_B, tile_A], stack_size := 2\<rparr>)
   \<and> tile_A \<in> set (stack (empty_datum\<lparr>stack := [tile_B, tile_A], stack_size := 2\<rparr>))
   \<and> client_release world_two 1 True = Some (TURTLE_RETURN_SUCCESS, world_two)
   \<and> tile_A \<in> set (stack (datum world_two))
   \<and> 1 < clients (tile_A\<lparr>clients := 2\<rparr>)
   \<and> client_release world_shared 0 False
       = Some (TURTLE_RETURN_SUCCESS,
               world_shared\<lparr>datum := empty_datum\<lparr>stack := [tile_A], stack_size := 1\<rparr>,
                             handles := [Some client_0, Some client_A]\<rparr>)
   \<and> tile_A\<lparr>clients := 2, clients := 1\<rparr>
       \<in> set (stack (datum
            (world_shared\<lparr>datum := empty_datum\<lparr>stack := [tile_A], stack_size := 1\<rparr>,
                           handles := [Some client_0, Some client_A]\<rparr>)))
   \<and> clients tile_A = 1 \<and> stack_size (datum world_A) \<le> max_size (datum world_A)
   \<and> client_release world_A 0 False
       = Some (TURTLE_RETURN_SUCCESS,
               world_A\<lparr>datum := empty_datum\<lparr>stack := [tile_A\<lparr>clients := 0\<rparr>],
                                            stack_size := 1\<rparr>,
                        handles := [Some client_0]\<rparr>)
   \<and> tile_A\<lparr>clients := 0\<rparr>
       \<in> set (stack (datum
            (world_A\<lparr>datum := empty_datum\<lparr>stack := [tile_A\<lparr>clients := 0\<rparr>],
                                          stack_size := 1\<rparr>,
                      handles := [Some client_0]\<rparr>)))
   \<and> max_size (datum world_three) < stack_size (datum world_three)
   \<and> client_release world_three 0 False
       = Some (TURTLE_RETURN_SUCCESS,
               world_three\<lparr>datum := empty_datum\<lparr>stack := [tile_B\<lparr>clients := 1\<rparr>],
                                                stack_size := 1\<rparr>,
                            handles := [Some client_0, Some (client_0\<lparr>tile := Some 2\<rparr>)]\<rparr>)
   \<and> addr tile_A
       \<notin> set (map addr (stack (datum
            (world_three\<lparr>datum := empty_datum\<lparr>stack := [tile_B\<lparr>clients := 1\<rparr>],
                                              stack_size := 1\<rparr>,
                          handles := [Some client_0,
                                      Some (client_0\<lparr>tile := Some 2\<rparr>)]\<rparr>))))"
proof -
  let ?d = "empty_datum\<lparr>stack := [tile_B, tile_A], stack_size := 2\<rparr>"
  let ?w = "world_shared\<lparr>datum := empty_datum\<lparr>stack := [tile_A], stack_size := 1\<rparr>,
                           handles := [Some client_0, Some client_A]\<rparr>"
  let ?wA = "world_A\<lparr>datum := empty_datum\<lparr>stack := [tile_A\<lparr>clients := 0\<rparr>],
                                            stack_size := 1\<rparr>,
                        handles := [Some client_0]\<rparr>"
  let ?w3 = "world_three\<lparr>datum := empty_datum\<lparr>stack := [tile_B\<lparr>clients := 1\<rparr>],
                                                 stack_size := 1\<rparr>,
                             handles := [Some client_0, Some (client_0\<lparr>tile := Some 2\<rparr>)]\<rparr>"
  have h: "distinct (map addr (stack (datum world_two)))"
    "tile_A \<in> set (stack (datum world_two))" "0 < clients tile_A"
    by (simp_all add: sample_defs)
  note p = pinned_tiles_not_freed [OF h, of two_files 46 3 1 True]
  from p have 1: "tile_A \<in> set (stack (datum (snd (turtle_datum_clear world_two))))"
    by blast
  from p have "datum_tile_load two_files (datum world_two) 46 3
                 = Some (TURTLE_RETURN_SUCCESS, ?d) \<longrightarrow> tile_A \<in> set (stack ?d)"
    by blast
  with world_two_load have 2: "tile_A \<in> set (stack ?d)"
    by simp
  have other: "map_option tile (client_at world_two 1) \<noteq> Some (Some (addr tile_A))"
    by (simp add: sample_defs client_at_def)
  from p have "client_release world_two 1 True = Some (TURTLE_RETURN_SUCCESS, world_two) \<longrightarrow>
                 (map_option tile (client_at world_two 1) \<noteq> Some (Some (addr tile_A))
                    \<or> True \<and> fst (lock_fails world_two) \<longrightarrow>
                  tile_A \<in> set (stack (datum world_two)))"
    by blast
  with world_two_release other have 3: "tile_A \<in> set (stack (datum world_two))"
    by blast
  have g: "distinct (map addr (stack (datum world_shared)))"
    "tile_A\<lparr>clients := 2\<rparr> \<in> set (stack (datum world_shared))"
    "0 < clients (tile_A\<lparr>clients := 2\<rparr>)" "1 < clients (tile_A\<lparr>clients := 2\<rparr>)"
    by (simp_all add: sample_defs)
  have gpin: "map_option tile (client_at world_shared 0)
                = Some (Some (addr (tile_A\<lparr>clients := 2\<rparr>)))"
    by (simp add: sample_defs client_at_def)
  from pinned_tiles_not_freed [OF g(1,2,3), of two_files 46 3 0 False]
  have "client_release world_shared 0 False = Some (TURTLE_RETURN_SUCCESS, ?w) \<longrightarrow>
          (map_option tile (client_at world_shared 0)
             = Some (Some (addr (tile_A\<lparr>clients := 2\<rparr>)))
           \<and> \<not> (False \<and> fst (lock_fails world_shared))
           \<and> (1 < clients (tile_A\<lparr>clients := 2\<rparr>)
                \<or> stack_size (datum world_shared) \<le> max_size (datum world_shared)) \<longrightarrow>
           tile_A\<lparr>clients := 2, clients := clients (tile_A\<lparr>clients := 2\<rparr>) - 1\<rparr>
             \<in> set (stack (datum ?w)))"
    by blast
  with world_shared_release gpin g(4)
  have "tile_A\<lparr>clients := 2, clients := clients (tile_A\<lparr>clients := 2\<rparr>) - 1\<rparr>
          \<in> set (stack (datum ?w))"
    by blast
  then have 4: "tile_A\<lparr>clients := 2, clients := 1\<rparr> \<in> set (stack (datum ?w))"
    by simp
  have a: "distinct (map addr (stack (datum world_A)))"
    "tile_A \<in> set (stack (datum world_A))"
    "clients tile_A = 1" "stack_size (datum world_A) \<le> max_size (datum world_A)"
    "map_option tile (client_at world_A 0) = Some (Some (addr tile_A))"
    by (simp_all add: sample_defs client_at_def)
  from pinned_tiles_not_freed [OF a(1,2) h(3), of two_files 46 3 0 False]
  have "client_release world_A 0 False = Some (TURTLE_RETURN_SUCCESS, ?wA) \<longrightarrow>
          (map_option tile (client_at world_A 0) = Some (Some (addr tile_A))
           \<and> \<not> (False \<and> fst (lock_fails world_A))
           \<and> (1 < clients tile_A
                \<or> stack_size (datum world_A) \<le> max_size (datum world_A)) \<longrightarrow>
           tile_A\<lparr>clients := clients tile_A - 1\<rparr> \<in> set (stack (datum ?wA)))"
    by blast
  with world_A_release a(4,5)
  have "tile_A\<lparr>clients := clients tile_A - 1\<rparr> \<in> set (stack (datum ?wA))"
    by blast
  then have 5: "tile_A\<lparr>clients := 0\<rparr> \<in> set (stack (datum ?wA))"
    by (simp add: a(3))
  have b: "distinct (map addr (stack (datum world_three)))"
    "tile_A \<in> set (stack (datum world_three))"
    "max_size (datum world_three) < stack_size (datum world_three)"
    "map_option tile (client_at world_three 0) = Some (Some (addr tile_A))"
    by (simp_all add: sample_defs client_at_def)
  from pinned_tiles_not_freed [OF b(1,2) h(3), of two_files 46 3 0 False]
  have "client_release world_three 0 False = Some (TURTLE_RETURN_SUCCESS, ?w3) \<longrightarrow>
          (map_option tile (client_at world_three 0) = Some (Some (addr tile_A))
           \<and> \<not> (False \<and> fst (lock_fails world_three))
           \<and> clients tile_A = 1
           \<and> max_size (datum world_three) < stack_size (datum world_three) \<longrightarrow>
           addr tile_A \<notin> set (map addr (stack (datum ?w3))))"
    by blast
  with world_three_release a(3) b(3,4)
  have 6: "addr tile_A \<notin> set (map addr (stack (datum ?w3)))"
    by blast
  from h 1 2 3 4 5 6 g(4) a(3,4) b(3) world_two_load world_two_release
    world_shared_release world_A_release world_three_release
  show ?thesis
    by blast
qed


text \<open>
  The claim as written, for any operation, fails for \<^verbatim>\<open>turtle_datum_destroy\<close>: it
  cleans with \<^verbatim>\<open>force = 1\<close> and frees a tile that a client pins.
\<close>

theorem pinned_tiles_not_freed_counterexample:
  "tile_A \<in> set (stack (datum world_A)) \<and> 0 < clients tile_A
   \<and> stack (turtle_datum_destroy (datum world_A)) = []"
  by (simp add: turtle_datum_destroy_def datum_clear_def datum_tile_destroy_def sample_defs)

section \<open>The eviction scan takes the tiles from the LRU end\<close>

lemma lru_evict_spec_Nil [simp]: "lru_evict_spec n [] = []"
  by (cases n) simp_all






section \<open>The soft bound on the size\<close>









section \<open>A query for a point whose tile is known to be missing\<close>



lemma client_release_nolock_frame:
  assumes r: "client_release w i False = Some (rc, w')" and c: "client_at w i = Some c"
  shows "client_at w' i = Some (c\<lparr>tile := None\<rparr>)"
    and "unlock (datum w') = unlock (datum w)" and "unlock_calls w' = unlock_calls w"
    and "lock (datum w') = lock (datum w)" and "lock_calls w' = lock_calls w"
proof -
  have len: "i < length (handles w)"
    using client_at_SomeD [OF c] by simp
  have "client_at w' i = Some (c\<lparr>tile := None\<rparr>)
        \<and> unlock (datum w') = unlock (datum w) \<and> unlock_calls w' = unlock_calls w
        \<and> lock (datum w') = lock (datum w) \<and> lock_calls w' = lock_calls w"
  proof (cases "tile c")
    case None
    have "c\<lparr>tile := tile c\<rparr> = c"
      by simp
    then have "c\<lparr>tile := None\<rparr> = c"
      unfolding None .
    moreover have "w' = w"
      using r c None by (simp add: client_release_def)
    ultimately show ?thesis
      using c by simp
  next
    case (Some a)
    from r c Some obtain t where t: "tile_at (stack (datum w)) a = Some t"
      by (auto simp: client_release_def split: Option.bind_splits)
    define w2 where "w2 = set_client w i (c\<lparr>tile := None\<rparr>)"
    have w2: "handles w2 = (handles w)[i := Some (c\<lparr>tile := None\<rparr>)]"
      "datum w2 = datum w" "unlock_calls w2 = unlock_calls w" "lock_calls w2 = lock_calls w"
      by (simp_all add: w2_def set_client_def)
    have "w' = snd (release_count w2 a t)"
      using client_release_pinned [OF c Some t, of False] r
      by (simp add: release_unlock_def w2_def)
    then show ?thesis
      using len by (simp add: release_count_fields w2 client_at_def)
  qed
  then show "client_at w' i = Some (c\<lparr>tile := None\<rparr>)"
    and "unlock (datum w') = unlock (datum w)" and "unlock_calls w' = unlock_calls w"
    and "lock (datum w') = lock (datum w)" and "lock_calls w' = lock_calls w"
    by simp_all
qed


lemma turtle_client_elevation_miss:
  assumes c: "client_at w i = Some c"
    and la: "c_int latitude = Some la" and lo: "c_int longitude = Some lo"
    and unknown: "tile c = None \<longrightarrow> la \<noteq> index_la c \<or> lo \<noteq> index_lo c"
    and outside: "\<forall>a. tile c = Some a \<longrightarrow>
                    (\<exists>current. tile_at (stack (datum w)) a = Some current
                                \<and> \<not> in_tile current latitude longitude)"
  shows "turtle_client_elevation env w i latitude longitude ins
           = client_locked env w i latitude longitude ins"
proof (cases "tile c")
  case None
  with unknown have "la \<noteq> index_la c \<or> lo \<noteq> index_lo c"
    by simp
  then show ?thesis
    using c la lo None by (auto simp: turtle_client_elevation_def)
next
  case (Some a)
  with outside obtain current where "tile_at (stack (datum w)) a = Some current"
    and "\<not> in_tile current latitude longitude"
    by auto
  then show ?thesis
    using c Some by (simp add: turtle_client_elevation_def)
qed








section \<open>A failing unlock after the client has switched its tile\<close>

lemma tile_at_unlink_other:
  "a \<noteq> b \<Longrightarrow> tile_at (unlink S b) a = tile_at S a"
  unfolding tile_at_def by (induction S) simp_all

lemma client_release_other_tile:
  assumes r: "client_release w i False = Some (rc, w')" and c: "client_at w i = Some c"
    and other: "tile c \<noteq> Some a" and cur: "tile_at (stack (datum w)) a = Some t"
  shows "tile_at (stack (datum w')) a = Some t"
  using r
proof (cases rule: client_release_cases)
  case (unpinned c0)
  with cur show ?thesis by simp
next
  case (lock_error c0 b)
  then show ?thesis by simp
next
  case (released c0 b t0)
  have ab: "a \<noteq> b"
    using released(1,2) c other by auto
  have "addr t = a"
    using tile_at_SomeD [OF cur] by simp
  then have "tile_at (set_clients (stack (datum w)) b n) a = Some t" for n
    using ab cur by (simp add: tile_at_set_clients)
  then show ?thesis
    using ab by (simp add: released(6) tile_at_unlink_other)
qed

lemma client_release_nolock_success:
  assumes a: "accounted (stack (datum w)) (pinned (handles w))"
    and r: "client_release w i False = Some (rc, w')"
  shows "rc = TURTLE_RETURN_SUCCESS"
  using r
proof (cases rule: client_release_cases)
  case (unpinned c0)
  then show ?thesis by simp
next
  case (lock_error c0 b)
  then show ?thesis by simp
next
  case (released c0 b t0)
  have t0: "t0 \<in> set (stack (datum w))" "addr t0 = b"
    using tile_at_SomeD [OF released(4)] by simp_all
  have "Some b \<in> set (pinned (handles w))"
    using pinned_nth [OF released(1)] released(2) by (metis nth_mem)
  then have "count_list (pinned (handles w)) (Some (addr t0)) \<noteq> 0"
    by (simp add: count_list_0_iff t0(2))
  moreover have "clients t0 = int (count_list (pinned (handles w)) (Some (addr t0)))"
    using a t0(1) by (simp add: accounted_def)
  ultimately have "\<not> clients t0 - 1 < 0"
    by simp
  then show ?thesis
    by (simp add: released(11))
qed

lemma client_update_unlock_fails:
  assumes acc: "accounted (stack (datum w)) (pinned (handles w))"
    and c: "client_at w i = Some c"
    and other: "tile c \<noteq> Some a"
    and cur: "tile_at (stack (datum w)) a = Some current"
    and uf: "fst (unlock_fails w)"
  shows "\<exists>r. client_update w i a hxy ins = Some r
           \<and> ret r = TURTLE_RETURN_UNLOCK_ERROR \<and> elevation_out r = None
           \<and> inside_out r = (if ins then Some 0 else None)
           \<and> client_at (world_out r) i
               = Some (c\<lparr>tile := Some a, index_la := INT_MIN, index_lo := INT_MIN\<rparr>)
           \<and> tile_at (stack (datum (world_out r))) a
               = Some (current\<lparr>clients := clients current + 1\<rparr>)"
proof -
  from client_release_returns [OF acc c] obtain rc w1
    where r: "client_release w i False = Some (rc, w1)"
    by blast
  have rc: "rc = TURTLE_RETURN_SUCCESS"
    using acc r by (rule client_release_nolock_success)
  note f = client_release_nolock_frame [OF r c]
  have cur1: "tile_at (stack (datum w1)) a = Some current"
    using r c other cur by (rule client_release_other_tile)
  have ad: "addr current = a"
    using tile_at_SomeD [OF cur] by simp
  define c3 where "c3 = c\<lparr>tile := Some a, index_la := INT_MIN, index_lo := INT_MIN\<rparr>"
  define w3 where
    "w3 = set_client (poke_clients w1 a (clients current + 1)) i
            (c\<lparr>tile := None\<rparr>\<lparr>tile := Some a, index_la := INT_MIN, index_lo := INT_MIN\<rparr>)"
  have len: "i < length (handles w1)"
    using client_at_SomeD [OF f(1)] by simp
  have w3: "client_at w3 i = Some c3" "unlock (datum w3) = unlock (datum w)"
    "unlock_calls w3 = unlock_calls w"
    "stack (datum w3) = set_clients (stack (datum w1)) a (clients current + 1)"
    using len by (simp_all add: w3_def c3_def set_client_def poke_clients_def client_at_def f)
  have e: "client_update w i a hxy ins = client_unlock w3 i TURTLE_RETURN_SUCCESS hxy ins"
    by (simp add: client_update_def r rc cur1 f(1) w3_def Let_def)
  have u: "fst (unlock_fails w3)"
    using fst_unlock_fails_cong [OF w3(2,3)] uf by simp
  obtain fl w4 where ufs: "unlock_fails w3 = (fl, w4)"
    by (cases "unlock_fails w3")
  have fl: "fl" and w4: "w4 = snd (unlock_fails w3)"
    using u ufs by simp_all
  define r4 where
    "r4 = \<lparr> ret = TURTLE_RETURN_UNLOCK_ERROR, elevation_out = None,
            inside_out = (if ins then Some 0 else None), world_out = w4 \<rparr>"
  have "client_unlock w3 i TURTLE_RETURN_SUCCESS hxy ins = Some r4"
    using fl by (simp add: client_unlock_def ufs r4_def inside0_def TURTLE_ERROR_UNLOCK_def)
  with e have 1: "client_update w i a hxy ins = Some r4"
    by simp
  have 2: "client_at (world_out r4) i = Some c3"
    using client_at_SomeD [OF w3(1)] by (simp add: r4_def w4 client_at_def)
  have 3: "tile_at (stack (datum (world_out r4))) a
             = Some (current\<lparr>clients := clients current + 1\<rparr>)"
    using cur1 ad by (simp add: r4_def w4 w3(4) tile_at_set_clients)
  have "ret r4 = TURTLE_RETURN_UNLOCK_ERROR" and "elevation_out r4 = None"
    and "inside_out r4 = (if ins then Some 0 else None)"
    by (simp_all add: r4_def)
  with 1 2 3 show ?thesis
    unfolding c3_def by blast
qed

text \<open>
  C7. In a state where the list of tiles is well formed and the count of every tile is
  the number of clients that pin it, with an allocation that returns a block that is not
  in the stack: when a query of \<^verbatim>\<open>turtle_client_elevation\<close> gets past the lock (the
  client has no tile and the point is not the one it has recorded, or its tile does not
  hold the point) and the unlock fails, then, whether a tile of the stack holds the
  point or the tile is loaded with success, the query returns the unlock error and
  writes nothing to \<^verbatim>\<open>*elevation\<close>, while the client pins the tile found or loaded
  and the count of that tile is one more than before. The coordinates are such that
  their conversions to \<^verbatim>\<open>int\<close> are defined.
\<close>

theorem unlock_failure_after_update:
  assumes wf: "well_formed w" and pa: "pin_accounting w" and fr: "fresh env (datum w)"
    and c: "client_at w i = Some c"
    and la: "c_int latitude = Some la" and lo: "c_int longitude = Some lo"
    and unknown: "tile c = None \<longrightarrow> la \<noteq> index_la c \<or> lo \<noteq> index_lo c"
    and outside: "\<forall>a. tile c = Some a \<longrightarrow>
                    (\<exists>current. tile_at (stack (datum w)) a = Some current
                                \<and> \<not> in_tile current latitude longitude)"
    and lk: "\<not> fst (lock_fails w)" and uf: "fst (unlock_fails w)"
  shows "(\<forall>current.
            client_search (stack (datum w)) (tile c) latitude longitude = Some current \<longrightarrow>
            (\<exists>r. turtle_client_elevation env w i latitude longitude ins = Some r
                \<and> ret r = TURTLE_RETURN_UNLOCK_ERROR \<and> elevation_out r = None
                \<and> inside_out r = (if ins then Some 0 else None)
                \<and> client_at (world_out r) i
                    = Some (c\<lparr>tile := Some (addr current), index_la := INT_MIN,
                              index_lo := INT_MIN\<rparr>)
                \<and> tile_at (stack (datum (world_out r))) (addr current)
                    = Some (current\<lparr>clients := clients current + 1\<rparr>)))
       \<and> (\<forall>d. client_search (stack (datum w)) (tile c) latitude longitude = None
              \<and> datum_tile_load env (datum w) la lo = Some (TURTLE_RETURN_SUCCESS, d) \<longrightarrow>
            (\<exists>r. turtle_client_elevation env w i latitude longitude ins = Some r
                \<and> ret r = TURTLE_RETURN_UNLOCK_ERROR \<and> elevation_out r = None
                \<and> inside_out r = (if ins then Some 0 else None)
                \<and> client_at (world_out r) i
                    = Some (c\<lparr>tile := Some (addr (hd (stack d))), index_la := INT_MIN,
                              index_lo := INT_MIN\<rparr>)
                \<and> tile_at (stack (datum (world_out r))) (addr (hd (stack d)))
                    = Some ((hd (stack d))\<lparr>clients := 1\<rparr>)))"
proof -
  have acc: "accounted (stack (datum w)) (pinned (handles w))"
    using wf pa by (simp add: accounted_world [symmetric])
  have dist: "distinct (map addr (stack (datum w)))"
    using acc by (simp add: accounted_def)
  define w1 where "w1 = snd (lock_fails w)"
  have lf: "lock_fails w = (False, w1)"
    using lk by (simp add: w1_def prod_eq_iff)
  have w1: "datum w1 = datum w" "handles w1 = handles w" "unlock_calls w1 = unlock_calls w"
    by (simp_all add: w1_def)
  have c1: "client_at w1 i = Some c"
    using client_at_SomeD [OF c] by (simp add: w1 client_at_def)
  have e: "turtle_client_elevation env w i latitude longitude ins
             = client_locked env w i latitude longitude ins"
    using c la lo unknown outside by (rule turtle_client_elevation_miss)
  show ?thesis
  proof (intro conjI allI impI)
    fix current
    assume s: "client_search (stack (datum w)) (tile c) latitude longitude = Some current"
    define wt where "wt = w1\<lparr>datum := datum_tile_touch (datum w1) (addr current)\<rparr>"
    have found: "current \<in> set (stack (datum w))" "Some (addr current) \<noteq> tile c"
      using s by (auto simp: client_search_def find_Some_iff)
    have e2: "client_locked env w i latitude longitude ins
                = client_update wt i (addr current) (tile_hxy current latitude longitude) ins"
      using s by (simp add: client_locked_def c lf w1 wt_def)
    have touched: "set (stack (datum wt)) = set (stack (datum w))"
      "distinct (map addr (stack (datum wt)))"
      using datum_tile_touch_stack [OF dist, of "addr current"] by (simp_all add: wt_def w1)
    have at: "accounted (stack (datum wt)) (pinned (handles wt))"
      using datum_tile_touch_accounted [OF acc, of "addr current"] by (simp add: wt_def w1)
    have ct: "client_at wt i = Some c"
      using client_at_SomeD [OF c] by (simp add: wt_def w1 client_at_def)
    have ot: "tile c \<noteq> Some (addr current)"
      using found(2) by auto
    have cur: "tile_at (stack (datum wt)) (addr current) = Some current"
      using touched found(1) by (intro tile_at_distinct) simp_all
    have ut: "fst (unlock_fails wt)"
      using fst_unlock_fails_cong [of wt w] uf by (simp add: wt_def w1)
    from client_update_unlock_fails [OF at ct ot cur ut]
    show "\<exists>r. turtle_client_elevation env w i latitude longitude ins = Some r
            \<and> ret r = TURTLE_RETURN_UNLOCK_ERROR \<and> elevation_out r = None
            \<and> inside_out r = (if ins then Some 0 else None)
            \<and> client_at (world_out r) i
                = Some (c\<lparr>tile := Some (addr current), index_la := INT_MIN,
                          index_lo := INT_MIN\<rparr>)
            \<and> tile_at (stack (datum (world_out r))) (addr current)
                = Some (current\<lparr>clients := clients current + 1\<rparr>)"
      unfolding e e2 .
  next
    fix d
    assume a: "client_search (stack (datum w)) (tile c) latitude longitude = None
               \<and> datum_tile_load env (datum w) la lo = Some (TURTLE_RETURN_SUCCESS, d)"
    then have load: "datum_tile_load env (datum w) la lo = Some (TURTLE_RETURN_SUCCESS, d)"
      by simp
    from load dist obtain t rest where d: "stack d = t # rest" and t: "clients t = 0"
      and m: "malloc_tile env = Some (addr t)"
      by (cases rule: datum_tile_load_cases) simp_all
    define wl where "wl = w1\<lparr>datum := d\<rparr>"
    have e2: "client_locked env w i latitude longitude ins
                = client_update wl i (addr t) (tile_hxy t latitude longitude) ins"
      using a by (simp add: client_locked_def c lf w1 client_load_def la lo d wl_def)
    have al: "accounted (stack (datum wl)) (pinned (handles wl))"
      using datum_tile_load_accounted [OF acc fr load] by (simp add: wl_def w1)
    have cl: "client_at wl i = Some c"
      using client_at_SomeD [OF c] by (simp add: wl_def w1 client_at_def)
    have new: "addr t \<notin> set (map addr (stack (datum w)))"
      using fr m by (simp add: fresh_def)
    have ol: "tile c \<noteq> Some (addr t)"
    proof
      assume "tile c = Some (addr t)"
      then have "Some (addr t) \<in> set (pinned (handles w))"
        using pinned_nth [OF c] by (metis nth_mem)
      from accounted_pinned_in [OF acc this] new show False
        by simp
    qed
    have cur: "tile_at (stack (datum wl)) (addr t) = Some t"
      by (simp add: wl_def d tile_at_def)
    have ul: "fst (unlock_fails wl)"
    proof -
      have "unlock d = unlock (datum w)"
        using load dist by (cases rule: datum_tile_load_cases) simp_all
      then show ?thesis
        using fst_unlock_fails_cong [of wl w] uf by (simp add: wl_def w1)
    qed
    from client_update_unlock_fails [OF al cl ol cur ul]
    show "\<exists>r. turtle_client_elevation env w i latitude longitude ins = Some r
            \<and> ret r = TURTLE_RETURN_UNLOCK_ERROR \<and> elevation_out r = None
            \<and> inside_out r = (if ins then Some 0 else None)
            \<and> client_at (world_out r) i
                = Some (c\<lparr>tile := Some (addr (hd (stack d))), index_la := INT_MIN,
                          index_lo := INT_MIN\<rparr>)
            \<and> tile_at (stack (datum (world_out r))) (addr (hd (stack d)))
                = Some ((hd (stack d))\<lparr>clients := 1\<rparr>)"
      unfolding e e2 by (simp add: d t)
  qed
qed

lemma unlock_broken_elevation:
  "turtle_client_elevation two_files (unlock_broken world_two) 1 (91 / 2) (7 / 2) True
     = Some \<lparr> ret = TURTLE_RETURN_UNLOCK_ERROR, elevation_out = None, inside_out = Some 0,
              world_out =
                unlock_broken
                  (world_two\<lparr>datum := empty_datum\<lparr>stack := [tile_A\<lparr>clients := 2\<rparr>],
                                                   stack_size := 1\<rparr>,
                             handles := [Some client_A, Some (client_0\<lparr>tile := Some 1\<rparr>)],
                             lock_calls := 1, unlock_calls := 1\<rparr>) \<rparr>"
  "turtle_client_elevation two_files (unlock_broken world_two) 1 (187 / 4) (7 / 2) True
     = Some \<lparr> ret = TURTLE_RETURN_UNLOCK_ERROR, elevation_out = None, inside_out = Some 0,
              world_out = unlock_broken world_three \<rparr>"
  by (simp_all add: elevation_defs interpolate_defs load_defs gdem2_name_samples sample_defs
        release_defs datum_tile_touch_def)

theorem unlock_failure_after_update_witness:
  "well_formed (unlock_broken world_two) \<and> pin_accounting (unlock_broken world_two)
   \<and> fresh two_files (datum (unlock_broken world_two))
   \<and> client_at (unlock_broken world_two) 1 = Some client_0
   \<and> c_int (91 / 2) = Some 45 \<and> c_int (187 / 4) = Some 46 \<and> c_int (7 / 2) = Some 3
   \<and> tile client_0 = None \<and> 45 \<noteq> index_la client_0 \<and> 46 \<noteq> index_la client_0
   \<and> \<not> fst (lock_fails (unlock_broken world_two))
   \<and> fst (unlock_fails (unlock_broken world_two))
   \<and> client_search (stack (datum (unlock_broken world_two))) (tile client_0) (91 / 2) (7 / 2)
       = Some tile_A
   \<and> turtle_client_elevation two_files (unlock_broken world_two) 1 (91 / 2) (7 / 2) True
       = Some \<lparr> ret = TURTLE_RETURN_UNLOCK_ERROR, elevation_out = None, inside_out = Some 0,
                world_out =
                  unlock_broken
                    (world_two\<lparr>datum := empty_datum\<lparr>stack := [tile_A\<lparr>clients := 2\<rparr>],
                                                     stack_size := 1\<rparr>,
                               handles := [Some client_A, Some (client_0\<lparr>tile := Some 1\<rparr>)],
                               lock_calls := 1, unlock_calls := 1\<rparr>) \<rparr>
   \<and> client_at
         (unlock_broken
              (world_two\<lparr>datum := empty_datum\<lparr>stack := [tile_A\<lparr>clients := 2\<rparr>],
                                               stack_size := 1\<rparr>,
                         handles := [Some client_A, Some (client_0\<lparr>tile := Some 1\<rparr>)],
                         lock_calls := 1, unlock_calls := 1\<rparr>)) 1
       = Some (client_0\<lparr>tile := Some (addr tile_A), index_la := INT_MIN,
                        index_lo := INT_MIN\<rparr>)
   \<and> tile_at
         (stack (datum
           (unlock_broken
              (world_two\<lparr>datum := empty_datum\<lparr>stack := [tile_A\<lparr>clients := 2\<rparr>],
                                               stack_size := 1\<rparr>,
                         handles := [Some client_A, Some (client_0\<lparr>tile := Some 1\<rparr>)],
                         lock_calls := 1, unlock_calls := 1\<rparr>))))
         (addr tile_A)
       = Some (tile_A\<lparr>clients := clients tile_A + 1\<rparr>)
   \<and> client_search (stack (datum (unlock_broken world_two))) (tile client_0) (187 / 4) (7 / 2)
       = None
   \<and> datum_tile_load two_files (datum (unlock_broken world_two)) 46 3
       = Some (TURTLE_RETURN_SUCCESS,
               (datum (unlock_broken world_two))\<lparr>stack := [tile_B, tile_A], stack_size := 2\<rparr>)
   \<and> turtle_client_elevation two_files (unlock_broken world_two) 1 (187 / 4) (7 / 2) True
       = Some \<lparr> ret = TURTLE_RETURN_UNLOCK_ERROR, elevation_out = None, inside_out = Some 0,
                world_out = unlock_broken world_three \<rparr>
   \<and> client_at (unlock_broken world_three) 1
       = Some (client_0\<lparr>tile := Some (addr tile_B), index_la := INT_MIN,
                        index_lo := INT_MIN\<rparr>)
   \<and> tile_at (stack (datum (unlock_broken world_three))) (addr tile_B)
       = Some (tile_B\<lparr>clients := 1\<rparr>)"
proof -
  let ?w = "unlock_broken world_two"
  let ?d = "(datum ?w)\<lparr>stack := [tile_B, tile_A], stack_size := 2\<rparr>"
  let ?r1 = "\<lparr> ret = TURTLE_RETURN_UNLOCK_ERROR, elevation_out = None, inside_out = Some 0,
               world_out =
                 unlock_broken
                   (world_two\<lparr>datum := empty_datum\<lparr>stack := [tile_A\<lparr>clients := 2\<rparr>],
                                                    stack_size := 1\<rparr>,
                              handles := [Some client_A, Some (client_0\<lparr>tile := Some 1\<rparr>)],
                              lock_calls := 1, unlock_calls := 1\<rparr>) \<rparr>"
  let ?r2 = "\<lparr> ret = TURTLE_RETURN_UNLOCK_ERROR, elevation_out = None, inside_out = Some 0,
               world_out = unlock_broken world_three \<rparr>"
  have inv: "well_formed ?w" "pin_accounting ?w" "fresh two_files (datum ?w)"
    "client_at ?w 1 = Some client_0"
    by (simp_all add: invariant_defs sample_defs client_at_def)
  have ci: "c_int (91 / 2) = Some 45" "c_int (187 / 4) = Some 46" "c_int (7 / 2) = Some 3"
    by (simp_all add: interpolate_defs)
  have un: "tile client_0 = None \<longrightarrow> 45 \<noteq> index_la client_0 \<or> 3 \<noteq> index_lo client_0"
    "tile client_0 = None \<longrightarrow> 46 \<noteq> index_la client_0 \<or> 3 \<noteq> index_lo client_0"
    and out: "\<forall>a. tile client_0 = Some a \<longrightarrow>
                (\<exists>current. tile_at (stack (datum ?w)) a = Some current
                            \<and> \<not> in_tile current (91 / 2) (7 / 2))"
      "\<forall>a. tile client_0 = Some a \<longrightarrow>
                (\<exists>current. tile_at (stack (datum ?w)) a = Some current
                            \<and> \<not> in_tile current (187 / 4) (7 / 2))"
    and cb: "tile client_0 = None" "45 \<noteq> index_la client_0" "46 \<noteq> index_la client_0"
    by (simp_all add: client_0_def INT_MIN_def)
  have cbk: "\<not> fst (lock_fails ?w)" "fst (unlock_fails ?w)"
    by (simp_all add: lock_fails_def unlock_fails_def sample_defs)
  have s1: "client_search (stack (datum ?w)) (tile client_0) (91 / 2) (7 / 2) = Some tile_A"
    and s2: "client_search (stack (datum ?w)) (tile client_0) (187 / 4) (7 / 2) = None"
    by (simp_all add: client_search_def in_tile_def tile_hxy_def hcoord_def sample_defs)
  have l2: "datum_tile_load two_files (datum ?w) 46 3 = Some (TURTLE_RETURN_SUCCESS, ?d)"
    by (simp add: load_defs gdem2_name_samples sample_defs datum_tile_destroy_def)
  note p1 = unlock_failure_after_update
              [OF inv ci(1,3) un(1) out(1) cbk, where ins = True]
  note q1 = p1 [THEN conjunct1, THEN spec, THEN mp, OF s1]
  from q1 have "client_at (world_out ?r1) 1
                  = Some (client_0\<lparr>tile := Some (addr tile_A), index_la := INT_MIN,
                                   index_lo := INT_MIN\<rparr>)
                \<and> tile_at (stack (datum (world_out ?r1))) (addr tile_A)
                    = Some (tile_A\<lparr>clients := clients tile_A + 1\<rparr>)"
    unfolding unlock_broken_elevation(1) by auto
  then have 1: "client_at
                  (unlock_broken
              (world_two\<lparr>datum := empty_datum\<lparr>stack := [tile_A\<lparr>clients := 2\<rparr>],
                                               stack_size := 1\<rparr>,
                         handles := [Some client_A, Some (client_0\<lparr>tile := Some 1\<rparr>)],
                         lock_calls := 1, unlock_calls := 1\<rparr>)) 1
                = Some (client_0\<lparr>tile := Some (addr tile_A), index_la := INT_MIN,
                                 index_lo := INT_MIN\<rparr>)"
    "tile_at
       (stack (datum
         (unlock_broken
              (world_two\<lparr>datum := empty_datum\<lparr>stack := [tile_A\<lparr>clients := 2\<rparr>],
                                               stack_size := 1\<rparr>,
                         handles := [Some client_A, Some (client_0\<lparr>tile := Some 1\<rparr>)],
                         lock_calls := 1, unlock_calls := 1\<rparr>))))
       (addr tile_A)
     = Some (tile_A\<lparr>clients := clients tile_A + 1\<rparr>)"
    by simp_all
  have pre2: "client_search (stack (datum ?w)) (tile client_0) (187 / 4) (7 / 2) = None
              \<and> datum_tile_load two_files (datum ?w) 46 3
                  = Some (TURTLE_RETURN_SUCCESS, ?d)"
    using s2 l2 by simp
  note p2 = unlock_failure_after_update
              [OF inv ci(2,3) un(2) out(2) cbk, where ins = True]
  note q2 = p2 [THEN conjunct2, THEN spec, THEN mp, OF pre2]
  from q2 have "client_at (world_out ?r2) 1
                  = Some (client_0\<lparr>tile := Some (addr (hd (stack ?d))), index_la := INT_MIN,
                                   index_lo := INT_MIN\<rparr>)
                \<and> tile_at (stack (datum (world_out ?r2))) (addr (hd (stack ?d)))
                    = Some ((hd (stack ?d))\<lparr>clients := 1\<rparr>)"
    unfolding unlock_broken_elevation(2) by auto
  then have 2: "client_at (unlock_broken world_three) 1
                  = Some (client_0\<lparr>tile := Some (addr tile_B), index_la := INT_MIN,
                                   index_lo := INT_MIN\<rparr>)"
    "tile_at (stack (datum (unlock_broken world_three))) (addr tile_B)
       = Some (tile_B\<lparr>clients := 1\<rparr>)"
    by simp_all
  from inv ci cb cbk s1 s2 l2 1 2 unlock_broken_elevation show ?thesis
    by blast
qed


end
